(* ===== verification/Prelude.thy ===== *)
theory Prelude
  imports Main "HOL-Library.AList" "HOL-Library.Char_ord" "HOL-Library.List_Lexorder"
begin

text \<open>
  What every component of the model shares.

  A Go map with string keys is an association list with distinct keys (type \<open>gomap\<close>).
  The order of the list is the order in which one run of the program happens to range over
  the map: Go leaves that order open, so a theorem that quantifies over the list quantifies
  over every order. A nil map reads as the empty one.

  A Go slice is a list; a nil slice and an empty slice are both the empty list. Looking an
  element up with \<open>slices.IndexFunc\<close> is \<open>indexFunc\<close>, with \<open>None\<close> for -1.

  The locale \<open>keyed_slice\<close> is the contract behind every place where the injector replaces
  an element of a slice by name or appends it: volumes, mounts, init containers and
  environment variables all go through it.
\<close>

named_theorems gomap_simps \<open>lookup laws of Go maps\<close>
named_theorems slice_simps \<open>laws of slices that are searched by name\<close>

type_synonym err = string

section \<open>Calls that may panic\<close>

text \<open>A call either returns or panics (a nil dereference, an index out of range).\<close>

datatype 'a goRun = Panic | Returns 'a

section \<open>Go maps\<close>

type_synonym 'v gomap = "(string \<times> 'v) list"

abbreviation gm_get :: "'v gomap \<Rightarrow> string \<Rightarrow> 'v option" where
  "gm_get m k \<equiv> map_of m k"

abbreviation gm_put :: "string \<Rightarrow> 'v \<Rightarrow> 'v gomap \<Rightarrow> 'v gomap" where
  "gm_put \<equiv> AList.update"

abbreviation gm_del :: "string \<Rightarrow> 'v gomap \<Rightarrow> 'v gomap" where
  "gm_del \<equiv> AList.delete"

abbreviation gm_keys :: "'v gomap \<Rightarrow> string list" where
  "gm_keys m \<equiv> map fst m"

definition gm_ok :: "'v gomap \<Rightarrow> bool" where
  "gm_ok m = distinct (gm_keys m)"

text \<open>Reading an absent key of a map of strings gives the zero value.\<close>

definition gm_str :: "string gomap \<Rightarrow> string \<Rightarrow> string" where
  "gm_str m k = (case gm_get m k of Some v \<Rightarrow> v | None \<Rightarrow> '''')"

lemma gm_get_put [gomap_simps]: "gm_get (gm_put k v m) k' = (if k' = k then Some v else gm_get m k')"
  by (simp add: update_conv')

lemma gm_get_del [gomap_simps]: "gm_get (gm_del k m) k' = (if k' = k then None else gm_get m k')"
  by (simp add: delete_conv')

lemma gm_str_put [gomap_simps]: "gm_str (gm_put k v m) k' = (if k' = k then v else gm_str m k')"
  by (simp add: gm_str_def gomap_simps)

lemma gm_str_Nil [simp]: "gm_str [] k = ''''"
  by (simp add: gm_str_def)

lemma gm_ok_Nil [simp]: "gm_ok []"
  by (simp add: gm_ok_def)

lemma gm_ok_put [intro]: "gm_ok m \<Longrightarrow> gm_ok (gm_put k v m)"
  by (simp add: gm_ok_def distinct_update)

lemma gm_ok_del [intro]: "gm_ok m \<Longrightarrow> gm_ok (gm_del k m)"
  by (simp add: gm_ok_def distinct_delete)

lemma gm_ok_filter [intro]: "gm_ok m \<Longrightarrow> gm_ok (filter P m)"
  by (simp add: gm_ok_def distinct_map_filter)

lemma gm_get_keys: "k \<in> set (gm_keys m) \<longleftrightarrow> gm_get m k \<noteq> None"
  by (simp add: map_of_eq_None_iff)

lemma gm_get_filter:
  assumes "gm_ok m"
  shows "gm_get (filter (\<lambda>(k, v). P v) m) k =
    (case gm_get m k of Some v \<Rightarrow> (if P v then Some v else None) | None \<Rightarrow> None)"
  using assms
proof (induction m)
  case Nil
  then show ?case by simp
next
  case (Cons a m)
  obtain k' v where a: "a = (k', v)" by (cases a)
  show ?case
  proof (cases "k' = k \<and> \<not> P v")
    case True
    with Cons.prems a have "gm_get m k = None"
      by (auto simp: gm_ok_def map_of_eq_None_iff)
    with Cons a True show ?thesis by (auto simp: gm_ok_def)
  next
    case False
    with Cons a show ?thesis by (auto simp: gm_ok_def)
  qed
qed

text \<open>Two orders of the same map have the same entries.\<close>

lemma gm_same_keys:
  assumes "gm_get m = gm_get m'"
  shows "set (gm_keys m) = set (gm_keys m')"
proof -
  have "k \<in> set (gm_keys m) \<longleftrightarrow> k \<in> set (gm_keys m')" for k
    unfolding gm_get_keys assms ..
  then show ?thesis by blast
qed

lemma gm_sort_keys:
  assumes "gm_ok m" "gm_ok m'" "gm_get m = gm_get m'"
  shows "sort (gm_keys m) = sort (gm_keys m')"
  using assms gm_same_keys [OF assms(3)]
  by (metis gm_ok_def sorted_list_of_set_sort_remdups distinct_remdups_id)

section \<open>Slices\<close>

text \<open>\<open>slices.IndexFunc\<close>: the position of the first element that satisfies the test.\<close>

fun indexFunc :: "('a \<Rightarrow> bool) \<Rightarrow> 'a list \<Rightarrow> nat option" where
  "indexFunc p [] = None"
| "indexFunc p (x # xs) = (if p x then Some 0 else map_option Suc (indexFunc p xs))"

lemma indexFunc_None: "indexFunc p xs = None \<longleftrightarrow> (\<forall>x\<in>set xs. \<not> p x)"
  by (induction xs) auto

lemma indexFunc_Some:
  "indexFunc p xs = Some i \<Longrightarrow> i < length xs \<and> p (xs ! i) \<and> (\<forall>j<i. \<not> p (xs ! j))"
  by (induction xs arbitrary: i) (auto split: if_splits simp: less_Suc_eq_0_disj)

lemma indexFunc_SomeI:
  "i < length xs \<Longrightarrow> p (xs ! i) \<Longrightarrow> (\<forall>j<i. \<not> p (xs ! j)) \<Longrightarrow> indexFunc p xs = Some i"
proof (induction xs arbitrary: i)
  case Nil
  then show ?case by simp
next
  case (Cons x xs)
  show ?case
  proof (cases i)
    case 0
    with Cons.prems show ?thesis by simp
  next
    case (Suc n)
    with Cons.prems have "\<not> p x" by force
    moreover have "indexFunc p xs = Some n"
      using Cons.prems Suc by (intro Cons.IH) auto
    ultimately show ?thesis using Suc by simp
  qed
qed

lemma indexFunc_append:
  "indexFunc p (xs @ ys) =
    (case indexFunc p xs of Some i \<Rightarrow> Some i | None \<Rightarrow> map_option (\<lambda>i. length xs + i) (indexFunc p ys))"
proof (induction xs)
  case Nil
  then show ?case by (cases "indexFunc p ys") simp_all
next
  case (Cons x xs)
  then show ?case by (cases "indexFunc p ys") (auto split: option.splits)
qed

lemma indexFunc_split:
  "indexFunc p xs = Some i \<Longrightarrow> \<exists>us x vs. xs = us @ x # vs \<and> length us = i \<and> p x \<and> (\<forall>u\<in>set us. \<not> p u)"
  using indexFunc_Some [of p xs i]
  by (intro exI [of _ "take i xs"] exI [of _ "xs ! i"] exI [of _ "drop (Suc i) xs"])
    (auto simp: id_take_nth_drop in_set_conv_nth)

text \<open>The first element of a slice with a given key.\<close>

abbreviation first_with :: "('a \<Rightarrow> string) \<Rightarrow> string \<Rightarrow> 'a list \<Rightarrow> 'a option" where
  "first_with key k xs \<equiv> find (\<lambda>y. key y = k) xs"

lemma find_append: "find p (xs @ ys) = (case find p xs of Some x \<Rightarrow> Some x | None \<Rightarrow> find p ys)"
  by (induction xs) auto

lemma find_indexFunc: "find p xs = map_option (\<lambda>i. xs ! i) (indexFunc p xs)"
  by (induction xs) (auto simp: option.map_comp comp_def)

lemma find_none_skip: "(\<forall>x\<in>set xs. \<not> p x) \<Longrightarrow> find p xs = None"
  by (simp add: find_None_iff)

section \<open>The contract of a slice that is updated by name\<close>

text \<open>
  \<open>put x xs\<close> stores \<open>x\<close> under its own key: the first element with that key is replaced
  in place, and if there is none \<open>x\<close> goes to the end. The two laws say what a lookup
  by name returns afterwards and what happens to the sequence of names.
\<close>

locale keyed_slice =
  fixes key :: "'a \<Rightarrow> string"
    and put :: "'a \<Rightarrow> 'a list \<Rightarrow> 'a list"
  assumes lookup_put: "first_with key k (put x xs) = (if k = key x then Some x else first_with key k xs)"
    and names_put: "map key (put x xs) =
      (if key x \<in> set (map key xs) then map key xs else map key xs @ [key x])"
begin

lemma lookup_same: "first_with key (key x) (put x xs) = Some x"
  by (simp add: lookup_put)

lemma lookup_other: "k \<noteq> key x \<Longrightarrow> first_with key k (put x xs) = first_with key k xs"
  by (simp add: lookup_put)

lemma name_set: "set (map key (put x xs)) = insert (key x) (set (map key xs))"
  unfolding names_put by auto

lemma distinct_put: "distinct (map key xs) \<Longrightarrow> distinct (map key (put x xs))"
  unfolding names_put by auto

lemma length_put: "length (put x xs) = (if key x \<in> set (map key xs) then length xs else Suc (length xs))"
  using arg_cong [OF names_put [of x xs], where f = length] by auto

text \<open>Storing twice does not grow the slice: re-running an update is idempotent by name.\<close>

lemma names_twice: "map key (put x' (put x xs)) = map key (put x xs)" if "key x' = key x"
proof -
  have "key x' \<in> set (map key (put x xs))"
    unfolding name_set that by simp
  then show ?thesis unfolding names_put [of x'] by (rule if_P)
qed

lemma distinct_lookup_ext:
  assumes "map key xs = map key ys" "distinct (map key xs)"
    "\<And>k. first_with key k xs = first_with key k ys"
  shows "xs = ys"
proof -
  have len: "length xs = length ys" using assms(1) by (rule map_eq_imp_length_eq)
  have hit: "first_with key (key (zs ! i)) zs = Some (zs ! i)"
    if "distinct (map key zs)" "i < length zs" for zs i
    using that indexFunc_SomeI [of i zs "\<lambda>y. key y = key (zs ! i)"]
    by (auto simp: find_indexFunc distinct_conv_nth)
  have "xs ! i = ys ! i" if i: "i < length xs" for i
  proof -
    have "key (xs ! i) = key (ys ! i)" using assms(1) i len by (metis nth_map)
    then show ?thesis
      using hit [OF assms(2) i] hit [of ys i] assms i len by (metis option.inject)
  qed
  with len show ?thesis by (rule nth_equalityI)
qed

lemma put_twice:
  assumes "distinct (map key xs)"
  shows "put x (put x xs) = put x xs"
proof (rule distinct_lookup_ext)
  show "map key (put x (put x xs)) = map key (put x xs)" by (rule names_twice) simp
  show "distinct (map key (put x (put x xs)))" by (intro distinct_put assms)
  show "first_with key k (put x (put x xs)) = first_with key k (put x xs)" for k
    by (simp add: lookup_put)
qed

end

text \<open>The shape all the code's updates have, and that it meets the contract.\<close>

definition upsert :: "('a \<Rightarrow> string) \<Rightarrow> 'a \<Rightarrow> 'a list \<Rightarrow> 'a list" where
  "upsert key x xs = (case indexFunc (\<lambda>y. key y = key x) xs of
     None \<Rightarrow> xs @ [x] | Some pos \<Rightarrow> xs[pos := x])"

lemma upsert_Nil [simp]: "upsert key x [] = [x]"
  by (simp add: upsert_def)

lemma upsert_Cons [simp]:
  "upsert key x (y # ys) = (if key y = key x then x # ys else y # upsert key x ys)"
  by (simp add: upsert_def split: option.splits)

lemma upsert_lookup:
  "first_with key k (upsert key x xs) = (if k = key x then Some x else first_with key k xs)"
  by (induction xs) auto

lemma upsert_names:
  "map key (upsert key x xs) = (if key x \<in> set (map key xs) then map key xs else map key xs @ [key x])"
  by (induction xs) auto

lemma keyed_slice_upsert: "keyed_slice key (upsert key)"
  by (rule keyed_slice.intro) (rule upsert_lookup, rule upsert_names)

section \<open>Counters with labels\<close>

text \<open>
  What a component asks of a counter: one call adds one to the count of its label tuple and to
  no other. \<open>ready\<close> is the state in which calls are counted at all.
\<close>

locale label_counter =
  fixes count_up :: "'k \<Rightarrow> 'm \<Rightarrow> 'm"
    and tally :: "'m \<Rightarrow> 'k \<Rightarrow> nat"
    and ready :: "'m \<Rightarrow> bool"
  assumes tally_up: "ready m \<Longrightarrow> tally (count_up k m) key = tally m key + (if key = k then 1 else 0)"
    and ready_up: "ready m \<Longrightarrow> ready (count_up k m)"
begin

lemma tally_all:
  "ready m \<Longrightarrow> ready (fold count_up ks m) \<and> tally (fold count_up ks m) key = tally m key + count_list ks key"
  by (induction ks arbitrary: m) (auto simp: tally_up ready_up)

lemma tally_distinct:
  assumes "ready m" "distinct ks"
  shows "tally (fold count_up ks m) key = tally m key + (if key \<in> set ks then 1 else 0)"
proof -
  have "count_list ks key = (if key \<in> set ks then 1 else 0)"
    using assms(2) by (induction ks) (auto simp: count_list_0_iff)
  with tally_all [OF assms(1)] show ?thesis by simp
qed

text \<open>The order of the calls does not show.\<close>

lemma tally_order: "ready m \<Longrightarrow> count_list ks = count_list ks' \<Longrightarrow> tally (fold count_up ks m) = tally (fold count_up ks' m)"
  by (simp add: fun_eq_iff tally_all)

end

end
