(* ===== verification/KubeTypes.thy ===== *)
theory KubeTypes
  imports Prelude
begin

text \<open>
  The Kubernetes objects the program reads and writes, with the fields it uses: object
  metadata, pods with their containers, volumes and environment variables, ConfigMaps and
  nodes. The API types themselves live in \<open>k8s.io/api\<close>; these records are their shapes as
  the program sees them. A pointer field is an option. The answer of a typed \<open>Get\<close> is an
  object, the NotFound error, or another error.
\<close>

datatype 'a getResult = Found 'a | NotFound | GetErr err

record ownerRef =
  or_APIVersion :: string
  or_Kind :: string
  or_Name :: string
  or_UID :: string
  or_Controller :: "bool option"

record objectMeta =
  om_Name :: string
  om_Namespace :: string
  om_Labels :: "string gomap"
  om_Annotations :: "string gomap"
  om_OwnerReferences :: "ownerRef list"
  om_DeletionTimestamp :: "nat option"

text \<open>The source of a variable's value: a field of the pod, or any other source.\<close>

datatype envSource = FieldRef string | OtherSource string

record envVar =
  ev_Name :: string
  ev_Value :: string
  ev_ValueFrom :: "envSource option"

record volumeMount =
  vm_Name :: string
  vm_MountPath :: string
  vm_ReadOnly :: bool

text \<open>An emptyDir has a size limit, an image volume a reference and a pull policy.\<close>

datatype volumeSource = EmptyDir string | ImageVolume string string | OtherVolume string

record volume =
  vol_Name :: string
  vol_Source :: volumeSource

record container =
  ct_Name :: string
  ct_Image :: string
  ct_ImagePullPolicy :: string
  ct_Env :: "envVar list"
  ct_VolumeMounts :: "volumeMount list"

record podSpec =
  ps_Volumes :: "volume list"
  ps_InitContainers :: "container list"
  ps_Containers :: "container list"
  ps_NodeName :: string

record pod =
  pod_Meta :: objectMeta
  pod_Spec :: podSpec

record configMap =
  cm_Meta :: objectMeta
  cm_Data :: "string gomap"

record node =
  node_Meta :: objectMeta

text \<open>\<open>types.NamespacedName.String\<close>, the key under which a ConfigMap is tracked.\<close>

definition nsName :: "string \<Rightarrow> string \<Rightarrow> string" where
  "nsName ns n = ns @ ''/'' @ n"

text \<open>Kubernetes names contain no slash, so a tracked key names one object.\<close>

lemma nsName_inj:
  assumes "nsName a b = nsName c d" "CHR ''/'' \<notin> set a" "CHR ''/'' \<notin> set c"
  shows "a = c \<and> b = d"
proof -
  have "takeWhile (\<lambda>x. x \<noteq> CHR ''/'') (nsName a b) = a"
    "takeWhile (\<lambda>x. x \<noteq> CHR ''/'') (nsName c d) = c"
    using assms(2,3) by (auto simp: nsName_def takeWhile_append)
  with assms(1) show ?thesis by (auto simp: nsName_def)
qed

text \<open>The zero values of metadata and containers, as Go's composite literals start from.\<close>

definition emptyMeta :: objectMeta where
  "emptyMeta = \<lparr>om_Name = '''', om_Namespace = '''', om_Labels = [], om_Annotations = [],
     om_OwnerReferences = [], om_DeletionTimestamp = None\<rparr>"

definition emptyContainer :: container where
  "emptyContainer = \<lparr>ct_Name = '''', ct_Image = '''', ct_ImagePullPolicy = '''',
     ct_Env = [], ct_VolumeMounts = []\<rparr>"

end
