(* ===== verification/Registry.thy ===== *)
theory Registry
  imports KubeTypes
begin

text \<open>
  \<open>internal/registry/registry.go\<close>: the in-memory store of what each selector ConfigMap
  contributes, and the first-match search the webhook, the controller and the metrics
  collector share.

  The rule documents are values of Beyla's package \<open>configmap\<close>, which is not part of this
  repository: the records below have the fields this program reads. A selector is an
  opaque value of type \<open>'sel\<close>; its method \<open>Match\<close> is the parameter \<open>sm\<close>.

  The read-write lock makes every operation atomic, so an operation is a function on the
  store. The locale \<open>selector_registry\<close> states what the operations promise to their
  clients; it is interpreted on the definitions of the model.
\<close>

section \<open>The documents of Beyla's package configmap\<close>

record owner =
  ow_Kind :: string
  ow_Name :: string

record matchInput =
  mi_Namespace :: string
  mi_OwnerChain :: "owner list"
  mi_Labels :: "string gomap"
  mi_Annotations :: "string gomap"

record ruleConfig =
  rc_Mode :: string
  rc_Env :: "envVar list"

record 'sel rule =
  rule_Selector :: 'sel
  rule_Config :: ruleConfig

record 'sel bpfConfig =
  bpf_SpanMetrics :: bool
  bpf_Rules :: "'sel rule list"

record 'sel injectConfig =
  ic_ImageVersion :: string
  ic_Rules :: "'sel rule list"
  ic_BPFConfig :: "'sel bpfConfig"

definition ModeSkip :: string where
  "ModeSkip = ''skip''"

definition isSkip :: "'sel rule \<Rightarrow> bool" where
  "isSkip r = (rc_Mode (rule_Config r) = ModeSkip)"

definition emptyInjectConfig :: "'sel injectConfig" where
  "emptyInjectConfig = \<lparr>ic_ImageVersion = '''', ic_Rules = [],
     ic_BPFConfig = \<lparr>bpf_SpanMetrics = False, bpf_Rules = []\<rparr>\<rparr>"

section \<open>The store\<close>

record 'sel instrumentation =
  InjectConfig :: "'sel injectConfig"

record podInfo =
  pi_Name :: string
  pi_Namespace :: string
  pi_Labels :: "string gomap"
  pi_Annotations :: "string gomap"
  pi_OwnerChain :: "owner list"

record 'sel registry =
  instruments :: "'sel instrumentation gomap"

definition instRules :: "'sel instrumentation \<Rightarrow> 'sel rule list" where
  "instRules inst = ic_Rules (InjectConfig inst)"

definition RegistryNew :: "'sel registry" where
  "RegistryNew = \<lparr>instruments = []\<rparr>"

definition RegistrySet :: "string \<Rightarrow> 'sel instrumentation \<Rightarrow> 'sel registry \<Rightarrow> 'sel registry" where
  "RegistrySet cmKey inst r =
    (if length (ic_Rules (InjectConfig inst)) = 0
     then r\<lparr>instruments := gm_del cmKey (instruments r)\<rparr>
     else r\<lparr>instruments := gm_put cmKey inst (instruments r)\<rparr>)"

text \<open>\<open>Replace\<close> clears the map and then ranges over the snapshot.\<close>

fun replaceLoop :: "'sel instrumentation gomap \<Rightarrow> 'sel instrumentation gomap \<Rightarrow> 'sel instrumentation gomap" where
  "replaceLoop [] m = m"
| "replaceLoop ((key, inst) # rest) m =
    replaceLoop rest (if length (ic_Rules (InjectConfig inst)) > 0 then gm_put key inst m else m)"

definition RegistryReplace :: "'sel instrumentation gomap \<Rightarrow> 'sel registry \<Rightarrow> 'sel registry" where
  "RegistryReplace insts r = r\<lparr>instruments := replaceLoop insts []\<rparr>"

definition RegistryDelete :: "string \<Rightarrow> 'sel registry \<Rightarrow> 'sel registry" where
  "RegistryDelete cmKey r = r\<lparr>instruments := gm_del cmKey (instruments r)\<rparr>"

definition buildMatchInput :: "podInfo \<Rightarrow> matchInput" where
  "buildMatchInput p = \<lparr>mi_Namespace = pi_Namespace p, mi_OwnerChain = pi_OwnerChain p,
     mi_Labels = pi_Labels p, mi_Annotations = pi_Annotations p\<rparr>"

definition generateMatchInputUnlocked :: "'sel registry \<Rightarrow> podInfo \<Rightarrow> string list \<times> matchInput" where
  "generateMatchInputUnlocked r p = (sort (gm_keys (instruments r)), buildMatchInput p)"

section \<open>First match\<close>

text \<open>
  The inner loop of \<open>Match\<close> and of \<open>BPFGeneratesSpanMetrics\<close> over the rules of one
  ConfigMap: no rule matched, the first match is a skip rule, or it is the rule to return.
\<close>

datatype 'r verdict = NoRule | Excluded | Matched 'r

fun matchRules :: "('sel \<Rightarrow> matchInput \<Rightarrow> bool) \<Rightarrow> matchInput \<Rightarrow> 'sel rule list \<Rightarrow> 'sel rule verdict" where
  "matchRules sm input [] = NoRule"
| "matchRules sm input (r # rs) =
    (if \<not> sm (rule_Selector r) input then matchRules sm input rs
     else if rc_Mode (rule_Config r) = ModeSkip then Excluded
     else Matched r)"

text \<open>Indexing the map with an absent key gives the zero value, which has no rules.\<close>

definition instAt :: "'sel instrumentation gomap \<Rightarrow> string \<Rightarrow> 'sel instrumentation" where
  "instAt m k = (case gm_get m k of Some inst \<Rightarrow> inst | None \<Rightarrow> \<lparr>InjectConfig = emptyInjectConfig\<rparr>)"

fun matchKeys :: "('sel \<Rightarrow> matchInput \<Rightarrow> bool) \<Rightarrow> 'sel instrumentation gomap \<Rightarrow> matchInput \<Rightarrow> string list
    \<Rightarrow> ('sel rule \<times> 'sel injectConfig) option" where
  "matchKeys sm m input [] = None"
| "matchKeys sm m input (k # ks) =
    (let inst = instAt m k in
     case matchRules sm input (ic_Rules (InjectConfig inst)) of
       NoRule \<Rightarrow> matchKeys sm m input ks
     | Excluded \<Rightarrow> None
     | Matched r \<Rightarrow> Some (r, InjectConfig inst))"

definition Match :: "('sel \<Rightarrow> matchInput \<Rightarrow> bool) \<Rightarrow> 'sel registry \<Rightarrow> podInfo \<Rightarrow> ('sel rule \<times> 'sel injectConfig) option" where
  "Match sm r p =
    (let (keys, input) = generateMatchInputUnlocked r p in matchKeys sm (instruments r) input keys)"

fun bpfKeys :: "('sel \<Rightarrow> matchInput \<Rightarrow> bool) \<Rightarrow> 'sel instrumentation gomap \<Rightarrow> matchInput \<Rightarrow> string list
    \<Rightarrow> 'sel rule option" where
  "bpfKeys sm m input [] = None"
| "bpfKeys sm m input (k # ks) =
    (let inst = instAt m k in
     if bpf_SpanMetrics (ic_BPFConfig (InjectConfig inst)) then
       (case matchRules sm input (bpf_Rules (ic_BPFConfig (InjectConfig inst))) of
          NoRule \<Rightarrow> bpfKeys sm m input ks
        | Excluded \<Rightarrow> None
        | Matched r \<Rightarrow> Some r)
     else bpfKeys sm m input ks)"

definition BPFGeneratesSpanMetrics :: "('sel \<Rightarrow> matchInput \<Rightarrow> bool) \<Rightarrow> 'sel registry \<Rightarrow> podInfo \<Rightarrow> 'sel rule option" where
  "BPFGeneratesSpanMetrics sm r p =
    (let (keys, input) = generateMatchInputUnlocked r p in bpfKeys sm (instruments r) input keys)"

section \<open>The contract of the store\<close>

text \<open>
  What a client may rely on: a lookup after each operation, and an invariant that every
  operation keeps. \<open>live i\<close> says that a contribution can match anything at all, that is,
  it has rules; a contribution that is not live is as good as none.
\<close>

locale selector_registry =
  fixes empty :: "'r"
    and set_reg :: "string \<Rightarrow> 'i \<Rightarrow> 'r \<Rightarrow> 'r"
    and replace :: "'i gomap \<Rightarrow> 'r \<Rightarrow> 'r"
    and del :: "string \<Rightarrow> 'r \<Rightarrow> 'r"
    and lookup :: "'r \<Rightarrow> string \<Rightarrow> 'i option"
    and invar :: "'r \<Rightarrow> bool"
    and live :: "'i \<Rightarrow> bool"
  assumes lookup_empty: "lookup empty k = None"
    and lookup_set: "invar r \<Longrightarrow> lookup (set_reg k i r) k' =
      (if k' = k then (if live i then Some i else None) else lookup r k')"
    and lookup_replace: "gm_ok m \<Longrightarrow> lookup (replace m r) k =
      (case gm_get m k of Some i \<Rightarrow> (if live i then Some i else None) | None \<Rightarrow> None)"
    and lookup_del: "invar r \<Longrightarrow> lookup (del k r) k' = (if k' = k then None else lookup r k')"
    and invar_empty: "invar empty"
    and invar_set: "invar r \<Longrightarrow> invar (set_reg k i r)"
    and invar_replace: "gm_ok m \<Longrightarrow> invar (replace m r)"
    and invar_del: "invar r \<Longrightarrow> invar (del k r)"
    and invar_live: "invar r \<Longrightarrow> lookup r k = Some i \<Longrightarrow> live i"
begin

lemmas registry_laws = lookup_empty lookup_set lookup_replace lookup_del
  invar_empty invar_set invar_replace invar_del

text \<open>Setting a contribution without rules deletes the entry.\<close>

lemma set_dead: "invar r \<Longrightarrow> \<not> live i \<Longrightarrow> lookup (set_reg k i r) = lookup (del k r)"
  by (auto simp: lookup_set lookup_del)

lemma set_overwrites: "invar r \<Longrightarrow> lookup (set_reg k i' (set_reg k i r)) = lookup (set_reg k i' r)"
  by (auto simp: lookup_set invar_set)

lemma set_commute: "invar r \<Longrightarrow> k \<noteq> k' \<Longrightarrow>
    lookup (set_reg k i (set_reg k' i' r)) = lookup (set_reg k' i' (set_reg k i r))"
  by (auto simp: lookup_set invar_set)

lemma del_after_set: "invar r \<Longrightarrow> lookup (del k (set_reg k i r)) = lookup (del k r)"
  by (auto simp: lookup_set lookup_del invar_set)

text \<open>A snapshot forgets everything that was there before.\<close>

lemma replace_forgets: "gm_ok m \<Longrightarrow> lookup (replace m r) = lookup (replace m r')"
  by (auto simp: lookup_replace)

text \<open>Setting every entry of a snapshot one after the other lays the snapshot over the store.\<close>

lemma lookup_set_all:
  assumes "gm_ok m" "invar r"
  shows "lookup (fold (\<lambda>(k, i). set_reg k i) m r) k =
    (case gm_get m k of Some i \<Rightarrow> (if live i then Some i else None) | None \<Rightarrow> lookup r k)
    \<and> invar (fold (\<lambda>(k, i). set_reg k i) m r)"
  using assms
proof (induction m arbitrary: r)
  case Nil
  then show ?case by simp
next
  case (Cons a m)
  obtain k' i' where a: "a = (k', i')" by (cases a)
  have inv: "invar (set_reg k' i' r)" using Cons.prems(2) by (rule invar_set)
  have ok: "gm_ok m" "gm_get m k' = None"
    using Cons.prems(1) a by (auto simp: gm_ok_def map_of_eq_None_iff)
  show ?case
    using Cons.IH [OF ok(1) inv] a ok(2)
    by (auto simp: lookup_set Cons.prems(2) split: option.splits)
qed

end

section \<open>The store meets the contract\<close>

definition lookupInst :: "'sel registry \<Rightarrow> string \<Rightarrow> 'sel instrumentation option" where
  "lookupInst r k = gm_get (instruments r) k"

definition hasRules :: "'sel instrumentation \<Rightarrow> bool" where
  "hasRules inst = (instRules inst \<noteq> [])"

definition registry_ok :: "'sel registry \<Rightarrow> bool" where
  "registry_ok r = (gm_ok (instruments r) \<and> (\<forall>k i. lookupInst r k = Some i \<longrightarrow> hasRules i))"

lemma replaceLoop_get:
  "gm_ok ms \<Longrightarrow> gm_get (replaceLoop ms m) k =
    (case gm_get ms k of Some i \<Rightarrow> (if hasRules i then Some i else gm_get m k) | None \<Rightarrow> gm_get m k)"
proof (induction ms m rule: replaceLoop.induct)
  case (1 m)
  then show ?case by simp
next
  case (2 key inst rest m)
  from 2(2) have "gm_ok rest" "gm_get rest key = None"
    by (auto simp: gm_ok_def map_of_eq_None_iff)
  with 2(1) show ?case
    by (auto simp: gomap_simps hasRules_def instRules_def split: option.splits)
qed

lemma replaceLoop_ok: "gm_ok m \<Longrightarrow> gm_ok (replaceLoop ms m)"
  by (induction ms m rule: replaceLoop.induct) (auto simp: gm_ok_put)

lemmas registry_defs = RegistryNew_def RegistrySet_def RegistryReplace_def RegistryDelete_def
  registry_ok_def lookupInst_def

interpretation reg: selector_registry RegistryNew RegistrySet RegistryReplace RegistryDelete
  lookupInst registry_ok hasRules
proof
  show "lookupInst (RegistryNew :: 'a registry) k = None" for k
    by (simp add: registry_defs)
  show "lookupInst (RegistrySet k i r) k' =
      (if k' = k then (if hasRules i then Some i else None) else lookupInst r k')"
    for r :: "'a registry" and k k' i
    by (simp add: registry_defs gomap_simps hasRules_def instRules_def)
  show "lookupInst (RegistryReplace m r) k =
      (case gm_get m k of Some i \<Rightarrow> (if hasRules i then Some i else None) | None \<Rightarrow> None)"
    if "gm_ok m" for m and r :: "'a registry" and k
    using that by (simp add: registry_defs replaceLoop_get split: option.splits)
  show "lookupInst (RegistryDelete k r) k' = (if k' = k then None else lookupInst r k')"
    for r :: "'a registry" and k k'
    by (simp add: registry_defs gomap_simps)
  show "registry_ok (RegistryNew :: 'a registry)"
    by (simp add: registry_defs)
  show "registry_ok (RegistrySet k i r)" if "registry_ok r" for r :: "'a registry" and k i
    using that by (auto simp: registry_defs gomap_simps hasRules_def instRules_def)
  show "registry_ok (RegistryReplace m r)" if "gm_ok m" for m and r :: "'a registry"
    using that by (auto simp: registry_defs replaceLoop_ok replaceLoop_get split: option.splits if_splits)
  show "registry_ok (RegistryDelete k r)" if "registry_ok r" for r :: "'a registry" and k
    using that by (auto simp: registry_defs gomap_simps)
  show "hasRules i" if "registry_ok r" "lookupInst r k = Some i" for r :: "'a registry" and k i
    using that by (simp add: registry_ok_def)
qed

text \<open>Any sequence of operations from the empty store.\<close>

datatype 'sel regOp =
    OpSet string "'sel instrumentation"
  | OpReplace "'sel instrumentation gomap"
  | OpDelete string

fun regApply :: "'sel regOp \<Rightarrow> 'sel registry \<Rightarrow> 'sel registry" where
  "regApply (OpSet k i) r = RegistrySet k i r"
| "regApply (OpReplace m) r = RegistryReplace m r"
| "regApply (OpDelete k) r = RegistryDelete k r"

fun regOp_ok :: "'sel regOp \<Rightarrow> bool" where
  "regOp_ok (OpReplace m) = gm_ok m"
| "regOp_ok _ = True"

lemma regApply_ok: "registry_ok r \<Longrightarrow> regOp_ok oper \<Longrightarrow> registry_ok (regApply oper r)"
  by (cases oper) (auto intro: reg.invar_set reg.invar_replace reg.invar_del)

lemma regRun_ok:
  "registry_ok r \<Longrightarrow> (\<forall>oper\<in>set opers. regOp_ok oper) \<Longrightarrow> registry_ok (fold regApply opers r)"
  by (induction opers arbitrary: r) (auto intro: regApply_ok)

section \<open>First match as a search of one list\<close>

text \<open>
  The specification of both searches: all rules of all ConfigMaps in key order in one list,
  the first whose selector matches decides, and a skip rule decides for no match.
\<close>

definition rulesInOrder :: "('sel instrumentation \<Rightarrow> 'sel rule list) \<Rightarrow> 'sel instrumentation gomap
    \<Rightarrow> string list \<Rightarrow> ('sel rule \<times> 'sel injectConfig) list" where
  "rulesInOrder rules_of m ks =
    concat (map (\<lambda>k. map (\<lambda>ru. (ru, InjectConfig (instAt m k))) (rules_of (instAt m k))) ks)"

definition decide :: "('sel \<Rightarrow> matchInput \<Rightarrow> bool) \<Rightarrow> matchInput \<Rightarrow> ('sel rule \<times> 'sel injectConfig) list
    \<Rightarrow> ('sel rule \<times> 'sel injectConfig) option" where
  "decide sm input l =
    (case find (\<lambda>(ru, c). sm (rule_Selector ru) input) l of
       None \<Rightarrow> None | Some (ru, c) \<Rightarrow> if isSkip ru then None else Some (ru, c))"

definition bpfRulesOf :: "'sel instrumentation \<Rightarrow> 'sel rule list" where
  "bpfRulesOf inst = (let b = ic_BPFConfig (InjectConfig inst) in
     if bpf_SpanMetrics b then bpf_Rules b else [])"

lemma decide_append:
  "decide sm input (map (\<lambda>ru. (ru, c)) rs @ l) =
    (case matchRules sm input rs of NoRule \<Rightarrow> decide sm input l | Excluded \<Rightarrow> None
     | Matched r \<Rightarrow> Some (r, c))"
  by (induction rs) (auto simp: decide_def isSkip_def)

lemma rulesInOrder_Cons:
  "rulesInOrder f m (k # ks) = map (\<lambda>ru. (ru, InjectConfig (instAt m k))) (f (instAt m k)) @ rulesInOrder f m ks"
  by (simp add: rulesInOrder_def)

lemma matchKeys_decide:
  "matchKeys sm m input ks = decide sm input (rulesInOrder instRules m ks)"
proof (induction ks)
  case Nil
  then show ?case by (simp add: decide_def rulesInOrder_def)
next
  case (Cons k ks)
  then show ?case
    by (auto simp: rulesInOrder_Cons decide_append instRules_def Let_def split: verdict.splits)
qed

lemma bpfKeys_decide:
  "bpfKeys sm m input ks = map_option fst (decide sm input (rulesInOrder bpfRulesOf m ks))"
proof (induction ks)
  case Nil
  then show ?case by (simp add: decide_def rulesInOrder_def)
next
  case (Cons k ks)
  then show ?case
    by (auto simp: rulesInOrder_Cons decide_append bpfRulesOf_def Let_def split: verdict.splits)
qed

text \<open>What a match says about the rule that was found.\<close>

lemma decide_Some:
  assumes "decide sm input l = Some (ru, c)"
  shows "\<exists>us vs. l = us @ (ru, c) # vs \<and> sm (rule_Selector ru) input \<and> \<not> isSkip ru
    \<and> (\<forall>(ru', c')\<in>set us. \<not> sm (rule_Selector ru') input)"
proof -
  from assms have f: "find (\<lambda>(ru, c). sm (rule_Selector ru) input) l = Some (ru, c)"
    and n: "\<not> isSkip ru"
    by (auto simp: decide_def split: option.splits prod.splits if_splits)
  from f n show ?thesis
    by (auto simp: find_indexFunc dest!: indexFunc_split) fastforce
qed

lemma decide_None:
  assumes "decide sm input l = None" "(ru, c) \<in> set l" "sm (rule_Selector ru) input"
  shows "\<exists>ru' c'. (ru', c') \<in> set l \<and> isSkip ru' \<and> sm (rule_Selector ru') input"
proof -
  have "find (\<lambda>(ru, c). sm (rule_Selector ru) input) l \<noteq> None" using assms(2,3) by (auto simp: find_None_iff)
  with assms(1) obtain ru' c' where f: "find (\<lambda>(ru, c). sm (rule_Selector ru) input) l = Some (ru', c')" and "isSkip ru'"
    by (auto simp: decide_def split: if_split_asm)
  moreover have "(ru', c') \<in> set l \<and> sm (rule_Selector ru') input"
    using f by (auto simp: find_Some_iff) (metis nth_mem)
  ultimately show ?thesis by blast
qed

lemma listed_rule:
  "(ru, c) \<in> set (rulesInOrder instRules (instruments reg) (sort (gm_keys (instruments reg))))
    \<longleftrightarrow> (\<exists>k inst. lookupInst reg k = Some inst \<and> ru \<in> set (instRules inst) \<and> c = InjectConfig inst)"
proof -
  have "k \<in> set (gm_keys (instruments reg)) \<longleftrightarrow> (\<exists>inst. lookupInst reg k = Some inst)"
    "lookupInst reg k = Some inst \<Longrightarrow> instAt (instruments reg) k = inst" for k inst
    unfolding gm_get_keys by (auto simp: instAt_def lookupInst_def)
  then have key: "k \<in> set (gm_keys (instruments reg)) \<and> instAt (instruments reg) k = inst \<longleftrightarrow> lookupInst reg k = Some inst" for k inst
    by blast
  have "(ru, c) \<in> set (rulesInOrder instRules (instruments reg) (sort (gm_keys (instruments reg))))
      \<longleftrightarrow> (\<exists>k inst. (k \<in> set (gm_keys (instruments reg)) \<and> instAt (instruments reg) k = inst)
        \<and> ru \<in> set (instRules inst) \<and> c = InjectConfig inst)"
    by (auto simp: rulesInOrder_def)
  then show ?thesis unfolding key .
qed

lemma Match_source:
  assumes "Match sm reg info = Some (ru, c)"
  shows "\<exists>k inst. lookupInst reg k = Some inst \<and> ru \<in> set (instRules inst) \<and> c = InjectConfig inst"
proof -
  have "decide sm (buildMatchInput info) (rulesInOrder instRules (instruments reg) (sort (gm_keys (instruments reg)))) = Some (ru, c)"
    using assms by (simp add: Match_def generateMatchInputUnlocked_def matchKeys_decide)
  then have "(ru, c) \<in> set (rulesInOrder instRules (instruments reg) (sort (gm_keys (instruments reg))))"
    using decide_Some by fastforce
  then show ?thesis by (simp add: listed_rule)
qed

lemma Match_None:
  assumes "Match sm reg info = None" "lookupInst reg k = Some inst" "ru \<in> set (instRules inst)" "sm (rule_Selector ru) (buildMatchInput info)"
  shows "\<exists>k' inst' ru'. lookupInst reg k' = Some inst' \<and> ru' \<in> set (instRules inst') \<and> isSkip ru' \<and> sm (rule_Selector ru') (buildMatchInput info)"
proof -
  have "decide sm (buildMatchInput info) (rulesInOrder instRules (instruments reg) (sort (gm_keys (instruments reg)))) = None"
    using assms(1) by (simp add: Match_def generateMatchInputUnlocked_def matchKeys_decide)
  moreover have "(ru, InjectConfig inst) \<in> set (rulesInOrder instRules (instruments reg) (sort (gm_keys (instruments reg))))"
    unfolding listed_rule using assms(2,3) by blast
  ultimately obtain ru' c' where "isSkip ru'" "sm (rule_Selector ru') (buildMatchInput info)"
    "(ru', c') \<in> set (rulesInOrder instRules (instruments reg) (sort (gm_keys (instruments reg))))"
    using assms(4) decide_None by blast
  then show ?thesis unfolding listed_rule by blast
qed

lemma Match_not_skip: "Match sm r p = Some (ru, c) \<Longrightarrow> \<not> isSkip ru \<and> sm (rule_Selector ru) (buildMatchInput p)"
  by (auto simp: Match_def generateMatchInputUnlocked_def matchKeys_decide dest: decide_Some)

text \<open>The result depends on the contents of the store and on the matching input only.\<close>

lemma instAt_cong: "gm_get m = gm_get m' \<Longrightarrow> instAt m k = instAt m' k"
  by (simp add: instAt_def)

lemma matchKeys_cong: "gm_get m = gm_get m' \<Longrightarrow> matchKeys sm m input ks = matchKeys sm m' input ks"
  unfolding matchKeys_decide rulesInOrder_def by (simp add: instAt_cong [of m m'])

lemma bpfKeys_cong: "gm_get m = gm_get m' \<Longrightarrow> bpfKeys sm m input ks = bpfKeys sm m' input ks"
  unfolding bpfKeys_decide rulesInOrder_def by (simp add: instAt_cong [of m m'])

lemma lookup_same_keys:
  assumes "registry_ok r" "registry_ok r'" "lookupInst r = lookupInst r'"
  shows "gm_get (instruments r) = gm_get (instruments r')"
    "sort (gm_keys (instruments r)) = sort (gm_keys (instruments r'))"
proof -
  show eq: "gm_get (instruments r) = gm_get (instruments r')"
    using assms(3) by (simp add: lookupInst_def fun_eq_iff)
  show "sort (gm_keys (instruments r)) = sort (gm_keys (instruments r'))"
    by (rule gm_sort_keys [OF _ _ eq]) (use assms in \<open>auto simp: registry_ok_def\<close>)
qed

section \<open>Properties\<close>

text \<open>The abstract store is a partial map from ConfigMap keys to contributions with rules.\<close>

definition keepLive :: "'sel instrumentation option \<Rightarrow> 'sel instrumentation option" where
  "keepLive x = (case x of Some i \<Rightarrow> (if hasRules i then Some i else None) | None \<Rightarrow> None)"

fun absApply :: "'sel regOp \<Rightarrow> (string \<rightharpoonup> 'sel instrumentation) \<Rightarrow> (string \<rightharpoonup> 'sel instrumentation)" where
  "absApply (OpSet k i) m = m(k := keepLive (Some i))"
| "absApply (OpReplace s) m = (\<lambda>k. keepLive (gm_get s k))"
| "absApply (OpDelete k) m = m(k := None)"

lemma absApply_step:
  "registry_ok r \<Longrightarrow> regOp_ok oper \<Longrightarrow> lookupInst (regApply oper r) = absApply oper (lookupInst r)"
  by (cases oper) (auto simp: keepLive_def reg.registry_laws fun_eq_iff split: option.splits)

lemma absApply_run:
  "registry_ok r \<Longrightarrow> (\<forall>oper\<in>set opers. regOp_ok oper) \<Longrightarrow>
    lookupInst (fold regApply opers r) = fold absApply opers (lookupInst r)"
  by (induction opers arbitrary: r) (auto simp: absApply_step regApply_ok)

text \<open>A store with two ConfigMaps, used by the witnesses below.\<close>

definition sampleInst :: "string \<Rightarrow> string \<Rightarrow> string instrumentation" where
  "sampleInst version ns = \<lparr>InjectConfig = \<lparr>ic_ImageVersion = version,
     ic_Rules = [\<lparr>rule_Selector = ns, rule_Config = \<lparr>rc_Mode = '''', rc_Env = []\<rparr>\<rparr>],
     ic_BPFConfig = \<lparr>bpf_SpanMetrics = False, bpf_Rules = []\<rparr>\<rparr>\<rparr>"

definition nsSelector :: "string \<Rightarrow> matchInput \<Rightarrow> bool" where
  "nsSelector s i = (s = mi_Namespace i)"

text \<open>
  C25. \<open>Match\<close> is first-match over one list: all rules of all ConfigMaps, ConfigMaps in
  sorted key order and rules in document order; the first rule whose selector matches
  decides, and if it is a skip rule the pod has no match whatever follows.
\<close>

theorem Match_first_match:
  "Match sm r p = decide sm (buildMatchInput p)
     (rulesInOrder instRules (instruments r) (sort (gm_keys (instruments r))))"
  by (simp add: Match_def generateMatchInputUnlocked_def matchKeys_decide)

text \<open>
  \<open>BPFGeneratesSpanMetrics\<close> is the same search over the BPF rules of the ConfigMaps
  that switch span metrics on; the other ConfigMaps are passed over.
\<close>

theorem BPF_first_match:
  "BPFGeneratesSpanMetrics sm r p = map_option fst (decide sm (buildMatchInput p)
     (rulesInOrder bpfRulesOf (instruments r) (sort (gm_keys (instruments r)))))"
  by (simp add: BPFGeneratesSpanMetrics_def generateMatchInputUnlocked_def bpfKeys_decide)

text \<open>
  Determinism: both searches give the same answer on two stores with the same contents,
  in whatever order Go ranges over the map and in whatever order it was filled.
\<close>

theorem Match_order_independent:
  assumes "registry_ok r" "registry_ok r'" "lookupInst r = lookupInst r'"
  shows "Match sm r p = Match sm r' p \<and> BPFGeneratesSpanMetrics sm r p = BPFGeneratesSpanMetrics sm r' p"
proof -
  note same = lookup_same_keys [OF assms]
  show ?thesis
    unfolding Match_def BPFGeneratesSpanMetrics_def generateMatchInputUnlocked_def
    by (simp add: same(2) matchKeys_cong [OF same(1)] bpfKeys_cong [OF same(1)])
qed

theorem Match_order_independent_witness:
  "Match nsSelector \<lparr>instruments = [(''b'', sampleInst ''1'' ''apps''), (''a'', sampleInst ''2'' ''apps'')]\<rparr>
     \<lparr>pi_Name = ''p'', pi_Namespace = ''apps'', pi_Labels = [], pi_Annotations = [], pi_OwnerChain = []\<rparr>
   = Match nsSelector \<lparr>instruments = [(''a'', sampleInst ''2'' ''apps''), (''b'', sampleInst ''1'' ''apps'')]\<rparr>
     \<lparr>pi_Name = ''p'', pi_Namespace = ''apps'', pi_Labels = [], pi_Annotations = [], pi_OwnerChain = []\<rparr>"
  by (rule Match_order_independent [THEN conjunct1])
    (auto simp: registry_ok_def lookupInst_def gm_ok_def hasRules_def instRules_def sampleInst_def
      fun_eq_iff split: if_splits)

text \<open>
  C24. Refinement: after any sequence of \<open>Set\<close>, \<open>Replace\<close> and \<open>Delete\<close> calls from the empty
  store, the store holds exactly what the abstract partial map holds, and its invariant
  (distinct keys, no contribution without rules) holds.
\<close>

theorem registry_refines_map:
  assumes "\<forall>oper\<in>set opers. regOp_ok oper"
  shows "lookupInst (fold regApply opers RegistryNew) = fold absApply opers (\<lambda>_. None)
    \<and> registry_ok (fold regApply opers RegistryNew)"
proof -
  have empty: "lookupInst RegistryNew = (\<lambda>_. None)" by (rule ext) (rule reg.lookup_empty)
  show ?thesis
    using absApply_run [OF reg.invar_empty assms] regRun_ok [OF reg.invar_empty assms]
    unfolding empty by blast
qed

theorem registry_refines_map_witness:
  "lookupInst (fold regApply [OpSet ''a'' (sampleInst ''1'' ''x''), OpReplace [(''b'', sampleInst ''2'' ''y'')],
      OpDelete ''c''] RegistryNew) = [''b'' \<mapsto> sampleInst ''2'' ''y'']"
proof -
  let ?ops = "[OpSet ''a'' (sampleInst ''1'' ''x''), OpReplace [(''b'', sampleInst ''2'' ''y'')], OpDelete ''c'']"
  have "lookupInst (fold regApply ?ops RegistryNew) = fold absApply ?ops (\<lambda>_. None)"
    by (rule registry_refines_map [THEN conjunct1]) (simp add: gm_ok_def)
  then show ?thesis by (auto simp: keepLive_def hasRules_def instRules_def sampleInst_def fun_eq_iff)
qed

text \<open>
  Loading a snapshot is the same as setting its entries one by one, in any order, into an
  empty store: nothing of the store before the refresh survives.
\<close>

theorem Replace_is_fresh_Sets:
  assumes "gm_ok m"
  shows "lookupInst (RegistryReplace m r) = lookupInst (fold (\<lambda>(k, i). RegistrySet k i) m RegistryNew)"
  by (rule ext)
    (simp add: reg.lookup_replace [OF assms] reg.lookup_set_all [OF assms reg.invar_empty, THEN conjunct1]
      reg.lookup_empty split: option.split)

theorem Replace_is_fresh_Sets_witness:
  "lookupInst (RegistryReplace [(''k'', sampleInst ''1'' ''x'')] RegistryNew) ''k'' = Some (sampleInst ''1'' ''x'')"
proof -
  have "gm_ok [(''k'', sampleInst ''1'' ''x'')]" by (simp add: gm_ok_def)
  from Replace_is_fresh_Sets [OF this, of RegistryNew] show ?thesis
    by (simp add: RegistrySet_def RegistryNew_def lookupInst_def sampleInst_def)
qed

end
