(* ===== verification/GoStrings.thy ===== *)
theory GoStrings
  imports Prelude "HOL-Library.Word"
begin

unbundle bit_operations_syntax

text \<open>
  What the program uses of Go's standard library: \<open>strings\<close> (a Go string is a sequence of
  bytes, here a list of characters), \<open>strconv\<close> (\<open>Atoi\<close> with its two error kinds and the
  clamped value it returns on a range error, \<open>FormatUint\<close>, \<open>Quote\<close>), \<open>hash/fnv\<close> (the 64-bit
  FNV-1a state and its wire format) and \<open>encoding/binary\<close> (big-endian 64-bit words).
  The 64-bit accumulator is a \<open>64 word\<close>: its multiplication wraps around, as Go's does.
\<close>

section \<open>strings\<close>

definition hasPrefix :: "string \<Rightarrow> string \<Rightarrow> bool" where
  "hasPrefix s p = (take (length p) s = p)"

definition hasSuffix :: "string \<Rightarrow> string \<Rightarrow> bool" where
  "hasSuffix s q = (length q \<le> length s \<and> drop (length s - length q) s = q)"

definition cutPrefix :: "string \<Rightarrow> string \<Rightarrow> string option" where
  "cutPrefix s p = (if hasPrefix s p then Some (drop (length p) s) else None)"

text \<open>\<open>strings.LastIndexByte\<close> and \<open>strings.LastIndex\<close> of a one-byte string; \<open>None\<close> is -1.\<close>

definition lastIndexByte :: "string \<Rightarrow> char \<Rightarrow> nat option" where
  "lastIndexByte s c = (case indexFunc (\<lambda>x. x = c) (rev s) of
     None \<Rightarrow> None | Some i \<Rightarrow> Some (length s - Suc i))"

text \<open>\<open>strings.TrimRight (s, cutset)\<close> for a one-byte cutset.\<close>

definition trimRightByte :: "char \<Rightarrow> string \<Rightarrow> string" where
  "trimRightByte c s = rev (dropWhile (\<lambda>x. x = c) (rev s))"

fun joinWith :: "string \<Rightarrow> string list \<Rightarrow> string" where
  "joinWith sep [] = ''''"
| "joinWith sep [x] = x"
| "joinWith sep (x # y # xs) = x @ sep @ joinWith sep (y # xs)"

text \<open>\<open>strings.SplitSeq\<close> on a one-byte separator: always at least one piece.\<close>

fun splitByte :: "char \<Rightarrow> string \<Rightarrow> string list" where
  "splitByte c [] = [[]]"
| "splitByte c (x # xs) =
    (if x = c then [] # splitByte c xs
     else (case splitByte c xs of [] \<Rightarrow> [[x]] | w # ws \<Rightarrow> (x # w) # ws))"

text \<open>
  \<open>strings.TrimSpace\<close> removes leading and trailing white space in the sense of Unicode. The
  byte sequences below are the UTF-8 encodings of exactly those characters.
\<close>

definition bytes :: "nat list \<Rightarrow> string" where
  "bytes ns = map char_of ns"

definition whiteSpace :: "string list" where
  "whiteSpace = map bytes
     ([[9], [10], [11], [12], [13], [32], [0xC2, 0x85], [0xC2, 0xA0], [0xE1, 0x9A, 0x80],
       [0xE2, 0x80, 0xA8], [0xE2, 0x80, 0xA9], [0xE2, 0x80, 0xAF], [0xE2, 0x81, 0x9F],
       [0xE3, 0x80, 0x80]] @ map (\<lambda>n. [0xE2, 0x80, 0x80 + n]) [0..<11])"

function trimLeftSeqs :: "string list \<Rightarrow> string \<Rightarrow> string" where
  "trimLeftSeqs ws s =
    (case find (\<lambda>w. w \<noteq> [] \<and> hasPrefix s w) ws of
       None \<Rightarrow> s | Some w \<Rightarrow> trimLeftSeqs ws (drop (length w) s))"
  by pat_completeness auto
termination
proof (relation "measure (\<lambda>(ws, s). length s)", goal_cases)
  case (2 ws s w)
  then have "w \<noteq> []" "take (length w) s = w" by (auto simp: find_Some_iff hasPrefix_def)
  then show ?case by (cases s) auto
qed simp

declare trimLeftSeqs.simps [simp del]

definition trimSpace :: "string \<Rightarrow> string" where
  "trimSpace s = rev (trimLeftSeqs (map rev whiteSpace) (rev (trimLeftSeqs whiteSpace s)))"

text \<open>\<open>strings.ToLower\<close> on ASCII bytes; other bytes are left as they are.\<close>

definition toLowerByte :: "char \<Rightarrow> char" where
  "toLowerByte c = (let n = of_char c :: nat in if 65 \<le> n \<and> n \<le> 90 then char_of (n + 32) else c)"

definition toLower :: "string \<Rightarrow> string" where
  "toLower s = map toLowerByte s"

subsection \<open>Laws of strings\<close>

lemma hasPrefix_append: "hasPrefix s p \<longleftrightarrow> (\<exists>r. s = p @ r)"
  by (metis append_eq_conv_conj append_take_drop_id hasPrefix_def)

lemma hasSuffix_append: "hasSuffix s q \<longleftrightarrow> (\<exists>r. s = r @ q)"
proof
  assume "hasSuffix s q"
  then have "drop (length s - length q) s = q" by (simp add: hasSuffix_def)
  then have "s = take (length s - length q) s @ q"
    using append_take_drop_id [of "length s - length q" s] by simp
  then show "\<exists>r. s = r @ q" ..
qed (auto simp: hasSuffix_def)

lemma cutPrefix_Some: "cutPrefix s p = Some r \<longleftrightarrow> s = p @ r"
  by (auto simp: cutPrefix_def hasPrefix_def) (metis append_take_drop_id)

lemma cutPrefix_append [simp]: "cutPrefix (p @ r) p = Some r"
  by (simp add: cutPrefix_Some)

lemma lastIndexByte_None: "lastIndexByte s c = None \<longleftrightarrow> c \<notin> set s"
proof -
  have "lastIndexByte s c = None \<longleftrightarrow> indexFunc (\<lambda>x. x = c) (rev s) = None"
    by (simp add: lastIndexByte_def split: option.splits)
  then show ?thesis by (auto simp: indexFunc_None)
qed

lemma lastIndexByte_Some:
  assumes "lastIndexByte s c = Some i"
  shows "i < length s \<and> s = take i s @ c # drop (Suc i) s \<and> c \<notin> set (drop (Suc i) s)"
proof -
  from assms obtain j where j: "indexFunc (\<lambda>x. x = c) (rev s) = Some j" and i: "i = length s - Suc j"
    by (auto simp: lastIndexByte_def split: option.splits)
  from indexFunc_split [OF j] obtain us vs where
    s: "rev s = us @ c # vs" and l: "length us = j" and n: "c \<notin> set us" by auto
  from s have s': "s = rev vs @ c # rev us" by (simp add: rev_swap)
  then have "i = length vs" using i l by simp
  with s' n show ?thesis by simp
qed

lemma lastIndexByte_append: "c \<notin> set q \<Longrightarrow> lastIndexByte (p @ c # q) c = Some (length p)"
proof -
  assume "c \<notin> set q"
  then have "indexFunc (\<lambda>x. x = c) (rev q) = None" by (auto simp: indexFunc_None)
  then show ?thesis by (simp add: lastIndexByte_def indexFunc_append)
qed

lemma joinWith_Cons: "joinWith sep (x # xs) = (if xs = [] then x else x @ sep @ joinWith sep xs)"
  by (cases xs) auto

lemma trimLeftSeqs_id:
  assumes "\<forall>w\<in>set ws. w \<noteq> [] \<longrightarrow> hd w \<notin> set s"
  shows "trimLeftSeqs ws s = s"
proof -
  have "find (\<lambda>w. w \<noteq> [] \<and> hasPrefix s w) ws = None"
    unfolding find_None_iff
  proof
    assume "\<exists>w. w \<in> set ws \<and> w \<noteq> [] \<and> hasPrefix s w"
    then obtain w where w: "w \<in> set ws" "w \<noteq> []" "take (length w) s = w" by (auto simp: hasPrefix_def)
    then have "hd w \<in> set s" by (metis hd_in_set in_set_takeD)
    with assms w show False by blast
  qed
  then show ?thesis by (simp add: trimLeftSeqs.simps)
qed

text \<open>Printable ASCII without a blank is not trimmed.\<close>

lemma trimSpace_id:
  assumes "\<forall>c\<in>set s. 32 < (of_char c :: nat) \<and> of_char c < (128 :: nat)"
  shows "trimSpace s = s"
proof -
  have "\<forall>w\<in>set whiteSpace. \<forall>b\<in>set w. (of_char b :: nat) \<le> 32 \<or> 128 \<le> (of_char b :: nat)"
    by (simp add: whiteSpace_def bytes_def of_char_of)
  then have ws: "b \<notin> set s" if "w \<in> set whiteSpace" "b \<in> set w" for w b
    using that assms by force
  then have "trimLeftSeqs whiteSpace s = s" by (intro trimLeftSeqs_id ballI impI) simp
  moreover have "trimLeftSeqs (map rev whiteSpace) (rev s) = rev s"
    using ws by (intro trimLeftSeqs_id ballI impI) (auto simp: hd_rev)
  ultimately show ?thesis by (simp add: trimSpace_def)
qed

lemma splitByte_nonempty [simp]: "splitByte c s \<noteq> []"
  by (induction c s rule: splitByte.induct) (auto split: list.splits)

text \<open>Splitting on a byte and joining with it are inverse.\<close>

lemma joinWith_splitByte: "joinWith [c] (splitByte c s) = s"
  by (induction c s rule: splitByte.induct) (auto simp: joinWith_Cons split: list.splits)

lemma splitByte_no_sep: "w \<in> set (splitByte c s) \<Longrightarrow> c \<notin> set w"
  by (induction c s arbitrary: w rule: splitByte.induct) (auto split: if_splits list.splits)

lemma splitByte_word: "c \<notin> set w \<Longrightarrow> splitByte c w = [w]"
  by (induction c w rule: splitByte.induct) auto

lemma splitByte_append: "c \<notin> set w \<Longrightarrow> splitByte c (w @ c # s) = w # splitByte c s"
  by (induction w) auto

section \<open>strconv\<close>

datatype num_error = ErrSyntax | ErrRange

definition isDigit :: "char \<Rightarrow> bool" where
  "isDigit c = (let n = of_char c :: nat in 48 \<le> n \<and> n \<le> 57)"

definition digitVal :: "char \<Rightarrow> nat" where
  "digitVal c = of_char c - 48"

text \<open>The loop of \<open>strconv.ParseUint\<close> in base 10 with 64 bits.\<close>

fun parseUintLoop :: "nat \<Rightarrow> string \<Rightarrow> nat \<times> num_error option" where
  "parseUintLoop n [] = (n, None)"
| "parseUintLoop n (c # cs) =
    (if \<not> isDigit c then (0, Some ErrSyntax)
     else if (2 ^ 64 - 1) div 10 + 1 \<le> n then (2 ^ 64 - 1, Some ErrRange)
     else let n1 = n * 10 + digitVal c in
       if 2 ^ 64 \<le> n1 then (2 ^ 64 - 1, Some ErrRange) else parseUintLoop n1 cs)"

definition parseUint :: "string \<Rightarrow> nat \<times> num_error option" where
  "parseUint s = (if s = [] then (0, Some ErrSyntax) else parseUintLoop 0 s)"

text \<open>\<open>strconv.Atoi\<close> for 64-bit \<open>int\<close>: an optional sign, then decimal digits.\<close>

definition atoi :: "string \<Rightarrow> int \<times> num_error option" where
  "atoi s =
    (let (neg, ds) = (case s of [] \<Rightarrow> (False, []) | c # cs \<Rightarrow>
            if c = CHR ''+'' then (False, cs) else if c = CHR ''-'' then (True, cs) else (False, s));
         (un, e) = parseUint ds
     in if e = Some ErrSyntax then (0, Some ErrSyntax)
        else if \<not> neg \<and> 2 ^ 63 \<le> un then (2 ^ 63 - 1, Some ErrRange)
        else if neg \<and> 2 ^ 63 < un then (- (2 ^ 63), Some ErrRange)
        else (if neg then - int un else int un, None))"

text \<open>\<open>strconv.FormatUint\<close> in a base from 2 to 36.\<close>

definition digitTable :: string where
  "digitTable = ''0123456789abcdefghijklmnopqrstuvwxyz''"

function formatUint :: "nat \<Rightarrow> nat \<Rightarrow> string" where
  "formatUint b n = (if b < 2 \<or> n < b then [digitTable ! n]
     else formatUint b (n div b) @ [digitTable ! (n mod b)])"
  by pat_completeness auto
termination
  by (relation "measure snd") auto

declare formatUint.simps [simp del]

definition digitOf :: "char \<Rightarrow> nat" where
  "digitOf c = (case indexFunc (\<lambda>x. x = c) digitTable of Some i \<Rightarrow> i | None \<Rightarrow> 0)"

definition readUint :: "nat \<Rightarrow> string \<Rightarrow> nat" where
  "readUint b s = foldl (\<lambda>a c. a * b + digitOf c) 0 s"

text \<open>
  The verb \<open>%q\<close> of \<open>fmt\<close>: a quoted string with Go's escapes. Bytes beyond ASCII stand for
  themselves, as they do in valid UTF-8 of printable characters.
\<close>

definition quoteByte :: "char \<Rightarrow> string" where
  "quoteByte c =
    (let n = of_char c :: nat in
     if n = 34 then [char_of (92 :: nat), char_of (34 :: nat)]
     else if n = 92 then [char_of (92 :: nat), char_of (92 :: nat)]
     else if 32 \<le> n \<and> n \<noteq> 127 then [c]
     else char_of (92 :: nat) # (if n = 7 then ''a'' else if n = 8 then ''b'' else if n = 9 then ''t'' else if n = 10 then ''n''
       else if n = 11 then ''v'' else if n = 12 then ''f'' else if n = 13 then ''r''
       else CHR ''x'' # [digitTable ! (n div 16), digitTable ! (n mod 16)]))"

definition quoted :: "string \<Rightarrow> string" where
  "quoted s = char_of (34 :: nat) # concat (map quoteByte s) @ [char_of (34 :: nat)]"

lemma digitTable_length: "length digitTable = 36"
  by (simp add: digitTable_def)

lemma digitTable_distinct: "distinct digitTable"
  by (simp add: digitTable_def)

lemma digitOf_digitTable: "n < 36 \<Longrightarrow> digitOf (digitTable ! n) = n"
proof -
  assume n: "n < 36"
  have "\<forall>j<n. digitTable ! j \<noteq> digitTable ! n"
    using digitTable_distinct n by (auto simp: distinct_conv_nth digitTable_length)
  then have "indexFunc (\<lambda>x. x = digitTable ! n) digitTable = Some n"
    using n by (intro indexFunc_SomeI) (auto simp: digitTable_length)
  then show ?thesis by (simp add: digitOf_def)
qed

lemma formatUint_nonempty: "formatUint b n \<noteq> []"
  by (subst formatUint.simps) simp

text \<open>Reading back what was printed: so printing is injective.\<close>

lemma readUint_formatUint:
  assumes "2 \<le> b" "b \<le> 36"
  shows "readUint b (formatUint b n) = n"
  using assms
proof (induction b n rule: formatUint.induct)
  case (1 b n)
  show ?case
  proof (cases "n < b")
    case True
    with 1 show ?thesis by (simp add: formatUint.simps [of b n] readUint_def digitOf_digitTable)
  next
    case False
    with 1 have "readUint b (formatUint b (n div b)) = n div b" by simp
    moreover have "n mod b < b" using 1 by simp
    then have "n mod b < 36" using 1 by linarith
    ultimately show ?thesis
      using False 1 by (simp add: formatUint.simps [of b n] readUint_def digitOf_digitTable)
  qed
qed

lemma formatUint_inj: "2 \<le> b \<Longrightarrow> b \<le> 36 \<Longrightarrow> formatUint b m = formatUint b n \<Longrightarrow> m = n"
  by (metis readUint_formatUint)

section \<open>encoding/binary and hash/fnv\<close>

text \<open>The last \<open>k\<close> base-256 digits of a number, most significant first.\<close>

fun bigEndian :: "nat \<Rightarrow> nat \<Rightarrow> string" where
  "bigEndian 0 n = []"
| "bigEndian (Suc k) n = bigEndian k (n div 256) @ [char_of n]"

definition fromBigEndian :: "string \<Rightarrow> nat" where
  "fromBigEndian s = foldl (\<lambda>a c. a * 256 + of_char c) 0 s"

lemma bigEndian_length [simp]: "length (bigEndian k n) = k"
  by (induction k arbitrary: n) auto

lemma fromBigEndian_bigEndian: "fromBigEndian (bigEndian k n) = n mod 256 ^ k"
proof (induction k arbitrary: n)
  case 0
  then show ?case by (simp add: fromBigEndian_def)
next
  case (Suc k)
  have "n mod (256 * 256 ^ k) = 256 * (n div 256 mod 256 ^ k) + n mod 256"
    by (rule mod_mult2_eq)
  with Suc show ?case by (simp add: fromBigEndian_def mult.commute)
qed

definition appendUint64 :: "string \<Rightarrow> 64 word \<Rightarrow> string" where
  "appendUint64 b v = b @ bigEndian 8 (unat v)"

text \<open>FNV-1a: exclusive or with the byte, then multiplication by the prime.\<close>

definition fnvPrime :: "64 word" where
  "fnvPrime = 1099511628211"

definition fnvOffset :: "64 word" where
  "fnvOffset = 14695981039346656037"

definition fnvStep :: "64 word \<Rightarrow> char \<Rightarrow> 64 word" where
  "fnvStep h c = (h XOR of_char c) * fnvPrime"

definition fnvWrite :: "64 word \<Rightarrow> string \<Rightarrow> 64 word" where
  "fnvWrite h s = foldl fnvStep h s"

text \<open>The magic prefix of the wire format is "fnv" and the byte 4.\<close>

definition fnvMagic :: string where
  "fnvMagic = ''fnv'' @ bytes [4]"

definition unmarshalFnv64a :: "string \<Rightarrow> err + 64 word" where
  "unmarshalFnv64a b =
    (if \<not> hasPrefix b fnvMagic then Inl ''hash/fnv: invalid hash state identifier''
     else if length b \<noteq> length fnvMagic + 8 then Inl ''hash/fnv: invalid hash state size''
     else Inr (word_of_nat (fromBigEndian (drop 4 b))))"

lemma fnvMagic_length [simp]: "length fnvMagic = 4"
  by (simp add: fnvMagic_def bytes_def)

text \<open>Setting the state from the wire format of a word gives that word.\<close>

lemma unmarshal_append: "unmarshalFnv64a (appendUint64 fnvMagic v) = Inr v"
proof -
  have "unat v < 256 ^ 8" using unsigned_less [of v] by simp
  then show ?thesis
    by (simp add: unmarshalFnv64a_def appendUint64_def hasPrefix_def fromBigEndian_bigEndian)
qed

text \<open>The prime is odd, so it has an inverse modulo 2 to the 64 and a step loses nothing.\<close>

definition fnvInverse :: "64 word" where
  "fnvInverse = 14886173955864302971"

lemma fnvPrime_inverse: "fnvPrime * fnvInverse = 1"
  by (simp add: fnvPrime_def fnvInverse_def)

lemma fnvPrime_cancel: "a * fnvPrime = b * fnvPrime \<Longrightarrow> a = b"
proof -
  assume "a * fnvPrime = b * fnvPrime"
  then have "a * fnvPrime * fnvInverse = b * fnvPrime * fnvInverse" by (rule arg_cong)
  then show "a = b" by (simp only: mult.assoc fnvPrime_inverse mult.right_neutral)
qed

lemma xor_cancel_right: "a XOR c = b XOR c \<Longrightarrow> a = (b :: 64 word)"
proof -
  assume eq: "a XOR c = b XOR c"
  have undo: "(x XOR c) XOR c = x" for x :: "64 word"
    by (rule bit_eqI) (auto simp: bit_xor_iff)
  show "a = b" using arg_cong [OF eq, where f = "\<lambda>x. x XOR c"] unfolding undo .
qed

lemma fnvStep_inj_state: "fnvStep h c = fnvStep h' c \<Longrightarrow> h = h'"
  unfolding fnvStep_def by (drule fnvPrime_cancel) (rule xor_cancel_right)

lemma of_char_word_inj: "(of_char c :: 64 word) = of_char d \<Longrightarrow> c = d"
proof -
  assume eq: "(of_char c :: 64 word) = of_char d"
  have u: "unat (of_char x :: 64 word) = of_char x" for x
  proof -
    have "(of_char x :: nat) < 256" by (rule nat_of_char_less_256)
    then have "(of_char x :: nat) < 2 ^ LENGTH(64)"
      by (rule less_le_trans) simp
    moreover have "unat (word_of_nat (of_char x) :: 64 word) = take_bit LENGTH(64) (of_char x :: nat)"
      by (simp only: unsigned_of_nat of_nat_id)
    ultimately have "unat (word_of_nat (of_char x) :: 64 word) = of_char x"
      by (simp only: take_bit_nat_eq_self)
    then show ?thesis by (simp only: of_nat_of_char)
  qed
  from arg_cong [OF eq, where f = unat] have "(of_char c :: nat) = of_char d" by (simp add: u)
  then show ?thesis by simp
qed

lemma fnvStep_inj_byte: "fnvStep h c = fnvStep h d \<Longrightarrow> c = d"
  unfolding fnvStep_def
  by (drule fnvPrime_cancel, rule of_char_word_inj, rule xor_cancel_right [of _ h])
    (simp add: xor.commute)

lemma fnvWrite_inj_state: "fnvWrite h s = fnvWrite h' s \<Longrightarrow> h = h'"
  by (induction s arbitrary: h h' rule: rev_induct) (auto simp: fnvWrite_def dest: fnvStep_inj_state)

lemma fnvWrite_inj_last: "fnvWrite h (s @ [c]) = fnvWrite h (s @ [d]) \<Longrightarrow> c = d"
  by (auto simp: fnvWrite_def dest: fnvStep_inj_byte)

end
