(* ===== verification/Config.thy ===== *)
theory Config
  imports Registry GoStrings
begin

text \<open>
  \<open>internal/config/config.go\<close>: the SDK injection settings, their defaults, the per-ConfigMap
  override, the server version check and the hash that identifies a pod's configuration.

  The languages an SDK exists for are an enumeration of another repository; parsing their
  names (\<open>ParseInstrumentableType\<close>) and hashing a rule's configuration (\<open>RuleConfig.Hash\<close>)
  are parameters. \<open>EnabledSDKs\<close> is an option because the code tells a nil slice from an
  empty one: only the nil slice gets the default languages.
\<close>

section \<open>Settings\<close>

datatype instrumentableType = Dotnet | Java | Nodejs | Python | OtherLang string

record sdkResource =
  AddK8sUIDAttributes :: bool
  AddK8sIPAttribute :: bool
  UseLabelsForResourceAttributes :: bool

record sdkInject =
  sd_NoAutoRestart :: bool
  sd_ImageVersion :: string
  sd_ImageVolumeRoot :: string
  sd_Resources :: sdkResource
  sd_EnabledSDKs :: "instrumentableType list option"
  sd_InjectionMode :: string
  sd_Debug :: bool

definition InjectionModeImage :: string where
  "InjectionModeImage = ''image''"

definition InjectionModeInitContainer :: string where
  "InjectionModeInitContainer = ''init_container''"

definition InjectionModeAuto :: string where
  "InjectionModeAuto = ''auto''"

definition DefaultImageVolumeRoot :: string where
  "DefaultImageVolumeRoot = ''ghcr.io/grafana/beyla/inject-sdk-image''"

definition EphemeralVolumeSize :: string where
  "EphemeralVolumeSize = ''500Mi''"

text \<open>The loop over the default languages appends to the nil slice; unknown names are skipped.\<close>

definition defaultSDKs :: "(string \<Rightarrow> instrumentableType option) \<Rightarrow> instrumentableType list option" where
  "defaultSDKs parseLang =
    (let found = List.map_filter parseLang [''java'', ''dotnet'', ''nodejs'', ''python'']
     in if found = [] then None else Some found)"

definition SetDefaults :: "(string \<Rightarrow> instrumentableType option) \<Rightarrow> sdkInject \<Rightarrow> sdkInject" where
  "SetDefaults parseLang s =
    (let s = (if sd_ImageVolumeRoot s = '''' then s\<lparr>sd_ImageVolumeRoot := DefaultImageVolumeRoot\<rparr> else s);
         s = (if sd_InjectionMode s = '''' then s\<lparr>sd_InjectionMode := InjectionModeAuto\<rparr> else s)
     in if sd_EnabledSDKs s = None then s\<lparr>sd_EnabledSDKs := defaultSDKs parseLang\<rparr> else s)"

definition ImageVolumePath :: "sdkInject \<Rightarrow> string" where
  "ImageVolumePath s = sd_ImageVolumeRoot s @ '':'' @ sd_ImageVersion s"

definition WithConfigMapOverrides :: "sdkInject \<Rightarrow> 'sel injectConfig \<Rightarrow> sdkInject" where
  "WithConfigMapOverrides s cfg =
    (if ic_ImageVersion cfg \<noteq> '''' then s\<lparr>sd_ImageVersion := ic_ImageVersion cfg\<rparr> else s)"

section \<open>The server version\<close>

record versionInfo =
  vi_Major :: string
  vi_Minor :: string
  vi_GitVersion :: string

datatype versionError = CannotParse string string string

definition parseVersionComponent :: "string \<Rightarrow> int \<times> num_error option" where
  "parseVersionComponent s = atoi (trimRightByte (CHR ''+'') s)"

text \<open>\<open>versionRegex\<close>: an optional v, digits, a dot, digits; the two submatches.\<close>

definition versionRegex :: "string \<Rightarrow> (string \<times> string) option" where
  "versionRegex s =
    (let s1 = (case s of [] \<Rightarrow> [] | c # cs \<Rightarrow> if c = CHR ''v'' then cs else s);
         major = takeWhile isDigit s1
     in if major = [] then None
        else (case dropWhile isDigit s1 of
                [] \<Rightarrow> None
              | c # r \<Rightarrow> (if c = CHR ''.'' \<and> takeWhile isDigit r \<noteq> []
                  then Some (major, takeWhile isDigit r) else None)))"

definition ParseServerVersion :: "versionInfo \<Rightarrow> versionError + int \<times> int" where
  "ParseServerVersion info =
    (let (major, errMajor) = parseVersionComponent (vi_Major info);
         (minor, errMinor) = parseVersionComponent (vi_Minor info)
     in if errMajor = None \<and> errMinor = None then Inr (major, minor)
        else (case versionRegex (vi_GitVersion info) of
                Some (m1, m2) \<Rightarrow> Inr (fst (atoi m1), fst (atoi m2))
              | None \<Rightarrow> Inl (CannotParse (vi_Major info) (vi_Minor info) (vi_GitVersion info))))"

definition SupportsImageVolume :: "int \<Rightarrow> int \<Rightarrow> bool" where
  "SupportsImageVolume major minor = (major > 1 \<or> (major = 1 \<and> minor \<ge> 35))"

section \<open>The configuration hash\<close>

text \<open>
  The rule's hash seeds the FNV-1a state through its wire format, then the image reference
  is written. A state that could not be restored would panic: that is \<open>None\<close>.
\<close>

definition PodConfigHash :: "(ruleConfig \<Rightarrow> 64 word) \<Rightarrow> sdkInject \<Rightarrow> ruleConfig \<Rightarrow> string option" where
  "PodConfigHash ruleHash cfg rc =
    (let ruleConfigHash = ruleHash rc;
         seed = appendUint64 fnvMagic ruleConfigHash
     in case unmarshalFnv64a seed of
          Inl e \<Rightarrow> None
        | Inr accum \<Rightarrow> Some (formatUint 32 (unat (fnvWrite accum (ImageVolumePath cfg)))))"

lemma PodConfigHash_eq:
  "PodConfigHash ruleHash cfg rc = Some (formatUint 32 (unat (fnvWrite (ruleHash rc) (ImageVolumePath cfg))))"
  by (simp add: PodConfigHash_def unmarshal_append)

text \<open>The hash as a value: it is always there, see \<open>PodConfigHash_eq\<close>.\<close>

definition wantedHash :: "(ruleConfig \<Rightarrow> 64 word) \<Rightarrow> sdkInject \<Rightarrow> ruleConfig \<Rightarrow> string" where
  "wantedHash ruleHash cfg rc = the (PodConfigHash ruleHash cfg rc)"

lemma wantedHash_nonempty [simp]: "wantedHash ruleHash cfg rc \<noteq> ''''"
  by (simp add: wantedHash_def PodConfigHash_eq formatUint_nonempty)

lemma wantedHash_eq_iff:
  "wantedHash rh cfg rc = wantedHash rh cfg' rc'
    \<longleftrightarrow> fnvWrite (rh rc) (ImageVolumePath cfg) = fnvWrite (rh rc') (ImageVolumePath cfg')"
proof -
  have "formatUint 32 a = formatUint 32 b \<longleftrightarrow> a = b" for a b
    using formatUint_inj [of 32 a b] by auto
  then show ?thesis by (simp add: wantedHash_def PodConfigHash_eq word_unat_eq_iff)
qed

section \<open>Reading decimal numbers\<close>

lemma isDigit_table: "d < 10 \<Longrightarrow> isDigit (digitTable ! d) \<and> digitVal (digitTable ! d) = d"
proof -
  assume "d < 10"
  then have "d \<in> {0, 1, 2, 3, 4, 5, 6, 7, 8, 9}" by auto
  then show ?thesis by (auto simp: digitTable_def isDigit_def digitVal_def)
qed

definition decValue :: "nat \<Rightarrow> string \<Rightarrow> nat" where
  "decValue a s = foldl (\<lambda>a c. a * 10 + digitVal c) a s"

lemma decValue_ge: "a \<le> decValue a s"
proof (induction s arbitrary: a)
  case Nil
  then show ?case by (simp add: decValue_def)
next
  case (Cons c s)
  have "a \<le> a * 10 + digitVal c" by simp
  also have "\<dots> \<le> decValue (a * 10 + digitVal c) s" by (rule Cons.IH)
  finally show ?case by (simp add: decValue_def)
qed

lemma parseUintLoop_value:
  "list_all isDigit s \<Longrightarrow> decValue a s < 2 ^ 64 \<Longrightarrow> parseUintLoop a s = (decValue a s, None)"
proof (induction s arbitrary: a)
  case Nil
  then show ?case by (simp add: decValue_def)
next
  case (Cons c s)
  let ?n = "a * 10 + digitVal c"
  have d: "decValue a (c # s) = decValue ?n s" by (simp add: decValue_def)
  have "?n \<le> decValue ?n s" by (rule decValue_ge)
  then have n: "?n < 2 ^ 64" using Cons.prems(2) d by simp
  then have "\<not> (2 ^ 64 - 1) div 10 + 1 \<le> a" by simp
  with n Cons d show ?case by simp
qed

lemma formatUint_dec:
  "list_all isDigit (formatUint 10 n) \<and> decValue 0 (formatUint 10 n) = n"
proof (induction "10 :: nat" n rule: formatUint.induct)
  case (1 n)
  show ?case
  proof (cases "n < 10")
    case True
    then show ?thesis by (simp add: formatUint.simps [of 10 n] decValue_def isDigit_table)
  next
    case False
    with 1 have "list_all isDigit (formatUint 10 (n div 10)) \<and> decValue 0 (formatUint 10 (n div 10)) = n div 10"
      by simp
    with False show ?thesis
      by (simp add: formatUint.simps [of 10 n] decValue_def isDigit_table)
  qed
qed

lemma isDigit_not_sign: "isDigit c \<Longrightarrow> c \<noteq> CHR ''+'' \<and> c \<noteq> CHR ''-'' \<and> c \<noteq> CHR ''.'' \<and> c \<noteq> CHR ''v''"
  by (auto simp: isDigit_def)

lemma atoi_formatUint: "n < 2 ^ 63 \<Longrightarrow> atoi (formatUint 10 n) = (int n, None)"
proof -
  assume n: "n < 2 ^ 63"
  obtain c cs where s: "formatUint 10 n = c # cs"
    using formatUint_nonempty [of 10 n] by (cases "formatUint 10 n") auto
  have "c \<noteq> CHR ''+''" "c \<noteq> CHR ''-''"
    using formatUint_dec [of n] s isDigit_not_sign [of c] by auto
  moreover have "parseUint (formatUint 10 n) = (n, None)"
    using formatUint_dec [of n] n parseUintLoop_value [of "formatUint 10 n" 0]
    by (simp add: parseUint_def formatUint_nonempty)
  ultimately show ?thesis using n s by (simp add: atoi_def)
qed

lemma trimRight_digits:
  assumes "list_all isDigit s"
  shows "trimRightByte (CHR ''+'') (s @ replicate k (CHR ''+'')) = s"
proof -
  have "dropWhile (\<lambda>x. x = CHR ''+'') (replicate k (CHR ''+'') @ rev s) = rev s"
  proof (induction k)
    case 0
    show ?case
    proof (cases "rev s")
      case (Cons c cs)
      then have "c \<in> set s" by (metis in_set_conv_decomp_first list.set_intros(1) set_rev)
      then have "c \<noteq> CHR ''+''" using assms isDigit_not_sign by (auto simp: list_all_iff)
      with Cons show ?thesis by simp
    qed simp
  qed simp
  then show ?thesis by (simp add: trimRightByte_def)
qed

lemma parseVersionComponent_dec:
  "n < 2 ^ 63 \<Longrightarrow> parseVersionComponent (formatUint 10 n @ replicate k (CHR ''+'')) = (int n, None)"
  by (simp add: parseVersionComponent_def trimRight_digits formatUint_dec atoi_formatUint)

lemma takeWhile_digits:
  assumes "list_all isDigit s" "rest = [] \<or> \<not> isDigit (hd rest)"
  shows "takeWhile isDigit (s @ rest) = s \<and> dropWhile isDigit (s @ rest) = rest"
  using assms by (induction s; cases rest) auto

lemma versionRegex_dec:
  assumes "rest = [] \<or> \<not> isDigit (hd rest)" "pre = '''' \<or> pre = ''v''"
  shows "versionRegex (pre @ formatUint 10 m @ ''.'' @ formatUint 10 n @ rest)
    = Some (formatUint 10 m, formatUint 10 n)"
proof -
  obtain c cs where c: "formatUint 10 m = c # cs"
    using formatUint_nonempty [of 10 m] by (cases "formatUint 10 m") auto
  then have "c \<noteq> CHR ''v''" using formatUint_dec [of m] isDigit_not_sign [of c] by auto
  then have strip: "(case pre @ formatUint 10 m @ ''.'' @ formatUint 10 n @ rest of [] \<Rightarrow> []
      | x # xs \<Rightarrow> if x = CHR ''v'' then xs else pre @ formatUint 10 m @ ''.'' @ formatUint 10 n @ rest)
    = formatUint 10 m @ ''.'' @ formatUint 10 n @ rest"
    using assms(2) c by auto
  have dot: "\<not> isDigit (CHR ''.'')" by (simp add: isDigit_def)
  have "takeWhile isDigit (formatUint 10 m @ ''.'' @ formatUint 10 n @ rest) = formatUint 10 m"
    "dropWhile isDigit (formatUint 10 m @ ''.'' @ formatUint 10 n @ rest) = ''.'' @ formatUint 10 n @ rest"
    using takeWhile_digits [of "formatUint 10 m" "''.'' @ formatUint 10 n @ rest"] formatUint_dec [of m] dot
    by simp_all
  moreover have "takeWhile isDigit (formatUint 10 n @ rest) = formatUint 10 n"
    using takeWhile_digits [of "formatUint 10 n" rest] formatUint_dec [of n] assms(1) by simp
  ultimately show ?thesis
    unfolding versionRegex_def Let_def strip by (simp add: formatUint_nonempty)
qed

section \<open>Versions are ordered\<close>

datatype serverVersion = Version (verMajor: int) (verMinor: int)

instantiation serverVersion :: linorder
begin

definition less_eq_serverVersion :: "serverVersion \<Rightarrow> serverVersion \<Rightarrow> bool" where
  "less_eq_serverVersion v w =
    (verMajor v < verMajor w \<or> (verMajor v = verMajor w \<and> verMinor v \<le> verMinor w))"

definition less_serverVersion :: "serverVersion \<Rightarrow> serverVersion \<Rightarrow> bool" where
  "less_serverVersion v w = (v \<le> w \<and> \<not> w \<le> v)"

instance
proof
  fix u v w :: serverVersion
  show "(v < w) = (v \<le> w \<and> \<not> w \<le> v)" by (simp add: less_serverVersion_def)
  show "v \<le> v" by (simp add: less_eq_serverVersion_def)
  show "u \<le> v \<Longrightarrow> v \<le> w \<Longrightarrow> u \<le> w" by (auto simp: less_eq_serverVersion_def)
  show "v \<le> w \<Longrightarrow> w \<le> v \<Longrightarrow> v = w"
    by (cases v; cases w) (auto simp: less_eq_serverVersion_def)
  show "v \<le> w \<or> w \<le> v" by (auto simp: less_eq_serverVersion_def)
qed

end

section \<open>Properties\<close>

text \<open>
  The hash separates configurations: hashing always succeeds with a non-empty string;
  for one image reference two rules get the same hash exactly when the rules' own hashes
  agree; and for one rule, image references that differ in the last byte get different
  hashes. The 64-bit accumulator wraps around but loses no information.
\<close>

theorem PodConfigHash_separates:
  "(\<exists>h. PodConfigHash rh cfg rc = Some h \<and> h \<noteq> '''')
   \<and> (ImageVolumePath cfg = ImageVolumePath cfg' \<longrightarrow>
       (PodConfigHash rh cfg rc = PodConfigHash rh cfg' rc' \<longleftrightarrow> rh rc = rh rc'))
   \<and> (ImageVolumePath cfg = img @ [c] \<and> ImageVolumePath cfg' = img @ [d] \<longrightarrow>
       (PodConfigHash rh cfg rc = PodConfigHash rh cfg' rc \<longleftrightarrow> c = d))"
proof -
  have iff: "PodConfigHash rh cfg x = PodConfigHash rh cfg' y
      \<longleftrightarrow> fnvWrite (rh x) (ImageVolumePath cfg) = fnvWrite (rh y) (ImageVolumePath cfg')" for x y
    using wantedHash_eq_iff [of rh cfg x cfg' y] by (simp add: wantedHash_def PodConfigHash_eq)
  show ?thesis
    unfolding iff
    by (auto simp: PodConfigHash_eq formatUint_nonempty dest: fnvWrite_inj_state fnvWrite_inj_last)
qed

definition sampleSDK :: "string \<Rightarrow> sdkInject" where
  "sampleSDK version = \<lparr>sd_NoAutoRestart = False, sd_ImageVersion = version,
     sd_ImageVolumeRoot = ''img'', sd_Resources = \<lparr>AddK8sUIDAttributes = False,
       AddK8sIPAttribute = False, UseLabelsForResourceAttributes = False\<rparr>,
     sd_EnabledSDKs = Some [Java], sd_InjectionMode = InjectionModeImage, sd_Debug = False\<rparr>"

definition modeHash :: "ruleConfig \<Rightarrow> 64 word" where
  "modeHash rc = (if rc_Mode rc = ModeSkip then 1 else 2)"

theorem PodConfigHash_separates_witness:
  "PodConfigHash modeHash (sampleSDK ''1'') \<lparr>rc_Mode = ModeSkip, rc_Env = []\<rparr>
     \<noteq> PodConfigHash modeHash (sampleSDK ''1'') \<lparr>rc_Mode = '''', rc_Env = []\<rparr>
   \<and> PodConfigHash modeHash (sampleSDK ''1'') \<lparr>rc_Mode = ModeSkip, rc_Env = []\<rparr>
     \<noteq> PodConfigHash modeHash (sampleSDK ''2'') \<lparr>rc_Mode = ModeSkip, rc_Env = []\<rparr>"
proof -
  have p: "ImageVolumePath (sampleSDK ''1'') = ''img:'' @ [CHR ''1'']"
    "ImageVolumePath (sampleSDK ''2'') = ''img:'' @ [CHR ''2'']"
    by (simp_all add: ImageVolumePath_def sampleSDK_def)
  have "modeHash \<lparr>rc_Mode = ModeSkip, rc_Env = []\<rparr> \<noteq> modeHash \<lparr>rc_Mode = '''', rc_Env = []\<rparr>"
    by (simp add: modeHash_def ModeSkip_def)
  with PodConfigHash_separates [of modeHash "sampleSDK ''1''" _ "sampleSDK ''1''"]
    PodConfigHash_separates [of modeHash "sampleSDK ''1''" "\<lparr>rc_Mode = ModeSkip, rc_Env = []\<rparr>"
      "sampleSDK ''2''" _ "''img:''" "CHR ''1''" "CHR ''2''"] p
  show ?thesis by simp
qed

text \<open>
  C39. The server version round-trips: decimal Major and Minor with any number of trailing
  plus signs (as GKE reports) are read back exactly, whatever the git version says; and when
  they cannot be read, a git version of the form v1.30.5-suffix gives its first two numbers.
\<close>

theorem ParseServerVersion_roundtrip:
  assumes "m < 2 ^ 63" "n < 2 ^ 63"
  shows "ParseServerVersion \<lparr>vi_Major = formatUint 10 m @ replicate i (CHR ''+''),
        vi_Minor = formatUint 10 n @ replicate j (CHR ''+''), vi_GitVersion = g\<rparr> = Inr (int m, int n)
   \<and> ((rest = [] \<or> \<not> isDigit (hd rest)) \<and> (pre = '''' \<or> pre = ''v'')
       \<and> (snd (parseVersionComponent major) \<noteq> None \<or> snd (parseVersionComponent minor) \<noteq> None) \<longrightarrow>
      ParseServerVersion \<lparr>vi_Major = major, vi_Minor = minor,
        vi_GitVersion = pre @ formatUint 10 m @ ''.'' @ formatUint 10 n @ rest\<rparr> = Inr (int m, int n))"
  using assms
  by (auto simp: ParseServerVersion_def parseVersionComponent_dec versionRegex_dec [simplified]
      atoi_formatUint split: prod.split)

theorem ParseServerVersion_roundtrip_witness:
  "ParseServerVersion \<lparr>vi_Major = formatUint 10 1, vi_Minor = formatUint 10 31 @ ''+'', vi_GitVersion = ''''\<rparr> = Inr (1, 31)
   \<and> ParseServerVersion \<lparr>vi_Major = '''', vi_Minor = '''',
        vi_GitVersion = ''v'' @ formatUint 10 1 @ ''.'' @ formatUint 10 31 @ ''.5-gke.1234''\<rparr> = Inr (1, 31)"
proof -
  have b: "(1 :: nat) < 2 ^ 63" "(31 :: nat) < 2 ^ 63" by simp_all
  have e: "snd (parseVersionComponent '''') \<noteq> None"
    by (simp add: parseVersionComponent_def trimRightByte_def atoi_def parseUint_def)
  have d: "\<not> isDigit (CHR ''.'')" by (simp add: isDigit_def)
  show ?thesis
    using ParseServerVersion_roundtrip [OF b, of 0 1 "''''" "''.5-gke.1234''" "''v''" "''''" "''''"] e d by simp
qed

text \<open>
  \<open>SupportsImageVolume\<close> is the comparison with version 1.35 in the order of versions, so
  it is monotone: no upgrade of the cluster takes the image volume away.
\<close>

theorem SupportsImageVolume_threshold:
  "SupportsImageVolume major minor \<longleftrightarrow> Version 1 35 \<le> Version major minor"
  by (auto simp: SupportsImageVolume_def less_eq_serverVersion_def)

text \<open>
  Defaults and overrides: filling in defaults twice is the same as once and never touches
  a setting that was given; a ConfigMap's override replaces the image version exactly when
  it has one, and changes nothing else.
\<close>

theorem defaults_and_overrides:
  "SetDefaults pl (SetDefaults pl s) = SetDefaults pl s
   \<and> sd_ImageVersion (SetDefaults pl s) = sd_ImageVersion s
   \<and> (sd_ImageVolumeRoot s \<noteq> '''' \<and> sd_InjectionMode s \<noteq> '''' \<and> sd_EnabledSDKs s \<noteq> None \<longrightarrow> SetDefaults pl s = s)
   \<and> sd_InjectionMode (SetDefaults pl s) \<noteq> '''' \<and> sd_ImageVolumeRoot (SetDefaults pl s) \<noteq> ''''
   \<and> WithConfigMapOverrides s cfg = s\<lparr>sd_ImageVersion :=
        (if ic_ImageVersion cfg = '''' then sd_ImageVersion s else ic_ImageVersion cfg)\<rparr>"
proof -
  have ne: "InjectionModeAuto \<noteq> ''''" "DefaultImageVolumeRoot \<noteq> ''''"
    by (simp_all add: InjectionModeAuto_def DefaultImageVolumeRoot_def)
  show ?thesis
    using ne by (auto simp: SetDefaults_def WithConfigMapOverrides_def Let_def)
qed

theorem defaults_and_overrides_witness:
  "SetDefaults (\<lambda>_. None) (sampleSDK ''1'') = sampleSDK ''1''"
  by (rule defaults_and_overrides [THEN conjunct2, THEN conjunct2, THEN conjunct1, rule_format])
    (simp add: sampleSDK_def InjectionModeImage_def)

end
