(* ===== verification/Mutator.thy ===== *)
theory Mutator
  imports Config
begin

text \<open>
  \<open>internal/webhook/v1/mutator.go\<close>: what the webhook writes into a pod. Volumes, the copy
  init container, mounts and environment variables are all updated by name; the resource
  attributes of a container are collected in a map and written into one variable.

  Outside code enters as parameters: the attribute keys of the OpenTelemetry semantic
  conventions and of Beyla (record \<open>semconv\<close>), and the parser of image references of
  \<open>distribution/reference\<close> (\<open>parseRef\<close>). The log lines are left out.
\<close>

section \<open>Names and constants\<close>

record semconv =
  ServiceNameKey :: string
  ServiceNamespaceKey :: string
  ServiceVersionKey :: string
  ServiceInstanceIDKey :: string
  K8SNodeNameKey :: string
  K8SPodIPKey :: string
  K8SDeploymentNameKey :: string
  K8SReplicaSetNameKey :: string
  K8SStatefulSetNameKey :: string
  K8SDaemonSetNameKey :: string
  K8SCronJobNameKey :: string
  K8SJobNameKey :: string
  SkipSpanMetrics :: string

text \<open>A parsed image reference: whether it is a named one, its tag and its digest.\<close>

record imageRef =
  ref_Named :: bool
  ref_Tag :: "string option"
  ref_Digest :: "string option"

record mutatorDeps =
  md_semconv :: semconv
  md_parseRef :: "string \<Rightarrow> err + imageRef"

definition supportedSDKLangs :: "instrumentableType list" where
  "supportedSDKLangs = [Dotnet, Java, Nodejs, Python]"

definition ResourceAttributeAnnotationPrefix :: string where
  "ResourceAttributeAnnotationPrefix = ''resource.opentelemetry.io/''"

definition LabelAppName :: "string list" where
  "LabelAppName = [''app.kubernetes.io/instance'', ''app.kubernetes.io/name'']"

definition LabelAppVersion :: "string list" where
  "LabelAppVersion = [''app.kubernetes.io/version'']"

definition injectVolumeName :: string where
  "injectVolumeName = ''otel-inject-instrumentation''"

definition injectInitContainerName :: string where
  "injectInitContainerName = ''otel-sdk-inject''"

definition internalMountPath :: string where
  "internalMountPath = ''/__otel_sdk_auto_instrumentation__''"

definition envVarLdPreloadName :: string where
  "envVarLdPreloadName = ''LD_PRELOAD''"

definition envVarLdPreloadValue :: string where
  "envVarLdPreloadValue = internalMountPath @ ''/dist/injector/libotelinject.so''"

definition envOtelInjectorConfigFileName :: string where
  "envOtelInjectorConfigFileName = ''OTEL_INJECTOR_CONFIG_FILE''"

definition envOtelInjectorConfigFileValue :: string where
  "envOtelInjectorConfigFileValue = internalMountPath @ ''/dist/injector/otelinject.conf''"

definition envOtelSemConvStabilityName :: string where
  "envOtelSemConvStabilityName = ''OTEL_SEMCONV_STABILITY_OPT_IN''"

definition envInjectorOtelExtraResourceAttrs :: string where
  "envInjectorOtelExtraResourceAttrs = ''OTEL_INJECTOR_RESOURCE_ATTRIBUTES''"

definition envInjectorOtelServiceName :: string where
  "envInjectorOtelServiceName = ''OTEL_INJECTOR_SERVICE_NAME''"

definition envInjectorOtelServiceVersion :: string where
  "envInjectorOtelServiceVersion = ''OTEL_INJECTOR_SERVICE_VERSION''"

definition envInjectorOtelServiceNamespace :: string where
  "envInjectorOtelServiceNamespace = ''OTEL_INJECTOR_SERVICE_NAMESPACE''"

definition envInjectorOtelK8sNamespaceName :: string where
  "envInjectorOtelK8sNamespaceName = ''OTEL_INJECTOR_K8S_NAMESPACE_NAME''"

definition envInjectorOtelK8sPodName :: string where
  "envInjectorOtelK8sPodName = ''OTEL_INJECTOR_K8S_POD_NAME''"

definition envInjectorOtelK8sPodUID :: string where
  "envInjectorOtelK8sPodUID = ''OTEL_INJECTOR_K8S_POD_UID''"

definition envInjectorOtelK8sContainerName :: string where
  "envInjectorOtelK8sContainerName = ''OTEL_INJECTOR_K8S_CONTAINER_NAME''"

definition envInjectorDebugName :: string where
  "envInjectorDebugName = ''OTEL_INJECTOR_LOG_LEVEL''"

definition envOtelK8sNodeName :: string where
  "envOtelK8sNodeName = ''OTEL_RESOURCE_ATTRIBUTES_NODE_NAME''"

definition envOtelK8sPodIP :: string where
  "envOtelK8sPodIP = ''OTEL_RESOURCE_ATTRIBUTES_POD_IP''"

definition envDotnetEnabledName :: string where
  "envDotnetEnabledName = ''DOTNET_AUTO_INSTRUMENTATION_AGENT_PATH_PREFIX''"

definition envJavaEnabledName :: string where
  "envJavaEnabledName = ''JVM_AUTO_INSTRUMENTATION_AGENT_PATH''"

definition envNodejsEnabledName :: string where
  "envNodejsEnabledName = ''NODEJS_AUTO_INSTRUMENTATION_AGENT_PATH''"

definition envPythonEnabledName :: string where
  "envPythonEnabledName = ''PYTHON_AUTO_INSTRUMENTATION_AGENT_PATH_PREFIX''"

definition InjectedAnnotation :: string where
  "InjectedAnnotation = ''beyla.grafana.com/inject''"

lemmas env_name_defs = envVarLdPreloadName_def envOtelInjectorConfigFileName_def
  envOtelSemConvStabilityName_def envInjectorOtelExtraResourceAttrs_def envInjectorOtelServiceName_def
  envInjectorOtelServiceVersion_def envInjectorOtelServiceNamespace_def
  envInjectorOtelK8sNamespaceName_def envInjectorOtelK8sPodName_def envInjectorOtelK8sPodUID_def
  envInjectorOtelK8sContainerName_def envInjectorDebugName_def envOtelK8sNodeName_def
  envOtelK8sPodIP_def envDotnetEnabledName_def envJavaEnabledName_def envNodejsEnabledName_def
  envPythonEnabledName_def

section \<open>Environment variables of a container\<close>

definition findEnvVar :: "container \<Rightarrow> string \<Rightarrow> nat option" where
  "findEnvVar c name = indexFunc (\<lambda>v. ev_Name v = name) (ct_Env c)"

definition setEnvVarEvenIfEmpty :: "container \<Rightarrow> string \<Rightarrow> string \<Rightarrow> container" where
  "setEnvVarEvenIfEmpty c envVarName value =
    (case findEnvVar c envVarName of
       None \<Rightarrow> c\<lparr>ct_Env := ct_Env c @ [\<lparr>ev_Name = envVarName, ev_Value = value, ev_ValueFrom = None\<rparr>]\<rparr>
     | Some pos \<Rightarrow> c\<lparr>ct_Env := (ct_Env c)[pos := (ct_Env c ! pos)\<lparr>ev_ValueFrom := None, ev_Value := value\<rparr>]\<rparr>)"

definition setEnvVar :: "container \<Rightarrow> string \<Rightarrow> string \<Rightarrow> container" where
  "setEnvVar c envVarName value =
    (if value \<noteq> '''' then setEnvVarEvenIfEmpty c envVarName value else c)"

fun applyEnvVars :: "container \<Rightarrow> envVar list \<Rightarrow> container" where
  "applyEnvVars c [] = c"
| "applyEnvVars c (v # vars) =
    applyEnvVars (case findEnvVar c (ev_Name v) of
       Some pos \<Rightarrow> c\<lparr>ct_Env := (ct_Env c)[pos := v]\<rparr>
     | None \<Rightarrow> c\<lparr>ct_Env := ct_Env c @ [v]\<rparr>) vars"

text \<open>\<open>slices.Delete\<close> of one element and \<open>slices.Insert\<close> of one element at a position.\<close>

definition deleteAt :: "nat \<Rightarrow> 'a list \<Rightarrow> 'a list" where
  "deleteAt i xs = take i xs @ drop (Suc i) xs"

definition insertAt :: "nat \<Rightarrow> 'a \<Rightarrow> 'a list \<Rightarrow> 'a list" where
  "insertAt i x xs = take i xs @ x # drop i xs"

definition setEnvVarFromFieldPath :: "container \<Rightarrow> string \<Rightarrow> string \<Rightarrow> container \<times> string" where
  "setEnvVarFromFieldPath c envVarName fieldPath =
    (let pos = length (ct_Env c);
         (pos, c) = (case findEnvVar c envVarName of
            Some existing \<Rightarrow> (existing, c\<lparr>ct_Env := deleteAt existing (ct_Env c)\<rparr>)
          | None \<Rightarrow> (pos, c));
         pos = (case findEnvVar c envInjectorOtelExtraResourceAttrs of
            Some attrs \<Rightarrow> min pos attrs | None \<Rightarrow> pos);
         c = c\<lparr>ct_Env := insertAt pos \<lparr>ev_Name = envVarName, ev_Value = '''',
               ev_ValueFrom = Some (FieldRef fieldPath)\<rparr> (ct_Env c)\<rparr>
     in (c, ''$('' @ envVarName @ '')''))"

definition isLDPreloadConflict :: "container \<Rightarrow> bool" where
  "isLDPreloadConflict c =
    (case findEnvVar c envVarLdPreloadName of
       None \<Rightarrow> False
     | Some pos \<Rightarrow> (let val = ev_Value (ct_Env c ! pos) in val \<noteq> '''' \<and> val \<noteq> envVarLdPreloadValue))"

definition PreloadsSomethingElse :: "pod \<Rightarrow> bool" where
  "PreloadsSomethingElse p =
    (list_ex isLDPreloadConflict (ps_Containers (pod_Spec p))
     \<or> list_ex isLDPreloadConflict (ps_InitContainers (pod_Spec p)))"

section \<open>Volumes, mounts and the copy init container\<close>

record podMutator =
  pm_Cfg :: sdkInject

definition UpdateConfig :: "podMutator \<Rightarrow> sdkInject \<Rightarrow> podMutator" where
  "UpdateConfig pm cfg = pm\<lparr>pm_Cfg := cfg\<rparr>"

definition usesInitContainer :: "podMutator \<Rightarrow> bool" where
  "usesInitContainer pm = (sd_InjectionMode (pm_Cfg pm) \<noteq> InjectionModeImage)"

definition PullIfNotPresent :: string where
  "PullIfNotPresent = ''IfNotPresent''"

definition buildVolumeDefinition :: "podMutator \<Rightarrow> volume" where
  "buildVolumeDefinition pm =
    (if usesInitContainer pm
     then \<lparr>vol_Name = injectVolumeName, vol_Source = EmptyDir EphemeralVolumeSize\<rparr>
     else \<lparr>vol_Name = injectVolumeName,
       vol_Source = ImageVolume (ImageVolumePath (pm_Cfg pm)) PullIfNotPresent\<rparr>)"

definition mountVolume :: "podMutator \<Rightarrow> podSpec \<Rightarrow> podSpec" where
  "mountVolume pm spec =
    (let v = buildVolumeDefinition pm in
     case indexFunc (\<lambda>c. vol_Name c = injectVolumeName) (ps_Volumes spec) of
       None \<Rightarrow> spec\<lparr>ps_Volumes := ps_Volumes spec @ [v]\<rparr>
     | Some pos \<Rightarrow> spec\<lparr>ps_Volumes := (ps_Volumes spec)[pos := v]\<rparr>)"

definition copyInitContainer :: "podMutator \<Rightarrow> container" where
  "copyInitContainer pm = \<lparr>ct_Name = injectInitContainerName, ct_Image = ImageVolumePath (pm_Cfg pm),
     ct_ImagePullPolicy = PullIfNotPresent, ct_Env = [],
     ct_VolumeMounts = [\<lparr>vm_Name = injectVolumeName, vm_MountPath = internalMountPath, vm_ReadOnly = False\<rparr>]\<rparr>"

definition addCopyInitContainerIfNeeded :: "podMutator \<Rightarrow> podSpec \<Rightarrow> podSpec" where
  "addCopyInitContainerIfNeeded pm spec =
    (if \<not> usesInitContainer pm then spec
     else (let c = copyInitContainer pm in
       case indexFunc (\<lambda>ic. ct_Name ic = injectInitContainerName) (ps_InitContainers spec) of
         None \<Rightarrow> spec\<lparr>ps_InitContainers := ps_InitContainers spec @ [c]\<rparr>
       | Some pos \<Rightarrow> spec\<lparr>ps_InitContainers := (ps_InitContainers spec)[pos := c]\<rparr>))"

definition addMount :: "container \<Rightarrow> container" where
  "addMount c =
    (let vm = \<lparr>vm_Name = injectVolumeName, vm_MountPath = internalMountPath, vm_ReadOnly = True\<rparr> in
     case indexFunc (\<lambda>m. vm_Name m = injectVolumeName) (ct_VolumeMounts c) of
       None \<Rightarrow> c\<lparr>ct_VolumeMounts := ct_VolumeMounts c @ [vm]\<rparr>
     | Some idx \<Rightarrow> c\<lparr>ct_VolumeMounts := (ct_VolumeMounts c)[idx := vm]\<rparr>)"

section \<open>Service identity and resource attributes\<close>

definition getResourceAttribute :: "semconv \<Rightarrow> string \<Rightarrow> string" where
  "getResourceAttribute sc kind =
    (let k = toLower kind in
     if k = ''replicaset'' then K8SReplicaSetNameKey sc
     else if k = ''deployment'' then K8SDeploymentNameKey sc
     else if k = ''statefulset'' then K8SStatefulSetNameKey sc
     else if k = ''daemonset'' then K8SDaemonSetNameKey sc
     else if k = ''job'' then K8SJobNameKey sc
     else if k = ''cronjob'' then K8SCronJobNameKey sc
     else '''')"

text \<open>
  The owner that is guessed from the name of a ReplicaSet or a Job: what precedes the last
  dash, if that is not empty. Finding one ends the loop over the references.
\<close>

definition guessedOwner :: "ownerRef \<Rightarrow> owner option" where
  "guessedOwner oref =
    (if or_APIVersion oref = ''apps/v1'' \<and> or_Kind oref = ''ReplicaSet'' then
       (case lastIndexByte (or_Name oref) (CHR ''-'') of
          Some idx \<Rightarrow> if idx > 0 then Some \<lparr>ow_Kind = ''Deployment'', ow_Name = take idx (or_Name oref)\<rparr> else None
        | None \<Rightarrow> None)
     else if or_APIVersion oref = ''batch/v1'' \<and> or_Kind oref = ''Job'' then
       (case lastIndexByte (or_Name oref) (CHR ''-'') of
          Some idx \<Rightarrow> if idx > 0 then Some \<lparr>ow_Kind = ''CronJob'', ow_Name = take idx (or_Name oref)\<rparr> else None
        | None \<Rightarrow> None)
     else None)"

fun ownersLoop :: "ownerRef list \<Rightarrow> owner list" where
  "ownersLoop [] = []"
| "ownersLoop (oref # orefs) =
    (let own = \<lparr>ow_Kind = or_Kind oref, ow_Name = or_Name oref\<rparr> in
     case guessedOwner oref of Some g \<Rightarrow> [own, g] | None \<Rightarrow> own # ownersLoop orefs)"

definition ownersFrom :: "objectMeta \<Rightarrow> owner list" where
  "ownersFrom meta =
    (if length (om_OwnerReferences meta) = 0 then [\<lparr>ow_Kind = ''Pod'', ow_Name = om_Name meta\<rparr>]
     else ownersLoop (om_OwnerReferences meta))"

definition putOwner :: "semconv \<Rightarrow> string \<Rightarrow> string \<Rightarrow> string gomap \<Rightarrow> string gomap" where
  "putOwner sc kind value resources =
    (let resourceAttribute = getResourceAttribute sc kind in
     if resourceAttribute \<noteq> '''' then gm_put resourceAttribute value resources else resources)"

definition addParentResourceLabels :: "semconv \<Rightarrow> objectMeta \<Rightarrow> string gomap \<Rightarrow> bool \<Rightarrow> string gomap" where
  "addParentResourceLabels sc meta resources includeUID =
    (let resources = fold (\<lambda>owner. putOwner sc (ow_Kind owner) (ow_Name owner)) (ownersFrom meta) resources
     in if includeUID
        then fold (\<lambda>owner. putOwner sc (or_Kind owner) (or_UID owner)) (om_OwnerReferences meta) resources
        else resources)"

definition chooseLabelOrAnnotation :: "objectMeta \<Rightarrow> bool \<Rightarrow> string \<Rightarrow> string list \<Rightarrow> string" where
  "chooseLabelOrAnnotation meta useLabels res labelKeys =
    (let v = gm_str (om_Annotations meta) (ResourceAttributeAnnotationPrefix @ res) in
     if v \<noteq> '''' then v
     else if useLabels then
       (case find (\<lambda>labelKey. gm_str (om_Labels meta) labelKey \<noteq> '''') labelKeys of
          Some labelKey \<Rightarrow> gm_str (om_Labels meta) labelKey | None \<Rightarrow> '''')
     else '''')"

definition chooseServiceName :: "semconv \<Rightarrow> objectMeta \<Rightarrow> bool \<Rightarrow> string \<Rightarrow> string gomap \<Rightarrow> string" where
  "chooseServiceName sc meta useLabels podName resources =
    (let name = chooseLabelOrAnnotation meta useLabels (ServiceNameKey sc) LabelAppName in
     if name \<noteq> '''' then name
     else if gm_str resources (K8SDeploymentNameKey sc) \<noteq> '''' then gm_str resources (K8SDeploymentNameKey sc)
     else if gm_str resources (K8SReplicaSetNameKey sc) \<noteq> '''' then gm_str resources (K8SReplicaSetNameKey sc)
     else if gm_str resources (K8SStatefulSetNameKey sc) \<noteq> '''' then gm_str resources (K8SStatefulSetNameKey sc)
     else if gm_str resources (K8SDaemonSetNameKey sc) \<noteq> '''' then gm_str resources (K8SDaemonSetNameKey sc)
     else if gm_str resources (K8SCronJobNameKey sc) \<noteq> '''' then gm_str resources (K8SCronJobNameKey sc)
     else if gm_str resources (K8SJobNameKey sc) \<noteq> '''' then gm_str resources (K8SJobNameKey sc)
     else podName)"

definition errCannotRetrieveImage :: err where
  "errCannotRetrieveImage = ''cannot retrieve image name''"

definition parseServiceVersionFromImage :: "(string \<Rightarrow> err + imageRef) \<Rightarrow> string \<Rightarrow> err + string" where
  "parseServiceVersionFromImage parseRef img =
    (case parseRef img of
       Inl e \<Rightarrow> Inl e
     | Inr ref \<Rightarrow>
         if \<not> ref_Named ref then Inl errCannotRetrieveImage
         else (let tag = (case ref_Tag ref of Some t \<Rightarrow> t | None \<Rightarrow> '''');
                   digest = (case ref_Digest ref of Some d \<Rightarrow> d | None \<Rightarrow> '''')
               in if digest \<noteq> '''' then
                    (if tag \<noteq> '''' then Inr (tag @ ''@'' @ digest) else Inr digest)
                  else if tag \<noteq> '''' then Inr tag
                  else Inl errCannotRetrieveImage))"

definition chooseServiceVersion :: "mutatorDeps \<Rightarrow> objectMeta \<Rightarrow> bool \<Rightarrow> container \<Rightarrow> string" where
  "chooseServiceVersion d meta useLabels c =
    (let v = chooseLabelOrAnnotation meta useLabels (ServiceVersionKey (md_semconv d)) LabelAppVersion in
     if v \<noteq> '''' then v
     else (case parseServiceVersionFromImage (md_parseRef d) (ct_Image c) of Inl e \<Rightarrow> '''' | Inr v \<Rightarrow> v))"

definition chooseServiceNamespace :: "semconv \<Rightarrow> objectMeta \<Rightarrow> bool \<Rightarrow> string \<Rightarrow> string" where
  "chooseServiceNamespace sc meta useLabels namespaceName =
    (let namespace = chooseLabelOrAnnotation meta useLabels (ServiceNamespaceKey sc) [] in
     if namespace \<noteq> '''' then namespace else namespaceName)"

definition createServiceInstanceId :: "semconv \<Rightarrow> objectMeta \<Rightarrow> string \<Rightarrow> string \<Rightarrow> string \<Rightarrow> string" where
  "createServiceInstanceId sc meta namespaceName podName containerName =
    (let serviceInstanceId = chooseLabelOrAnnotation meta False (ServiceInstanceIDKey sc) [] in
     if serviceInstanceId \<noteq> '''' then serviceInstanceId
     else if namespaceName \<noteq> '''' \<and> podName \<noteq> '''' \<and> containerName \<noteq> ''''
     then joinWith ''.'' [namespaceName, podName, containerName]
     else '''')"

text \<open>The loop over the annotations: those with the prefix become attributes.\<close>

fun annotationAttrs :: "string gomap \<Rightarrow> string gomap \<Rightarrow> string gomap" where
  "annotationAttrs [] extra = extra"
| "annotationAttrs ((k, v) # rest) extra =
    annotationAttrs rest (case cutPrefix k ResourceAttributeAnnotationPrefix of
       Some a \<Rightarrow> gm_put a v extra | None \<Rightarrow> extra)"

definition setResourceAttributes :: "mutatorDeps \<Rightarrow> podMutator \<Rightarrow> objectMeta \<Rightarrow> container \<Rightarrow> container \<times> string gomap" where
  "setResourceAttributes d pm meta c0 =
    (let sc = md_semconv d;
         cfg = sd_Resources (pm_Cfg pm);
         c = setEnvVar c0 envInjectorOtelK8sContainerName (ct_Name c0);
         extra = addParentResourceLabels sc meta [] (AddK8sUIDAttributes cfg);
         (c, namespace) = setEnvVarFromFieldPath c envInjectorOtelK8sNamespaceName ''metadata.namespace'';
         (c, podName) = setEnvVarFromFieldPath c envInjectorOtelK8sPodName ''metadata.name'';
         (c, nodeName) = setEnvVarFromFieldPath c envOtelK8sNodeName ''spec.nodeName'';
         extra = gm_put (K8SNodeNameKey sc) nodeName extra;
         (c, extra) = (if AddK8sIPAttribute cfg
            then (let (c, podIP) = setEnvVarFromFieldPath c envOtelK8sPodIP ''status.podIP''
                  in (c, gm_put (K8SPodIPKey sc) podIP extra))
            else (c, extra));
         c = (if AddK8sUIDAttributes cfg
            then fst (setEnvVarFromFieldPath c envInjectorOtelK8sPodUID ''metadata.uid'') else c);
         c = setEnvVar c envInjectorOtelServiceNamespace
               (chooseServiceNamespace sc meta (UseLabelsForResourceAttributes cfg) namespace);
         c = setEnvVar c envInjectorOtelServiceName
               (chooseServiceName sc meta (UseLabelsForResourceAttributes cfg) podName extra);
         c = setEnvVar c envInjectorOtelServiceVersion
               (chooseServiceVersion d meta (UseLabelsForResourceAttributes cfg) c);
         serviceInstanceId = createServiceInstanceId sc meta namespace podName (ct_Name c);
         extra = (if serviceInstanceId \<noteq> '''' then gm_put (ServiceInstanceIDKey sc) serviceInstanceId extra else extra)
     in (c, annotationAttrs (om_Annotations meta) extra))"

definition renderAttrs :: "string gomap \<Rightarrow> string" where
  "renderAttrs extra = joinWith '','' (map (\<lambda>k. k @ ''='' @ gm_str extra k) (sort (gm_keys extra)))"

definition injectEnvVars :: "string gomap \<Rightarrow> container \<Rightarrow> container" where
  "injectEnvVars extra c =
    (if length extra = 0 then c
     else (let perPodAttrs = renderAttrs extra in
       case findEnvVar c envInjectorOtelExtraResourceAttrs of
         Some pos \<Rightarrow>
           (if ev_Value (ct_Env c ! pos) \<noteq> ''''
            then c\<lparr>ct_Env := (ct_Env c)[pos := (ct_Env c ! pos)\<lparr>ev_Value := ev_Value (ct_Env c ! pos) @ '','' @ perPodAttrs\<rparr>]\<rparr>
            else setEnvVar c envInjectorOtelExtraResourceAttrs perPodAttrs)
       | None \<Rightarrow> setEnvVar c envInjectorOtelExtraResourceAttrs perPodAttrs))"

definition configureContainerEnvVars :: "mutatorDeps \<Rightarrow> podMutator \<Rightarrow> objectMeta \<Rightarrow> container \<Rightarrow> bool \<Rightarrow> container" where
  "configureContainerEnvVars d pm meta c spanMetricsSkip =
    (let (c, extra) = setResourceAttributes d pm meta c;
         extra = (if spanMetricsSkip then gm_put (SkipSpanMetrics (md_semconv d)) ''true'' extra else extra)
     in injectEnvVars extra c)"

section \<open>Disabling languages, and the whole container\<close>

definition CanInstrument :: "podMutator \<Rightarrow> instrumentableType \<Rightarrow> bool" where
  "CanInstrument pm kind =
    (case sd_EnabledSDKs (pm_Cfg pm) of None \<Rightarrow> False | Some ks \<Rightarrow> list_ex (\<lambda>k. k = kind) ks)"

definition disableSDK :: "podMutator \<Rightarrow> instrumentableType \<Rightarrow> container \<Rightarrow> container" where
  "disableSDK pm supported c =
    (if \<not> CanInstrument pm supported then
       (case supported of
          Dotnet \<Rightarrow> setEnvVarEvenIfEmpty c envDotnetEnabledName ''''
        | Java \<Rightarrow> setEnvVarEvenIfEmpty c envJavaEnabledName ''''
        | Nodejs \<Rightarrow> setEnvVarEvenIfEmpty c envNodejsEnabledName ''''
        | Python \<Rightarrow> setEnvVarEvenIfEmpty c envPythonEnabledName ''''
        | OtherLang l \<Rightarrow> c)
     else c)"

definition disableUndesiredSDKs :: "podMutator \<Rightarrow> container \<Rightarrow> container" where
  "disableUndesiredSDKs pm c = fold (disableSDK pm) supportedSDKLangs c"

definition addEnvVars :: "mutatorDeps \<Rightarrow> podMutator \<Rightarrow> objectMeta \<Rightarrow> container \<Rightarrow> envVar list \<Rightarrow> bool \<Rightarrow> container" where
  "addEnvVars d pm meta c ruleEnv spanMetricsSkip =
    (let c = applyEnvVars c ruleEnv;
         c = setEnvVar c envVarLdPreloadName envVarLdPreloadValue;
         c = setEnvVar c envOtelInjectorConfigFileName envOtelInjectorConfigFileValue;
         c = setEnvVar c envOtelSemConvStabilityName ''http'';
         c = (if sd_Debug (pm_Cfg pm) then setEnvVar c envInjectorDebugName ''debug'' else c);
         c = configureContainerEnvVars d pm meta c spanMetricsSkip
     in disableUndesiredSDKs pm c)"

definition instrumentContainer :: "mutatorDeps \<Rightarrow> podMutator \<Rightarrow> objectMeta \<Rightarrow> container \<Rightarrow> envVar list \<Rightarrow> bool \<Rightarrow> container" where
  "instrumentContainer d pm meta c ruleEnv spanMetricsSkip =
    addEnvVars d pm meta (addMount c) ruleEnv spanMetricsSkip"

section \<open>Reading the annotation back\<close>

definition IsInstrumentedWithWantedConfig :: "podSpec \<Rightarrow> objectMeta \<Rightarrow> string \<Rightarrow> bool" where
  "IsInstrumentedWithWantedConfig spec meta wantConfigHash =
    (case gm_get (om_Annotations meta) InjectedAnnotation of
       None \<Rightarrow> False | Some val \<Rightarrow> val = wantConfigHash)"

definition IsInstrumented :: "objectMeta \<Rightarrow> bool" where
  "IsInstrumented meta =
    (case gm_get (om_Annotations meta) InjectedAnnotation of None \<Rightarrow> False | Some val \<Rightarrow> val \<noteq> '''')"

end
