(* ===== verification/MutatorEnv.thy ===== *)
theory MutatorEnv
  imports Mutator
begin

text \<open>
  The effect of every environment-variable operation of \<open>mutator.go\<close> on three views of a
  container's variables: looking one up by name, the sequence of names, and which name comes
  first. The properties of the webhook rest on these views only.

  Volumes, mounts, init containers and variables all meet the contract \<open>keyed_slice\<close>.
\<close>

named_theorems env_simps \<open>lookup laws of a container's variables\<close>
named_theorems env_frame \<open>fields of a container that are left alone\<close>

definition envGet :: "container \<Rightarrow> string \<Rightarrow> envVar option" where
  "envGet c k = first_with ev_Name k (ct_Env c)"

definition envNames :: "container \<Rightarrow> string list" where
  "envNames c = map ev_Name (ct_Env c)"

abbreviation plainVar :: "string \<Rightarrow> string \<Rightarrow> envVar" where
  "plainVar n v \<equiv> \<lparr>ev_Name = n, ev_Value = v, ev_ValueFrom = None\<rparr>"

abbreviation fieldVar :: "string \<Rightarrow> string \<Rightarrow> envVar" where
  "fieldVar n f \<equiv> \<lparr>ev_Name = n, ev_Value = '''', ev_ValueFrom = Some (FieldRef f)\<rparr>"

section \<open>Updates by name\<close>

interpretation vol: keyed_slice vol_Name "upsert vol_Name"
  by (rule keyed_slice_upsert)

interpretation mnt: keyed_slice vm_Name "upsert vm_Name"
  by (rule keyed_slice_upsert)

interpretation ctn: keyed_slice ct_Name "upsert ct_Name"
  by (rule keyed_slice_upsert)

interpretation env: keyed_slice ev_Name "upsert ev_Name"
  by (rule keyed_slice_upsert)

lemma upsert_idem: "upsert key x (upsert key x xs) = upsert key x xs"
  by (induction xs) auto

lemma upsert_filter: "key x = k \<Longrightarrow> filter (\<lambda>y. key y \<noteq> k) (upsert key x xs) = filter (\<lambda>y. key y \<noteq> k) xs"
  by (induction xs) auto

lemma mountVolume_upsert: "mountVolume pm spec = spec\<lparr>ps_Volumes := upsert vol_Name (buildVolumeDefinition pm) (ps_Volumes spec)\<rparr>"
  by (simp add: mountVolume_def upsert_def buildVolumeDefinition_def Let_def split: option.split)

lemma addCopyInitContainer_upsert: "addCopyInitContainerIfNeeded pm spec =
    (if usesInitContainer pm
     then spec\<lparr>ps_InitContainers := upsert ct_Name (copyInitContainer pm) (ps_InitContainers spec)\<rparr> else spec)"
  by (simp add: addCopyInitContainerIfNeeded_def upsert_def copyInitContainer_def Let_def split: option.split)

definition injectMount :: volumeMount where
  "injectMount = \<lparr>vm_Name = injectVolumeName, vm_MountPath = internalMountPath, vm_ReadOnly = True\<rparr>"

lemma addMount_upsert: "addMount c = c\<lparr>ct_VolumeMounts := upsert vm_Name injectMount (ct_VolumeMounts c)\<rparr>"
  by (simp add: addMount_def upsert_def injectMount_def Let_def split: option.split)

lemma setEnvVarEvenIfEmpty_upsert:
  "setEnvVarEvenIfEmpty c n v = c\<lparr>ct_Env := upsert ev_Name (plainVar n v) (ct_Env c)\<rparr>"
proof (cases "findEnvVar c n")
  case None
  then show ?thesis by (simp add: setEnvVarEvenIfEmpty_def upsert_def findEnvVar_def)
next
  case (Some pos)
  then have "ev_Name (ct_Env c ! pos) = n"
    by (auto simp: findEnvVar_def dest: indexFunc_Some)
  then have "(ct_Env c ! pos)\<lparr>ev_ValueFrom := None, ev_Value := v\<rparr> = plainVar n v"
    by (cases "ct_Env c ! pos") simp
  with Some show ?thesis by (simp add: setEnvVarEvenIfEmpty_def upsert_def findEnvVar_def)
qed

lemma applyEnvVars_upsert: "applyEnvVars c vars = c\<lparr>ct_Env := fold (upsert ev_Name) vars (ct_Env c)\<rparr>"
proof (induction vars arbitrary: c)
  case Nil
  then show ?case by simp
next
  case (Cons v vars)
  have "(case findEnvVar c (ev_Name v) of
       Some pos \<Rightarrow> c\<lparr>ct_Env := (ct_Env c)[pos := v]\<rparr> | None \<Rightarrow> c\<lparr>ct_Env := ct_Env c @ [v]\<rparr>)
     = c\<lparr>ct_Env := upsert ev_Name v (ct_Env c)\<rparr>"
    by (simp add: findEnvVar_def upsert_def split: option.split)
  with Cons show ?case by simp
qed

lemma findEnvVar_envGet: "envGet c k = map_option (\<lambda>i. ct_Env c ! i) (findEnvVar c k)"
  by (simp add: envGet_def findEnvVar_def find_indexFunc)

lemma envGet_name: "envGet c k = Some v \<Longrightarrow> ev_Name v = k"
  by (auto simp: envGet_def find_Some_iff)

section \<open>Lookup after each operation\<close>

lemma envGet_setEvenIfEmpty [env_simps]:
  "envGet (setEnvVarEvenIfEmpty c n v) k = (if k = n then Some (plainVar n v) else envGet c k)"
  by (simp add: envGet_def setEnvVarEvenIfEmpty_upsert env.lookup_put)

lemma envGet_setEnvVar [env_simps]:
  "envGet (setEnvVar c n v) k = (if k = n \<and> v \<noteq> '''' then Some (plainVar n v) else envGet c k)"
  by (simp add: setEnvVar_def env_simps)

text \<open>The last rule variable with the name wins; without one the container's own stays.\<close>

lemma envGet_applyEnvVars [env_simps]:
  "envGet (applyEnvVars c vars) k =
    (case first_with ev_Name k (rev vars) of Some v \<Rightarrow> Some v | None \<Rightarrow> envGet c k)"
proof -
  have "first_with ev_Name k (fold (upsert ev_Name) vars e) =
      (case first_with ev_Name k (rev vars) of Some v \<Rightarrow> Some v | None \<Rightarrow> first_with ev_Name k e)" for e
    by (induction vars arbitrary: e)
      (auto simp: find_append env.lookup_put split: option.splits)
  then show ?thesis unfolding envGet_def by (simp add: applyEnvVars_upsert)
qed

lemma find_deleteAt:
  assumes "indexFunc (\<lambda>y. key y = n) xs = Some i" "k \<noteq> n"
  shows "first_with key k (deleteAt i xs) = first_with key k xs"
proof -
  from indexFunc_split [OF assms(1)] obtain us x vs
    where "xs = us @ x # vs" "length us = i" "key x = n" by blast
  then show ?thesis using assms(2) by (simp add: deleteAt_def find_append cong: option.case_cong)
qed

lemma find_insertAt_other: "key x \<noteq> k \<Longrightarrow> first_with key k (insertAt i x xs) = first_with key k xs"
proof -
  assume "key x \<noteq> k"
  then have "first_with key k (insertAt i x xs) = first_with key k (take i xs @ drop i xs)"
    unfolding insertAt_def find_append by (simp cong: option.case_cong)
  then show ?thesis by simp
qed

definition fieldBase :: "container \<Rightarrow> string \<Rightarrow> container" where
  "fieldBase c n = (case findEnvVar c n of Some i \<Rightarrow> c\<lparr>ct_Env := deleteAt i (ct_Env c)\<rparr> | None \<Rightarrow> c)"

definition fieldPos :: "container \<Rightarrow> string \<Rightarrow> nat" where
  "fieldPos c n =
    (let pos = (case findEnvVar c n of Some i \<Rightarrow> i | None \<Rightarrow> length (ct_Env c)) in
     case findEnvVar (fieldBase c n) envInjectorOtelExtraResourceAttrs of
       Some attrs \<Rightarrow> min pos attrs | None \<Rightarrow> pos)"

lemma setEnvVarFromFieldPath_eq:
  "setEnvVarFromFieldPath c n f =
    ((fieldBase c n)\<lparr>ct_Env := insertAt (fieldPos c n) (fieldVar n f) (ct_Env (fieldBase c n))\<rparr>,
     ''$('' @ n @ '')'')"
  by (simp add: setEnvVarFromFieldPath_def fieldBase_def fieldPos_def Let_def split: option.split)

lemma fieldRefString [simp]: "snd (setEnvVarFromFieldPath c n f) = ''$('' @ n @ '')''"
  by (simp add: setEnvVarFromFieldPath_eq)

lemma envGet_fieldBase: "k \<noteq> n \<Longrightarrow> envGet (fieldBase c n) k = envGet c k"
  by (auto simp: envGet_def fieldBase_def findEnvVar_def find_deleteAt split: option.splits)

lemma fieldBase_prefix: "j < fieldPos c n \<Longrightarrow> j < length (ct_Env (fieldBase c n)) \<Longrightarrow>
    ev_Name (ct_Env (fieldBase c n) ! j) \<noteq> n"
proof -
  assume j: "j < fieldPos c n" "j < length (ct_Env (fieldBase c n))"
  show ?thesis
  proof (cases "findEnvVar c n")
    case None
    then have "fieldBase c n = c" "\<forall>v\<in>set (ct_Env c). ev_Name v \<noteq> n"
      by (simp add: fieldBase_def) (use None in \<open>simp add: findEnvVar_def indexFunc_None\<close>)
    then show ?thesis using j by simp
  next
    case (Some i)
    then have "j < i" using j(1)
      by (auto simp: fieldPos_def Let_def split: option.splits)
    moreover have i: "i < length (ct_Env c)" "\<forall>l<i. ev_Name (ct_Env c ! l) \<noteq> n"
      using Some by (auto simp: findEnvVar_def dest: indexFunc_Some)
    ultimately show ?thesis
      using Some by (simp add: fieldBase_def deleteAt_def nth_append)
  qed
qed

lemma envGet_fieldPath [env_simps]:
  "envGet (fst (setEnvVarFromFieldPath c n f)) k = (if k = n then Some (fieldVar n f) else envGet c k)"
proof (cases "k = n")
  case True
  let ?e = "ct_Env (fieldBase c n)"
  have "\<forall>x\<in>set (take (fieldPos c n) ?e). ev_Name x \<noteq> n"
    using fieldBase_prefix [of _ c n] by (fastforce simp: in_set_conv_nth)
  then have "first_with ev_Name n (take (fieldPos c n) ?e) = None"
    by (simp add: find_None_iff)
  with True show ?thesis
    by (simp add: setEnvVarFromFieldPath_eq envGet_def insertAt_def find_append)
next
  case False
  then show ?thesis
    using envGet_fieldBase [OF False, of c]
    by (simp add: setEnvVarFromFieldPath_eq envGet_def find_insertAt_other)
qed

lemma envGet_inject [env_simps]:
  "envGet (injectEnvVars extra c) k =
    (if k = envInjectorOtelExtraResourceAttrs \<and> extra \<noteq> [] then
       (case envGet c k of
          Some v \<Rightarrow> (if ev_Value v \<noteq> '''' then Some (v\<lparr>ev_Value := ev_Value v @ '','' @ renderAttrs extra\<rparr>)
                     else if renderAttrs extra \<noteq> '''' then Some (plainVar k (renderAttrs extra)) else Some v)
        | None \<Rightarrow> (if renderAttrs extra \<noteq> '''' then Some (plainVar k (renderAttrs extra)) else None))
     else envGet c k)"
proof (cases "extra = []")
  case True
  then show ?thesis by (simp add: injectEnvVars_def)
next
  case ne: False
  show ?thesis
  proof (cases "findEnvVar c envInjectorOtelExtraResourceAttrs")
    case None
    then show ?thesis using ne
      by (auto simp: injectEnvVars_def findEnvVar_envGet [of c envInjectorOtelExtraResourceAttrs] env_simps)
  next
    case (Some pos)
    let ?v = "ct_Env c ! pos"
    have n: "ev_Name ?v = envInjectorOtelExtraResourceAttrs"
      using Some by (auto simp: findEnvVar_def dest: indexFunc_Some)
    have up: "(ct_Env c)[pos := ?v\<lparr>ev_Value := w\<rparr>] = upsert ev_Name (?v\<lparr>ev_Value := w\<rparr>) (ct_Env c)" for w
      using Some n by (simp add: upsert_def findEnvVar_def)
    have nw: "ev_Name (?v\<lparr>ev_Value := w\<rparr>) = envInjectorOtelExtraResourceAttrs" for w
      using n by simp
    have g: "envGet c envInjectorOtelExtraResourceAttrs = Some ?v"
      using Some by (simp add: findEnvVar_envGet)
    show ?thesis
    proof (cases "ev_Value ?v = ''''")
      case True
      then show ?thesis using ne Some g by (auto simp: injectEnvVars_def env_simps)
    next
      case False
      then show ?thesis using ne Some g
        by (simp add: injectEnvVars_def envGet_def up env.lookup_put nw)
    qed
  qed
qed

lemma envGet_disableSDK: "envGet (disableSDK pm l c) k =
    (if \<not> CanInstrument pm l \<and>
        (l = Dotnet \<and> k = envDotnetEnabledName \<or> l = Java \<and> k = envJavaEnabledName
         \<or> l = Nodejs \<and> k = envNodejsEnabledName \<or> l = Python \<and> k = envPythonEnabledName)
     then Some (plainVar k '''') else envGet c k)"
  by (cases l) (auto simp: disableSDK_def env_simps)

lemma envGet_disable [env_simps]: "envGet (disableUndesiredSDKs pm c) k =
    (if \<not> CanInstrument pm Dotnet \<and> k = envDotnetEnabledName \<or> \<not> CanInstrument pm Java \<and> k = envJavaEnabledName
        \<or> \<not> CanInstrument pm Nodejs \<and> k = envNodejsEnabledName \<or> \<not> CanInstrument pm Python \<and> k = envPythonEnabledName
     then Some (plainVar k '''') else envGet c k)"
  by (auto simp: disableUndesiredSDKs_def supportedSDKLangs_def envGet_disableSDK)

section \<open>The other fields of the container\<close>

lemma ct_fields_setEvenIfEmpty [env_frame]:
  "ct_Name (setEnvVarEvenIfEmpty c n v) = ct_Name c" "ct_Image (setEnvVarEvenIfEmpty c n v) = ct_Image c"
  "ct_VolumeMounts (setEnvVarEvenIfEmpty c n v) = ct_VolumeMounts c"
  by (simp_all add: setEnvVarEvenIfEmpty_upsert)

lemma ct_fields_setEnvVar [env_frame]:
  "ct_Name (setEnvVar c n v) = ct_Name c" "ct_Image (setEnvVar c n v) = ct_Image c"
  "ct_VolumeMounts (setEnvVar c n v) = ct_VolumeMounts c"
  by (simp_all add: setEnvVar_def env_frame)

lemma ct_fields_apply [env_frame]:
  "ct_Name (applyEnvVars c vs) = ct_Name c" "ct_Image (applyEnvVars c vs) = ct_Image c"
  "ct_VolumeMounts (applyEnvVars c vs) = ct_VolumeMounts c"
  by (simp_all add: applyEnvVars_upsert)

lemma ct_fields_fieldPath [env_frame]:
  "ct_Name (fst (setEnvVarFromFieldPath c n f)) = ct_Name c"
  "ct_Image (fst (setEnvVarFromFieldPath c n f)) = ct_Image c"
  "ct_VolumeMounts (fst (setEnvVarFromFieldPath c n f)) = ct_VolumeMounts c"
  by (simp_all add: setEnvVarFromFieldPath_eq fieldBase_def split: option.split)

lemma ct_fields_inject [env_frame]:
  "ct_Name (injectEnvVars extra c) = ct_Name c" "ct_Image (injectEnvVars extra c) = ct_Image c"
  "ct_VolumeMounts (injectEnvVars extra c) = ct_VolumeMounts c"
  by (simp_all add: injectEnvVars_def Let_def env_frame split: option.split)

lemma ct_fields_disable [env_frame]:
  "ct_Name (disableUndesiredSDKs pm c) = ct_Name c" "ct_Image (disableUndesiredSDKs pm c) = ct_Image c"
  "ct_VolumeMounts (disableUndesiredSDKs pm c) = ct_VolumeMounts c"
  by (simp_all add: disableUndesiredSDKs_def supportedSDKLangs_def disableSDK_def env_frame)

section \<open>The sequence of names\<close>

lemma envNames_setEvenIfEmpty: "envNames (setEnvVarEvenIfEmpty c n v) =
    (if n \<in> set (envNames c) then envNames c else envNames c @ [n])"
  using env.names_put [of "plainVar n v" "ct_Env c"] by (simp add: envNames_def setEnvVarEvenIfEmpty_upsert)

lemma map_insertAt: "map f (insertAt i x xs) = insertAt i (f x) (map f xs)"
  by (simp add: insertAt_def take_map drop_map)

lemma set_insertAt: "set (insertAt i x xs) = insert x (set xs)"
  by (metis Un_insert_right append_take_drop_id insertAt_def list.simps(15) set_append)

lemma distinct_insertAt: "distinct (insertAt i x xs) \<longleftrightarrow> x \<notin> set xs \<and> distinct xs"
proof -
  have "distinct (us @ x # vs) \<longleftrightarrow> x \<notin> set (us @ vs) \<and> distinct (us @ vs)" for us vs
    by auto
  then show ?thesis unfolding insertAt_def by (metis append_take_drop_id)
qed

lemma envNames_fieldBase: "distinct (envNames c) \<Longrightarrow>
    distinct (envNames (fieldBase c n)) \<and> set (envNames (fieldBase c n)) = set (envNames c) - {n}"
proof (cases "findEnvVar c n")
  case None
  then have "fieldBase c n = c" "\<forall>v\<in>set (ct_Env c). ev_Name v \<noteq> n"
    by (simp add: fieldBase_def) (use None in \<open>simp add: findEnvVar_def indexFunc_None\<close>)
  then show "distinct (envNames c) \<Longrightarrow> ?thesis" by (auto simp: envNames_def)
next
  case (Some i)
  from indexFunc_split [OF Some [unfolded findEnvVar_def]] obtain us x vs
    where "ct_Env c = us @ x # vs" "length us = i" "ev_Name x = n" by blast
  with Some show "distinct (envNames c) \<Longrightarrow> ?thesis"
    by (auto simp: fieldBase_def envNames_def deleteAt_def)
qed

text \<open>Every operation keeps the names distinct.\<close>

lemma distinct_setEvenIfEmpty: "distinct (envNames c) \<Longrightarrow> distinct (envNames (setEnvVarEvenIfEmpty c n v))"
  by (simp add: envNames_setEvenIfEmpty)

lemma distinct_setEnvVar: "distinct (envNames c) \<Longrightarrow> distinct (envNames (setEnvVar c n v))"
  by (simp add: setEnvVar_def distinct_setEvenIfEmpty)

lemma distinct_apply: "distinct (envNames c) \<Longrightarrow> distinct (envNames (applyEnvVars c vs))"
proof -
  have "distinct (map ev_Name e) \<Longrightarrow> distinct (map ev_Name (fold (upsert ev_Name) vs e))" for e
    by (induction vs arbitrary: e) (simp_all add: env.distinct_put)
  then show "distinct (envNames c) \<Longrightarrow> distinct (envNames (applyEnvVars c vs))"
    by (simp add: envNames_def applyEnvVars_upsert)
qed

lemma distinct_fieldPath: "distinct (envNames c) \<Longrightarrow> distinct (envNames (fst (setEnvVarFromFieldPath c n f)))"
  using envNames_fieldBase [of c n]
  by (simp add: setEnvVarFromFieldPath_eq envNames_def map_insertAt distinct_insertAt)

lemma envNames_inject_value:
  "i < length (ct_Env c) \<Longrightarrow> envNames (c\<lparr>ct_Env := (ct_Env c)[i := (ct_Env c ! i)\<lparr>ev_Value := w\<rparr>]\<rparr>) = envNames c"
  by (auto simp: envNames_def map_update list_eq_iff_nth_eq nth_list_update)

lemma distinct_inject: "distinct (envNames c) \<Longrightarrow> distinct (envNames (injectEnvVars extra c))"
proof (cases "findEnvVar c envInjectorOtelExtraResourceAttrs")
  case (Some i)
  then have "i < length (ct_Env c)" by (auto simp: findEnvVar_def dest: indexFunc_Some)
  then show "distinct (envNames c) \<Longrightarrow> ?thesis"
    using Some by (simp add: injectEnvVars_def Let_def envNames_inject_value distinct_setEnvVar)
qed (simp add: injectEnvVars_def distinct_setEnvVar Let_def)

lemma distinct_disable: "distinct (envNames c) \<Longrightarrow> distinct (envNames (disableUndesiredSDKs pm c))"
  by (simp add: disableUndesiredSDKs_def supportedSDKLangs_def disableSDK_def distinct_setEvenIfEmpty)

lemmas env_distinct = distinct_setEvenIfEmpty distinct_setEnvVar distinct_apply distinct_fieldPath
  distinct_inject distinct_disable

section \<open>Which name comes first\<close>

text \<open>
  \<open>precedes a b ns\<close>: the name \<open>a\<close> occurs and no \<open>b\<close> stands before its first occurrence. The
  kubelet expands a reference to \<open>a\<close> in the value of \<open>b\<close> only then.
\<close>

definition precedes :: "string \<Rightarrow> string \<Rightarrow> string list \<Rightarrow> bool" where
  "precedes a b ns = (a \<in> set ns \<and> b \<notin> set (takeWhile (\<lambda>x. x \<noteq> a) ns))"

lemma precedes_iff: "precedes a b ns \<longleftrightarrow> (\<exists>us vs. ns = us @ a # vs \<and> a \<notin> set us \<and> b \<notin> set us)"
proof
  assume p: "precedes a b ns"
  then have "a \<in> set ns" by (simp add: precedes_def)
  then obtain us vs where "ns = us @ a # vs" "a \<notin> set us" by (meson split_list_first)
  moreover have "takeWhile (\<lambda>x. x \<noteq> a) ns = us"
    using calculation by (auto intro: takeWhile_tail simp: takeWhile_append)
  ultimately show "\<exists>us vs. ns = us @ a # vs \<and> a \<notin> set us \<and> b \<notin> set us"
    using p by (auto simp: precedes_def)
next
  assume "\<exists>us vs. ns = us @ a # vs \<and> a \<notin> set us \<and> b \<notin> set us"
  then obtain us vs where "ns = us @ a # vs" "a \<notin> set us" "b \<notin> set us" by blast
  moreover from this have "takeWhile (\<lambda>x. x \<noteq> a) ns = us" by (auto simp: takeWhile_append)
  ultimately show "precedes a b ns" by (simp add: precedes_def)
qed

lemma precedesI: "a \<notin> set us \<Longrightarrow> b \<notin> set us \<Longrightarrow> precedes a b (us @ a # vs)"
  by (auto simp: precedes_iff)

lemma precedes_append: "precedes a b ns \<Longrightarrow> precedes a b (ns @ ms)"
  by (auto simp: precedes_iff [of a b ns] intro: precedesI)

lemma precedes_insertAt:
  assumes "precedes a b ns" "x \<noteq> a" "x \<noteq> b"
  shows "precedes a b (insertAt i x ns)"
proof -
  from assms(1) obtain us vs where ns: "ns = us @ a # vs" "a \<notin> set us" "b \<notin> set us"
    by (auto simp: precedes_iff)
  show ?thesis
  proof (cases "i \<le> length us")
    case True
    then have "insertAt i x ns = (take i us @ x # drop i us) @ a # vs"
      by (simp add: insertAt_def ns(1))
    moreover have "precedes a b ((take i us @ x # drop i us) @ a # vs)"
      using ns(2,3) assms(2,3) by (intro precedesI) (auto dest: in_set_takeD in_set_dropD)
    ultimately show ?thesis by simp
  next
    case False
    then have "insertAt i x ns = us @ a # insertAt (i - Suc (length us)) x vs"
      by (simp add: insertAt_def ns(1) take_Cons' drop_Cons')
    with ns(2,3) show ?thesis by (simp add: precedesI)
  qed
qed

lemma precedes_deleteAt:
  assumes "precedes a b ns" "i < length ns" "ns ! i \<noteq> a"
  shows "precedes a b (deleteAt i ns)"
proof -
  from assms(1) obtain us vs where ns: "ns = us @ a # vs" "a \<notin> set us" "b \<notin> set us"
    by (auto simp: precedes_iff)
  show ?thesis
  proof (cases "i < length us")
    case True
    then have "deleteAt i ns = (take i us @ drop (Suc i) us) @ a # vs"
      by (simp add: deleteAt_def ns(1))
    moreover have "precedes a b ((take i us @ drop (Suc i) us) @ a # vs)"
      using ns(2,3) by (intro precedesI) (auto dest: in_set_takeD in_set_dropD)
    ultimately show ?thesis by simp
  next
    case False
    with assms(3) ns(1) have "i \<noteq> length us" by auto
    with False have e: "i - length us = Suc (i - Suc (length us))" by simp
    then have "deleteAt i ns = us @ a # deleteAt (i - Suc (length us)) vs"
      using False by (simp add: deleteAt_def ns(1) Suc_diff_le)
    with ns(2,3) show ?thesis by (simp add: precedesI)
  qed
qed

lemma precedes_new:
  assumes "\<forall>j<i. j < length ns \<longrightarrow> ns ! j \<noteq> a \<and> ns ! j \<noteq> b"
  shows "precedes a b (insertAt i a ns)"
proof -
  have "a \<notin> set (take i ns)" "b \<notin> set (take i ns)"
    using assms by (auto simp: in_set_conv_nth)
  then show ?thesis unfolding insertAt_def by (rule precedesI)
qed

lemma envNames_fieldBase_eq: "envNames (fieldBase c n) =
    (case findEnvVar c n of Some i \<Rightarrow> deleteAt i (envNames c) | None \<Rightarrow> envNames c)"
  by (auto simp: fieldBase_def envNames_def deleteAt_def take_map drop_map split: option.split)

lemma envNames_fieldPath: "envNames (fst (setEnvVarFromFieldPath c n f)) =
    insertAt (fieldPos c n) n (envNames (fieldBase c n))"
  by (simp add: setEnvVarFromFieldPath_eq envNames_def map_insertAt)

lemma findEnvVar_names: "findEnvVar c n = Some i \<Longrightarrow> i < length (envNames c) \<and> envNames c ! i = n
    \<and> (\<forall>j<i. envNames c ! j \<noteq> n)"
  by (auto simp: findEnvVar_def envNames_def dest!: indexFunc_Some)

lemma precedes_setEvenIfEmpty: "precedes a b (envNames c) \<Longrightarrow> precedes a b (envNames (setEnvVarEvenIfEmpty c n v))"
  by (simp add: envNames_setEvenIfEmpty precedes_append)

lemma precedes_setEnvVar: "precedes a b (envNames c) \<Longrightarrow> precedes a b (envNames (setEnvVar c n v))"
  by (simp add: setEnvVar_def precedes_setEvenIfEmpty)

lemma precedes_fieldPath_other:
  assumes "precedes a b (envNames c)" "n \<noteq> a" "n \<noteq> b"
  shows "precedes a b (envNames (fst (setEnvVarFromFieldPath c n f)))"
proof -
  have "precedes a b (envNames (fieldBase c n))"
    using assms findEnvVar_names [of c n]
    by (auto simp: envNames_fieldBase_eq intro!: precedes_deleteAt split: option.split)
  then show ?thesis unfolding envNames_fieldPath using assms(2,3) by (intro precedes_insertAt)
qed

text \<open>A downward-API variable is put in front of the combined attributes.\<close>

lemma precedes_fieldPath_self:
  assumes "n \<noteq> envInjectorOtelExtraResourceAttrs"
  shows "precedes n envInjectorOtelExtraResourceAttrs (envNames (fst (setEnvVarFromFieldPath c n f)))"
  unfolding envNames_fieldPath
proof (rule precedes_new, intro allI impI)
  fix j assume j: "j < fieldPos c n" "j < length (envNames (fieldBase c n))"
  have l: "length (envNames (fieldBase c n)) = length (ct_Env (fieldBase c n))" by (simp add: envNames_def)
  have "envNames (fieldBase c n) ! j \<noteq> n"
    using fieldBase_prefix [of j c n] j l by (simp add: envNames_def)
  moreover have "envNames (fieldBase c n) ! j \<noteq> envInjectorOtelExtraResourceAttrs"
  proof (cases "findEnvVar (fieldBase c n) envInjectorOtelExtraResourceAttrs")
    case None
    then show ?thesis using j l by (simp add: findEnvVar_def indexFunc_None envNames_def)
  next
    case (Some i)
    then have "fieldPos c n \<le> i" by (simp add: fieldPos_def Let_def)
    then show ?thesis using findEnvVar_names [OF Some] j(1) by simp
  qed
  ultimately show "envNames (fieldBase c n) ! j \<noteq> n
      \<and> envNames (fieldBase c n) ! j \<noteq> envInjectorOtelExtraResourceAttrs" ..
qed

lemma precedes_inject: "precedes a b (envNames c) \<Longrightarrow> precedes a b (envNames (injectEnvVars extra c))"
proof (cases "findEnvVar c envInjectorOtelExtraResourceAttrs")
  case (Some i)
  then have "i < length (ct_Env c)" by (auto simp: findEnvVar_def dest: indexFunc_Some)
  then show "precedes a b (envNames c) \<Longrightarrow> ?thesis"
    using Some by (simp add: injectEnvVars_def Let_def envNames_inject_value precedes_setEnvVar)
qed (simp add: injectEnvVars_def precedes_setEnvVar Let_def)

lemma precedes_disable: "precedes a b (envNames c) \<Longrightarrow> precedes a b (envNames (disableUndesiredSDKs pm c))"
  by (simp add: disableUndesiredSDKs_def supportedSDKLangs_def disableSDK_def precedes_setEvenIfEmpty)

lemmas env_precedes = precedes_setEvenIfEmpty precedes_setEnvVar precedes_fieldPath_other
  precedes_fieldPath_self precedes_inject precedes_disable

section \<open>The stages of setResourceAttributes\<close>

text \<open>The container after the downward-API variables, and the attributes before the annotations.\<close>

definition fieldStage :: "podMutator \<Rightarrow> container \<Rightarrow> container" where
  "fieldStage pm c0 =
    (let cfg = sd_Resources (pm_Cfg pm);
         c = setEnvVar c0 envInjectorOtelK8sContainerName (ct_Name c0);
         c = fst (setEnvVarFromFieldPath c envInjectorOtelK8sNamespaceName ''metadata.namespace'');
         c = fst (setEnvVarFromFieldPath c envInjectorOtelK8sPodName ''metadata.name'');
         c = fst (setEnvVarFromFieldPath c envOtelK8sNodeName ''spec.nodeName'');
         c = (if AddK8sIPAttribute cfg then fst (setEnvVarFromFieldPath c envOtelK8sPodIP ''status.podIP'') else c)
     in if AddK8sUIDAttributes cfg then fst (setEnvVarFromFieldPath c envInjectorOtelK8sPodUID ''metadata.uid'') else c)"

definition varRef :: "string \<Rightarrow> string" where
  "varRef n = ''$('' @ n @ '')''"

definition ownAttrs :: "mutatorDeps \<Rightarrow> podMutator \<Rightarrow> objectMeta \<Rightarrow> string gomap" where
  "ownAttrs d pm meta =
    (let sc = md_semconv d; cfg = sd_Resources (pm_Cfg pm);
         extra = addParentResourceLabels sc meta [] (AddK8sUIDAttributes cfg);
         extra = gm_put (K8SNodeNameKey sc) (varRef envOtelK8sNodeName) extra
     in if AddK8sIPAttribute cfg then gm_put (K8SPodIPKey sc) (varRef envOtelK8sPodIP) extra else extra)"

definition computedAttrs :: "mutatorDeps \<Rightarrow> podMutator \<Rightarrow> objectMeta \<Rightarrow> string \<Rightarrow> string gomap" where
  "computedAttrs d pm meta cname =
    (let sc = md_semconv d;
         sid = createServiceInstanceId sc meta (varRef envInjectorOtelK8sNamespaceName)
                 (varRef envInjectorOtelK8sPodName) cname;
         extra = ownAttrs d pm meta
     in if sid \<noteq> '''' then gm_put (ServiceInstanceIDKey sc) sid extra else extra)"

definition podAttrs :: "mutatorDeps \<Rightarrow> podMutator \<Rightarrow> objectMeta \<Rightarrow> string \<Rightarrow> string gomap" where
  "podAttrs d pm meta cname = annotationAttrs (om_Annotations meta) (computedAttrs d pm meta cname)"

definition serviceStage :: "mutatorDeps \<Rightarrow> podMutator \<Rightarrow> objectMeta \<Rightarrow> container \<Rightarrow> container" where
  "serviceStage d pm meta c =
    (let sc = md_semconv d; ul = UseLabelsForResourceAttributes (sd_Resources (pm_Cfg pm));
         c = setEnvVar c envInjectorOtelServiceNamespace
               (chooseServiceNamespace sc meta ul (varRef envInjectorOtelK8sNamespaceName));
         c = setEnvVar c envInjectorOtelServiceName
               (chooseServiceName sc meta ul (varRef envInjectorOtelK8sPodName) (ownAttrs d pm meta))
     in setEnvVar c envInjectorOtelServiceVersion (chooseServiceVersion d meta ul c))"

lemma ct_fields_fieldStage [env_frame]:
  "ct_Name (fieldStage pm c) = ct_Name c" "ct_Image (fieldStage pm c) = ct_Image c"
  "ct_VolumeMounts (fieldStage pm c) = ct_VolumeMounts c"
  by (simp_all add: fieldStage_def Let_def env_frame)

lemma setResourceAttributes_stages:
  "setResourceAttributes d pm meta c =
    (serviceStage d pm meta (fieldStage pm c), podAttrs d pm meta (ct_Name c))"
  unfolding setResourceAttributes_def serviceStage_def fieldStage_def podAttrs_def computedAttrs_def ownAttrs_def Let_def
  by (simp add: case_prod_unfold env_frame varRef_def)

end
