(* ===== verification/MutatorProps.thy ===== *)
theory MutatorProps
  imports MutatorEnv
begin

text \<open>
  The properties of \<open>mutator.go\<close>: which variable wins, where the downward-API variables
  stand, what the combined resource attributes hold, and that instrumenting a container twice
  does not leave the same attributes.
\<close>

section \<open>The stages of addEnvVars\<close>

definition fixedStage :: "podMutator \<Rightarrow> container \<Rightarrow> envVar list \<Rightarrow> container" where
  "fixedStage pm c ruleEnv =
    (let c = setEnvVar (setEnvVar (setEnvVar (applyEnvVars c ruleEnv)
               envVarLdPreloadName envVarLdPreloadValue)
               envOtelInjectorConfigFileName envOtelInjectorConfigFileValue)
               envOtelSemConvStabilityName ''http''
     in if sd_Debug (pm_Cfg pm) then setEnvVar c envInjectorDebugName ''debug'' else c)"

definition finalAttrs :: "mutatorDeps \<Rightarrow> podMutator \<Rightarrow> objectMeta \<Rightarrow> string \<Rightarrow> bool \<Rightarrow> string gomap" where
  "finalAttrs d pm meta cname skip =
    (if skip then gm_put (SkipSpanMetrics (md_semconv d)) ''true'' (podAttrs d pm meta cname)
     else podAttrs d pm meta cname)"

lemma fixedStage_frame [env_frame]:
  "ct_Name (fixedStage pm c vs) = ct_Name c" "ct_Image (fixedStage pm c vs) = ct_Image c"
  "ct_VolumeMounts (fixedStage pm c vs) = ct_VolumeMounts c"
  by (simp_all add: fixedStage_def Let_def env_frame)

lemma addEnvVars_stages:
  "addEnvVars d pm meta c ruleEnv skip =
    disableUndesiredSDKs pm (injectEnvVars (finalAttrs d pm meta (ct_Name c) skip)
      (serviceStage d pm meta (fieldStage pm (fixedStage pm c ruleEnv))))"
  by (simp add: addEnvVars_def configureContainerEnvVars_def setResourceAttributes_stages
      fixedStage_def finalAttrs_def Let_def env_frame)

text \<open>The names the injector itself writes.\<close>

definition fieldNames :: "string list" where
  "fieldNames = [envInjectorOtelK8sContainerName, envInjectorOtelK8sNamespaceName,
     envInjectorOtelK8sPodName, envOtelK8sNodeName, envOtelK8sPodIP, envInjectorOtelK8sPodUID]"

definition serviceNames :: "string list" where
  "serviceNames = [envInjectorOtelServiceNamespace, envInjectorOtelServiceName, envInjectorOtelServiceVersion]"

definition fixedNames :: "string list" where
  "fixedNames = [envVarLdPreloadName, envOtelInjectorConfigFileName, envOtelSemConvStabilityName, envInjectorDebugName]"

definition sdkNames :: "string list" where
  "sdkNames = [envDotnetEnabledName, envJavaEnabledName, envNodejsEnabledName, envPythonEnabledName]"

definition injectorNames :: "string list" where
  "injectorNames = fixedNames @ fieldNames @ serviceNames @ [envInjectorOtelExtraResourceAttrs] @ sdkNames"

text \<open>All of them are different.\<close>

lemma injectorNames_distinct: "distinct injectorNames"
  by (simp add: injectorNames_def fixedNames_def fieldNames_def serviceNames_def sdkNames_def env_name_defs)

lemma envGet_fieldStage [env_simps]: "k \<notin> set fieldNames \<Longrightarrow> envGet (fieldStage pm c) k = envGet c k"
  by (simp add: fieldStage_def Let_def env_simps fieldNames_def)

lemma envGet_serviceStage [env_simps]: "k \<notin> set serviceNames \<Longrightarrow> envGet (serviceStage d pm meta c) k = envGet c k"
  by (simp add: serviceStage_def Let_def env_simps serviceNames_def)

lemma envGet_fixedStage [env_simps]: "k \<notin> set fixedNames \<Longrightarrow> envGet (fixedStage pm c vs) k = envGet (applyEnvVars c vs) k"
  by (simp add: fixedStage_def Let_def env_simps fixedNames_def)

lemma envGet_disable_other: "k \<notin> set sdkNames \<Longrightarrow> envGet (disableUndesiredSDKs pm c) k = envGet c k"
  by (simp add: envGet_disable sdkNames_def)

lemma envGet_inject_other: "k \<noteq> envInjectorOtelExtraResourceAttrs \<Longrightarrow> envGet (injectEnvVars extra c) k = envGet c k"
  by (simp add: envGet_inject)

lemmas envGet_skip = envGet_disable_other envGet_inject_other envGet_serviceStage
  envGet_fieldStage envGet_fixedStage

text \<open>Each group of names is disjoint from the others, one name at a time.\<close>

lemma fixed_not_later:
  "k \<in> set fixedNames \<Longrightarrow> k \<notin> set fieldNames \<and> k \<notin> set serviceNames \<and> k \<notin> set sdkNames
    \<and> k \<noteq> envInjectorOtelExtraResourceAttrs"
  using injectorNames_distinct by (auto simp: injectorNames_def)

lemma envGet_addEnvVars_fixed:
  "k \<in> set fixedNames \<Longrightarrow> envGet (addEnvVars d pm meta c vs skip) k = envGet (fixedStage pm c vs) k"
  using fixed_not_later [of k]
  by (simp add: addEnvVars_stages envGet_skip)

lemma envGet_addEnvVars_other:
  "k \<notin> set injectorNames \<Longrightarrow> envGet (addEnvVars d pm meta c vs skip) k = envGet (applyEnvVars c vs) k"
  by (simp add: addEnvVars_stages envGet_skip injectorNames_def)

lemma fixed_values:
  "envGet (fixedStage pm c vs) envVarLdPreloadName = Some (plainVar envVarLdPreloadName envVarLdPreloadValue)"
  "envGet (fixedStage pm c vs) envOtelInjectorConfigFileName
    = Some (plainVar envOtelInjectorConfigFileName envOtelInjectorConfigFileValue)"
  "envGet (fixedStage pm c vs) envOtelSemConvStabilityName = Some (plainVar envOtelSemConvStabilityName ''http'')"
  by (simp_all add: fixedStage_def Let_def env_simps env_name_defs envVarLdPreloadValue_def
      envOtelInjectorConfigFileValue_def internalMountPath_def)

lemma isLDPreloadConflict_envGet:
  "isLDPreloadConflict c \<longleftrightarrow> (\<exists>v. envGet c envVarLdPreloadName = Some v
    \<and> ev_Value v \<noteq> '''' \<and> ev_Value v \<noteq> envVarLdPreloadValue)"
  by (auto simp: isLDPreloadConflict_def findEnvVar_envGet Let_def split: option.split)

lemma addMount_frame [env_frame]:
  "ct_Name (addMount c) = ct_Name c" "ct_Image (addMount c) = ct_Image c" "ct_Env (addMount c) = ct_Env c"
  "envGet (addMount c) k = envGet c k" "envNames (addMount c) = envNames c"
  by (simp_all add: addMount_upsert envGet_def envNames_def)

section \<open>Which variable wins\<close>

lemma ld_preload_fixed: "envGet (instrumentContainer d pm meta c vs skip) envVarLdPreloadName
    = Some (plainVar envVarLdPreloadName envVarLdPreloadValue)"
  by (simp add: instrumentContainer_def envGet_addEnvVars_fixed fixedNames_def fixed_values)

lemma no_conflict_after: "\<not> isLDPreloadConflict (instrumentContainer d pm meta c vs skip)"
  by (simp add: isLDPreloadConflict_envGet ld_preload_fixed)

text \<open>The semantic-convention keys as OpenTelemetry documents them, for the witnesses.\<close>

definition otelSemconv :: semconv where
  "otelSemconv = \<lparr>ServiceNameKey = ''service.name'', ServiceNamespaceKey = ''service.namespace'',
     ServiceVersionKey = ''service.version'', ServiceInstanceIDKey = ''service.instance.id'',
     K8SNodeNameKey = ''k8s.node.name'', K8SPodIPKey = ''k8s.pod.ip'',
     K8SDeploymentNameKey = ''k8s.deployment.name'', K8SReplicaSetNameKey = ''k8s.replicaset.name'',
     K8SStatefulSetNameKey = ''k8s.statefulset.name'', K8SDaemonSetNameKey = ''k8s.daemonset.name'',
     K8SCronJobNameKey = ''k8s.cronjob.name'', K8SJobNameKey = ''k8s.job.name'',
     SkipSpanMetrics = ''span.metrics.skip''\<rparr>"

definition sampleDeps :: mutatorDeps where
  "sampleDeps = \<lparr>md_semconv = otelSemconv, md_parseRef = (\<lambda>img. Inl ''unknown'')\<rparr>"

definition sampleMutator :: podMutator where
  "sampleMutator = \<lparr>pm_Cfg = sampleSDK ''1''\<rparr>"

text \<open>
  C33. Who sets a variable of an injected container. Three variables are the injector's whatever the
  container or the rule sets them to: LD_PRELOAD and the file of the injector's configuration
  point into the SDK mount and the semantic-convention switch is http, none of them from a
  reference, so that the container is no preload conflict any more. For every name that is not
  one of \<open>injectorNames\<close> the last rule variable with that name wins over the container's own, and
  without a rule variable the container's own stays. (The other names of that list are appended to,
  or kept under conditions of their own.)
\<close>

theorem fixed_vars_win:
  "envGet (instrumentContainer d pm meta c ruleEnv skip) envVarLdPreloadName
     = Some (plainVar envVarLdPreloadName envVarLdPreloadValue)
   \<and> envGet (instrumentContainer d pm meta c ruleEnv skip) envOtelInjectorConfigFileName
     = Some (plainVar envOtelInjectorConfigFileName envOtelInjectorConfigFileValue)
   \<and> envGet (instrumentContainer d pm meta c ruleEnv skip) envOtelSemConvStabilityName
     = Some (plainVar envOtelSemConvStabilityName ''http'')
   \<and> \<not> isLDPreloadConflict (instrumentContainer d pm meta c ruleEnv skip)
   \<and> (\<forall>k. k \<notin> set injectorNames \<longrightarrow> envGet (instrumentContainer d pm meta c ruleEnv skip) k =
       (case first_with ev_Name k (rev ruleEnv) of Some v \<Rightarrow> Some v | None \<Rightarrow> envGet c k))"
proof -
  have "envGet (instrumentContainer d pm meta c ruleEnv skip) k =
      (case first_with ev_Name k (rev ruleEnv) of Some v \<Rightarrow> Some v | None \<Rightarrow> envGet c k)"
    if "k \<notin> set injectorNames" for k
    by (simp add: instrumentContainer_def envGet_addEnvVars_other [OF that] env_simps env_frame cong: option.case_cong)
  then show ?thesis
    using ld_preload_fixed no_conflict_after
    by (simp add: instrumentContainer_def envGet_addEnvVars_fixed fixedNames_def fixed_values)
qed

theorem fixed_vars_win_witness:
  "let c = instrumentContainer sampleDeps sampleMutator emptyMeta
      (emptyContainer\<lparr>ct_Env := [plainVar ''A'' ''old'', plainVar ''B'' ''own'', plainVar ''LD_PRELOAD'' ''mine.so'']\<rparr>)
      [plainVar ''A'' ''first'', plainVar ''A'' ''last''] False
   in envGet c ''A'' = Some (plainVar ''A'' ''last'') \<and> envGet c ''B'' = Some (plainVar ''B'' ''own'')
    \<and> envGet c ''LD_PRELOAD'' = Some (plainVar ''LD_PRELOAD'' envVarLdPreloadValue) \<and> \<not> isLDPreloadConflict c"
proof -
  let ?c = "emptyContainer\<lparr>ct_Env := [plainVar ''A'' ''old'', plainVar ''B'' ''own'', plainVar ''LD_PRELOAD'' ''mine.so'']\<rparr>"
  let ?env = "[plainVar ''A'' ''first'', plainVar ''A'' ''last'']"
  have n: "''A'' \<notin> set injectorNames" "''B'' \<notin> set injectorNames"
    by (simp_all add: injectorNames_def fixedNames_def fieldNames_def serviceNames_def sdkNames_def env_name_defs)
  have ld: "envVarLdPreloadName = ''LD_PRELOAD''" by (simp add: env_name_defs)
  have "envGet (instrumentContainer sampleDeps sampleMutator emptyMeta ?c ?env False) ''A'' = Some (plainVar ''A'' ''last'')"
    "envGet (instrumentContainer sampleDeps sampleMutator emptyMeta ?c ?env False) ''B'' = Some (plainVar ''B'' ''own'')"
    using fixed_vars_win [of sampleDeps sampleMutator emptyMeta ?c ?env False] n by (simp_all add: envGet_def)
  then show ?thesis
    using fixed_vars_win [of sampleDeps sampleMutator emptyMeta ?c ?env False] by (simp add: Let_def ld)
qed

section \<open>Order of the downward-API variables\<close>

lemma fieldStage_precedes:
  "n \<in> {envInjectorOtelK8sNamespaceName, envInjectorOtelK8sPodName, envOtelK8sNodeName} \<Longrightarrow>
    precedes n envInjectorOtelExtraResourceAttrs (envNames (fieldStage pm c))"
  by (auto simp: fieldStage_def Let_def intro!: env_precedes) (simp_all add: env_name_defs)

lemma fieldStage_precedes_IP:
  "AddK8sIPAttribute (sd_Resources (pm_Cfg pm)) \<Longrightarrow>
    precedes envOtelK8sPodIP envInjectorOtelExtraResourceAttrs (envNames (fieldStage pm c))"
  by (auto simp: fieldStage_def Let_def intro!: env_precedes) (simp_all add: env_name_defs)

lemma precedes_addEnvVars:
  "precedes a b (envNames (fieldStage pm (fixedStage pm c vs))) \<Longrightarrow>
    precedes a b (envNames (addEnvVars d pm meta c vs skip))"
  by (simp add: addEnvVars_stages serviceStage_def Let_def env_precedes)

text \<open>
  C34. The downward-API variables that the combined resource attributes refer to (namespace,
  pod name, node name, and the pod IP when it is added) always stand before the combined
  variable, whatever order the container and the rule had, so the kubelet expands them.
\<close>

theorem downward_before_attrs:
  "(\<forall>n\<in>{envInjectorOtelK8sNamespaceName, envInjectorOtelK8sPodName, envOtelK8sNodeName}.
     precedes n envInjectorOtelExtraResourceAttrs (envNames (instrumentContainer d pm meta c ruleEnv skip)))
   \<and> (AddK8sIPAttribute (sd_Resources (pm_Cfg pm)) \<longrightarrow>
     precedes envOtelK8sPodIP envInjectorOtelExtraResourceAttrs
       (envNames (instrumentContainer d pm meta c ruleEnv skip)))"
  using fieldStage_precedes fieldStage_precedes_IP
  by (auto simp: instrumentContainer_def intro!: precedes_addEnvVars)

theorem downward_before_attrs_witness:
  "precedes envInjectorOtelK8sPodName envInjectorOtelExtraResourceAttrs
     (envNames (instrumentContainer sampleDeps sampleMutator emptyMeta
       (emptyContainer\<lparr>ct_Env := [plainVar envInjectorOtelExtraResourceAttrs ''old=value'',
          plainVar envInjectorOtelK8sPodName ''stale'']\<rparr>) [] False))"
  using downward_before_attrs by blast

section \<open>The combined resource attributes\<close>

lemma gm_put_nonempty [simp]: "gm_put k v m \<noteq> []"
  by (cases m) auto

lemma annotationAttrs_nonempty: "extra \<noteq> [] \<Longrightarrow> annotationAttrs anns extra \<noteq> []"
  by (induction anns extra rule: annotationAttrs.induct) (auto split: option.split)

lemma ownAttrs_nonempty: "ownAttrs d pm meta \<noteq> []"
  by (simp add: ownAttrs_def Let_def)

lemma finalAttrs_nonempty: "finalAttrs d pm meta cname skip \<noteq> []"
  by (simp add: finalAttrs_def podAttrs_def computedAttrs_def Let_def annotationAttrs_nonempty ownAttrs_nonempty)

lemma renderAttrs_nonempty: "extra \<noteq> [] \<Longrightarrow> renderAttrs extra \<noteq> ''''"
proof -
  assume "extra \<noteq> []"
  then have "set (sort (gm_keys extra)) \<noteq> {}" by simp
  then obtain k ks where "sort (gm_keys extra) = k # ks"
    by (cases "sort (gm_keys extra)") simp_all
  then show ?thesis by (cases ks) (simp_all add: renderAttrs_def)
qed

lemma attrs_untouched:
  "envInjectorOtelExtraResourceAttrs \<notin> set fixedNames \<and> envInjectorOtelExtraResourceAttrs \<notin> set fieldNames
    \<and> envInjectorOtelExtraResourceAttrs \<notin> set serviceNames \<and> envInjectorOtelExtraResourceAttrs \<notin> set sdkNames"
  using injectorNames_distinct by (auto simp: injectorNames_def)

lemma attrs_value:
  "envGet (instrumentContainer d pm meta c ruleEnv skip) envInjectorOtelExtraResourceAttrs =
    (case envGet (applyEnvVars c ruleEnv) envInjectorOtelExtraResourceAttrs of
       None \<Rightarrow> Some (plainVar envInjectorOtelExtraResourceAttrs (renderAttrs (finalAttrs d pm meta (ct_Name c) skip)))
     | Some v \<Rightarrow> (if ev_Value v = ''''
         then Some (plainVar envInjectorOtelExtraResourceAttrs (renderAttrs (finalAttrs d pm meta (ct_Name c) skip)))
         else Some (v\<lparr>ev_Value := ev_Value v @ '','' @ renderAttrs (finalAttrs d pm meta (ct_Name c) skip)\<rparr>)))"
proof -
  have "envGet (applyEnvVars (addMount c) ruleEnv) envInjectorOtelExtraResourceAttrs
      = envGet (applyEnvVars c ruleEnv) envInjectorOtelExtraResourceAttrs"
    by (simp add: envGet_applyEnvVars env_frame cong: option.case_cong)
  then show ?thesis
    by (simp add: instrumentContainer_def addEnvVars_stages envGet_disable_other envGet_inject
        envGet_serviceStage envGet_fieldStage envGet_fixedStage attrs_untouched env_frame
        finalAttrs_nonempty renderAttrs_nonempty split: option.split)
qed

text \<open>
  The per-pod attributes are appended to the static ones: with a non-empty value from the
  rule or the container, the combined variable is that value, a comma and the rendered
  attributes; otherwise it is the rendered attributes, and they are never empty.
\<close>

theorem resource_attributes_value:
  "renderAttrs (finalAttrs d pm meta (ct_Name c) skip) \<noteq> ''''
   \<and> map_option ev_Value (envGet (instrumentContainer d pm meta c ruleEnv skip) envInjectorOtelExtraResourceAttrs)
     = Some (case envGet (applyEnvVars c ruleEnv) envInjectorOtelExtraResourceAttrs of
         None \<Rightarrow> renderAttrs (finalAttrs d pm meta (ct_Name c) skip)
       | Some v \<Rightarrow> (if ev_Value v = '''' then '''' else ev_Value v @ '','')
           @ renderAttrs (finalAttrs d pm meta (ct_Name c) skip))"
  unfolding attrs_value
  by (auto simp: renderAttrs_nonempty finalAttrs_nonempty split: option.split)

text \<open>
  Instrumenting is not idempotent on the combined variable. When the rule does not set
  it, instrumenting a container a second time appends the whole list of attributes again.
\<close>

theorem reinstrument_duplicates_attrs:
  assumes "first_with ev_Name envInjectorOtelExtraResourceAttrs (rev ruleEnv) = None"
    and "envGet c envInjectorOtelExtraResourceAttrs = None"
  shows "map_option ev_Value (envGet (instrumentContainer d pm meta
       (instrumentContainer d pm meta c ruleEnv skip) ruleEnv skip) envInjectorOtelExtraResourceAttrs)
     = Some (renderAttrs (finalAttrs d pm meta (ct_Name c) skip) @ '',''
         @ renderAttrs (finalAttrs d pm meta (ct_Name c) skip))"
proof -
  let ?c1 = "instrumentContainer d pm meta c ruleEnv skip"
  have name: "ct_Name ?c1 = ct_Name c"
    by (simp add: instrumentContainer_def addEnvVars_stages env_frame serviceStage_def Let_def)
  have first: "envGet ?c1 envInjectorOtelExtraResourceAttrs
      = Some (plainVar envInjectorOtelExtraResourceAttrs (renderAttrs (finalAttrs d pm meta (ct_Name c) skip)))"
    using assms by (simp add: attrs_value envGet_applyEnvVars)
  show ?thesis
    using assms(1)
    by (simp add: attrs_value [of d pm meta ?c1] envGet_applyEnvVars first name
        renderAttrs_nonempty finalAttrs_nonempty)
qed

theorem reinstrument_duplicates_attrs_witness:
  "instrumentContainer sampleDeps sampleMutator emptyMeta
     (instrumentContainer sampleDeps sampleMutator emptyMeta (emptyContainer\<lparr>ct_Name := ''app''\<rparr>) [] False) [] False
   \<noteq> instrumentContainer sampleDeps sampleMutator emptyMeta (emptyContainer\<lparr>ct_Name := ''app''\<rparr>) [] False"
proof -
  let ?c = "emptyContainer\<lparr>ct_Name := ''app''\<rparr>"
  have h: "envGet ?c envInjectorOtelExtraResourceAttrs = None"
    by (simp add: envGet_def emptyContainer_def)
  note twice = reinstrument_duplicates_attrs [OF _ h, of "[]" sampleDeps sampleMutator emptyMeta False]
  show ?thesis
    using twice attrs_value [of sampleDeps sampleMutator emptyMeta ?c "[]" False] h
    by (auto simp: envGet_applyEnvVars)
qed

section \<open>Names stay distinct\<close>

lemma distinct_addEnvVars: "distinct (envNames c) \<Longrightarrow> distinct (envNames (addEnvVars d pm meta c vs skip))"
  by (simp add: addEnvVars_stages serviceStage_def fieldStage_def fixedStage_def Let_def env_distinct)

text \<open>
  Well-formedness: if the variables of a container have distinct names and so do its
  mounts, they still do after instrumenting it, and the SDK volume is mounted read-only.
\<close>

theorem instrument_keeps_names_distinct:
  assumes "distinct (envNames c)" "distinct (map vm_Name (ct_VolumeMounts c))"
  shows "distinct (envNames (instrumentContainer d pm meta c ruleEnv skip))
    \<and> distinct (map vm_Name (ct_VolumeMounts (instrumentContainer d pm meta c ruleEnv skip)))
    \<and> first_with vm_Name injectVolumeName (ct_VolumeMounts (instrumentContainer d pm meta c ruleEnv skip))
        = Some injectMount"
proof -
  have m: "ct_VolumeMounts (instrumentContainer d pm meta c ruleEnv skip)
      = upsert vm_Name injectMount (ct_VolumeMounts c)"
    by (simp add: instrumentContainer_def addEnvVars_stages env_frame serviceStage_def Let_def addMount_upsert)
  have n: "vm_Name injectMount = injectVolumeName" by (simp add: injectMount_def)
  show ?thesis
    unfolding m using assms mnt.lookup_same [of injectMount] n
    by (simp add: instrumentContainer_def distinct_addEnvVars env_frame mnt.distinct_put)
qed

theorem instrument_keeps_names_distinct_witness:
  "distinct (envNames (instrumentContainer sampleDeps sampleMutator emptyMeta
     (emptyContainer\<lparr>ct_Env := [plainVar ''A'' ''1'', plainVar envVarLdPreloadName ''x'']\<rparr>)
     [plainVar ''A'' ''2'', plainVar ''B'' ''3''] True))"
  by (rule instrument_keeps_names_distinct [THEN conjunct1])
    (simp_all add: envNames_def emptyContainer_def env_name_defs)

section \<open>Annotations, and independence of map order\<close>

lemma annotationAttrs_get:
  "gm_ok anns \<Longrightarrow> gm_get (annotationAttrs anns extra) a =
    (case gm_get anns (ResourceAttributeAnnotationPrefix @ a) of Some v \<Rightarrow> Some v | None \<Rightarrow> gm_get extra a)"
proof (induction anns extra rule: annotationAttrs.induct)
  case (1 extra)
  then show ?case by simp
next
  case (2 k v rest extra)
  from 2(2) have rest: "gm_ok rest" "gm_get rest k = None"
    by (auto simp: gm_ok_def map_of_eq_None_iff)
  show ?case
  proof (cases "cutPrefix k ResourceAttributeAnnotationPrefix")
    case None
    then have "k \<noteq> ResourceAttributeAnnotationPrefix @ a" by auto
    with 2(1) [OF rest(1)] None show ?thesis by (simp cong: option.case_cong)
  next
    case (Some b)
    then have "k = ResourceAttributeAnnotationPrefix @ b" by (simp add: cutPrefix_Some)
    with 2(1) [OF rest(1)] rest(2) Some show ?thesis
      by (auto simp: gomap_simps cong: option.case_cong split: option.split)
  qed
qed

lemma annotationAttrs_ok: "gm_ok extra \<Longrightarrow> gm_ok (annotationAttrs anns extra)"
  by (induction anns extra rule: annotationAttrs.induct) (auto simp: gm_ok_put split: option.split)

lemma fold_putOwner_ok: "gm_ok m \<Longrightarrow> gm_ok (fold (\<lambda>x. putOwner sc (f x) (g x)) xs m)"
  by (induction xs arbitrary: m) (simp_all add: putOwner_def gm_ok_put Let_def)

lemma ownAttrs_ok: "gm_ok (ownAttrs d pm meta)"
  by (simp add: ownAttrs_def Let_def addParentResourceLabels_def gm_ok_put fold_putOwner_ok)

lemma finalAttrs_ok: "gm_ok (finalAttrs d pm meta cname skip)"
  by (simp add: finalAttrs_def podAttrs_def computedAttrs_def Let_def annotationAttrs_ok gm_ok_put ownAttrs_ok)

lemma renderAttrs_cong:
  "gm_ok m \<Longrightarrow> gm_ok m' \<Longrightarrow> gm_get m = gm_get m' \<Longrightarrow> renderAttrs m = renderAttrs m'"
  by (simp add: renderAttrs_def gm_sort_keys [of m m'] gm_str_def)

text \<open>Two metadata values that differ at most in the order of their maps.\<close>

definition sameMeta :: "objectMeta \<Rightarrow> objectMeta \<Rightarrow> bool" where
  "sameMeta m m' = (om_Name m = om_Name m' \<and> om_OwnerReferences m = om_OwnerReferences m'
     \<and> gm_ok (om_Annotations m) \<and> gm_ok (om_Annotations m')
     \<and> gm_get (om_Annotations m) = gm_get (om_Annotations m') \<and> gm_get (om_Labels m) = gm_get (om_Labels m'))"

lemma gm_str_cong: "gm_get m = gm_get m' \<Longrightarrow> gm_str m = gm_str m'"
  by (rule ext) (simp add: gm_str_def)

lemma choose_cong: "sameMeta m m' \<Longrightarrow> chooseLabelOrAnnotation m = chooseLabelOrAnnotation m'"
proof -
  assume "sameMeta m m'"
  then have eqs: "gm_str (om_Annotations m) = gm_str (om_Annotations m')" "gm_str (om_Labels m) = gm_str (om_Labels m')"
    unfolding sameMeta_def by (metis gm_str_cong)+
  show ?thesis by (rule ext)+ (simp only: chooseLabelOrAnnotation_def eqs)
qed

lemma ownAttrs_cong: "sameMeta m m' \<Longrightarrow> ownAttrs d pm m = ownAttrs d pm m'"
  by (simp add: ownAttrs_def addParentResourceLabels_def ownersFrom_def sameMeta_def Let_def)

lemma serviceStage_cong: "sameMeta m m' \<Longrightarrow> serviceStage d pm m c = serviceStage d pm m' c"
  by (simp add: serviceStage_def chooseServiceNamespace_def chooseServiceName_def
      chooseServiceVersion_def choose_cong [of m m'] ownAttrs_cong [of m m'])

lemma finalAttrs_cong:
  assumes "sameMeta m m'"
  shows "gm_get (finalAttrs d pm m cname skip) = gm_get (finalAttrs d pm m' cname skip)"
proof -
  have p: "gm_get (podAttrs d pm m cname) = gm_get (podAttrs d pm m' cname)"
    using assms choose_cong [OF assms] ownAttrs_cong [OF assms]
    by (simp add: podAttrs_def computedAttrs_def Let_def createServiceInstanceId_def fun_eq_iff sameMeta_def annotationAttrs_get)
  then show ?thesis by (simp add: finalAttrs_def fun_eq_iff gomap_simps)
qed

lemma inject_cong: "renderAttrs m = renderAttrs m' \<Longrightarrow> m \<noteq> [] \<Longrightarrow> m' \<noteq> [] \<Longrightarrow> injectEnvVars m c = injectEnvVars m' c"
  by (simp add: injectEnvVars_def)

text \<open>
  C35. Instrumentation is deterministic: although the code ranges over Go maps, the order of
  the pod's labels and annotations has no influence on the instrumented container, so two
  admissions of the same pod give the same bytes.
\<close>

theorem instrument_deterministic:
  assumes "sameMeta m m'"
  shows "instrumentContainer d pm m c ruleEnv skip = instrumentContainer d pm m' c ruleEnv skip"
proof -
  have "renderAttrs (finalAttrs d pm m cn skip) = renderAttrs (finalAttrs d pm m' cn skip)" for cn
    by (rule renderAttrs_cong [OF finalAttrs_ok finalAttrs_ok finalAttrs_cong [OF assms]])
  then have "injectEnvVars (finalAttrs d pm m cn skip) x = injectEnvVars (finalAttrs d pm m' cn skip) x" for cn x
    by (rule inject_cong [OF _ finalAttrs_nonempty finalAttrs_nonempty])
  then show ?thesis
    unfolding instrumentContainer_def addEnvVars_stages serviceStage_cong [OF assms] by simp
qed

theorem instrument_deterministic_witness:
  "instrumentContainer sampleDeps sampleMutator
     (emptyMeta\<lparr>om_Annotations := [(''a'', ''1''), (''resource.opentelemetry.io/b'', ''2'')]\<rparr>) emptyContainer [] True
   = instrumentContainer sampleDeps sampleMutator
     (emptyMeta\<lparr>om_Annotations := [(''resource.opentelemetry.io/b'', ''2''), (''a'', ''1'')]\<rparr>) emptyContainer [] True"
  by (rule instrument_deterministic) (auto simp: sameMeta_def emptyMeta_def gm_ok_def fun_eq_iff)

text \<open>
  Annotations have the last word: an attribute given by a pod annotation with the
  resource prefix has that value among the pod's attributes, whatever the code computed for
  the same key; and every other attribute is one the code computed.
\<close>

theorem annotation_attributes_win:
  assumes "gm_ok (om_Annotations meta)"
  shows "gm_get (podAttrs d pm meta cname) a =
    (case gm_get (om_Annotations meta) (ResourceAttributeAnnotationPrefix @ a) of
       Some v \<Rightarrow> Some v | None \<Rightarrow> gm_get (computedAttrs d pm meta cname) a)"
  by (simp add: podAttrs_def annotationAttrs_get [OF assms])

theorem annotation_attributes_win_witness:
  "gm_get (podAttrs sampleDeps sampleMutator
     (emptyMeta\<lparr>om_Annotations := [(''resource.opentelemetry.io/k8s.node.name'', ''mine'')]\<rparr>) ''app'')
     ''k8s.node.name'' = Some ''mine''"
  using annotation_attributes_win [of "emptyMeta\<lparr>om_Annotations :=
      [(''resource.opentelemetry.io/k8s.node.name'', ''mine'')]\<rparr>" sampleDeps sampleMutator "''app''" "''k8s.node.name''"]
  by (simp add: gm_ok_def ResourceAttributeAnnotationPrefix_def)

end
