(* ===== verification/MutatorPayload.thy ===== *)
theory MutatorPayload
  imports MutatorProps
begin

text \<open>
  More properties of \<open>mutator.go\<close>: the service name of a Deployment's pod, owner names
  overwritten by their UIDs, the volume and the init container that deliver the SDK, the
  languages that are switched off, and a preload that comes from a reference.
\<close>

section \<open>Service names\<close>

definition semconvKeys :: "semconv \<Rightarrow> string list" where
  "semconvKeys sc = [ServiceNameKey sc, ServiceNamespaceKey sc, ServiceVersionKey sc, ServiceInstanceIDKey sc,
     K8SNodeNameKey sc, K8SPodIPKey sc, K8SDeploymentNameKey sc, K8SReplicaSetNameKey sc,
     K8SStatefulSetNameKey sc, K8SDaemonSetNameKey sc, K8SCronJobNameKey sc, K8SJobNameKey sc,
     SkipSpanMetrics sc]"

text \<open>What the code relies on: the keys are non-empty and all different.\<close>

definition semconv_ok :: "semconv \<Rightarrow> bool" where
  "semconv_ok sc = ('''' \<notin> set (semconvKeys sc) \<and> distinct (semconvKeys sc))"

lemma otelSemconv_ok: "semconv_ok otelSemconv"
  by (simp add: semconv_ok_def semconvKeys_def otelSemconv_def)

lemma toLower_kinds:
  "toLower ''ReplicaSet'' = ''replicaset''" "toLower ''Deployment'' = ''deployment''"
  "toLower ''StatefulSet'' = ''statefulset''"
  by code_simp+

lemma getResourceAttribute_kinds:
  "getResourceAttribute sc ''ReplicaSet'' = K8SReplicaSetNameKey sc"
  "getResourceAttribute sc ''Deployment'' = K8SDeploymentNameKey sc"
  "getResourceAttribute sc ''StatefulSet'' = K8SStatefulSetNameKey sc"
  by (simp_all add: getResourceAttribute_def toLower_kinds)

text \<open>What the two properties below need of the keys, and of the pod's own attributes.\<close>

lemma semconv_diff:
  assumes "semconv_ok sc"
  shows "K8SDeploymentNameKey sc \<noteq> ''''" "K8SReplicaSetNameKey sc \<noteq> ''''" "K8SStatefulSetNameKey sc \<noteq> ''''"
    "K8SDeploymentNameKey sc \<noteq> K8SReplicaSetNameKey sc" "K8SDeploymentNameKey sc \<noteq> K8SStatefulSetNameKey sc"
    "K8SReplicaSetNameKey sc \<noteq> K8SStatefulSetNameKey sc"
    "K8SDeploymentNameKey sc \<noteq> K8SNodeNameKey sc" "K8SReplicaSetNameKey sc \<noteq> K8SNodeNameKey sc"
    "K8SStatefulSetNameKey sc \<noteq> K8SNodeNameKey sc" "K8SDeploymentNameKey sc \<noteq> K8SPodIPKey sc"
    "K8SReplicaSetNameKey sc \<noteq> K8SPodIPKey sc" "K8SStatefulSetNameKey sc \<noteq> K8SPodIPKey sc"
  using assms unfolding semconv_ok_def semconvKeys_def by auto

lemma ownAttrs_get:
  "k \<noteq> K8SNodeNameKey (md_semconv d) \<Longrightarrow> k \<noteq> K8SPodIPKey (md_semconv d) \<Longrightarrow>
    gm_get (ownAttrs d pm meta) k =
    gm_get (addParentResourceLabels (md_semconv d) meta [] (AddK8sUIDAttributes (sd_Resources (pm_Cfg pm)))) k"
  by (simp add: ownAttrs_def Let_def gomap_simps)

text \<open>
  Service name of a Deployment's pod: with a ReplicaSet owner named deployment-hash and
  neither a service-name annotation nor label naming, the service is named after the
  deployment, with or without UID attributes.
\<close>

theorem deployment_service_name:
  assumes "semconv_ok (md_semconv d)"
    and "om_OwnerReferences meta = [r]" "or_APIVersion r = ''apps/v1''" "or_Kind r = ''ReplicaSet''"
    and "or_Name r = dep @ ''-'' @ hash" "CHR ''-'' \<notin> set hash" "dep \<noteq> ''''"
    and "gm_str (om_Annotations meta) (ResourceAttributeAnnotationPrefix @ ServiceNameKey (md_semconv d)) = ''''"
  shows "chooseServiceName (md_semconv d) meta False podName (ownAttrs d pm meta) = dep"
proof -
  have g: "guessedOwner r = Some \<lparr>ow_Kind = ''Deployment'', ow_Name = dep\<rparr>"
    using assms(3-7) lastIndexByte_append [of "CHR ''-''" hash dep] by (simp add: guessedOwner_def)
  have "gm_str (ownAttrs d pm meta) (K8SDeploymentNameKey (md_semconv d)) = dep"
    using semconv_diff [OF assms(1)] assms(2,4)
    by (simp add: gm_str_def ownAttrs_get addParentResourceLabels_def ownersFrom_def g putOwner_def
        getResourceAttribute_kinds gomap_simps Let_def)
  with assms(7,8) show ?thesis by (simp add: chooseServiceName_def chooseLabelOrAnnotation_def)
qed

theorem deployment_service_name_witness:
  "chooseServiceName otelSemconv (emptyMeta\<lparr>om_OwnerReferences := [\<lparr>or_APIVersion = ''apps/v1'',
      or_Kind = ''ReplicaSet'', or_Name = ''web-api-5d9f'', or_UID = ''u1'', or_Controller = Some True\<rparr>]\<rparr>) False ''p''
    (ownAttrs sampleDeps sampleMutator (emptyMeta\<lparr>om_OwnerReferences := [\<lparr>or_APIVersion = ''apps/v1'',
      or_Kind = ''ReplicaSet'', or_Name = ''web-api-5d9f'', or_UID = ''u1'', or_Controller = Some True\<rparr>]\<rparr>)) = ''web-api''"
  using deployment_service_name [of sampleDeps "emptyMeta\<lparr>om_OwnerReferences := [\<lparr>or_APIVersion = ''apps/v1'',
      or_Kind = ''ReplicaSet'', or_Name = ''web-api-5d9f'', or_UID = ''u1'', or_Controller = Some True\<rparr>]\<rparr>"
      _ "''web-api''" "''5d9f''" "''p''" sampleMutator]
  by (simp add: sampleDeps_def otelSemconv_ok emptyMeta_def)

text \<open>
  A defect the model exposes: with UID attributes switched on, the UID of an owner is
  stored under the key of the owner's name. A pod of a StatefulSet then gets the UID as the
  value of the attribute k8s.statefulset.name, and as its service name.
\<close>

theorem uid_overwrites_owner_name:
  assumes "semconv_ok (md_semconv d)" "AddK8sUIDAttributes (sd_Resources (pm_Cfg pm))"
    and "om_OwnerReferences meta = [r]" "or_Kind r = ''StatefulSet''" "or_UID r \<noteq> ''''"
    and "gm_str (om_Annotations meta) (ResourceAttributeAnnotationPrefix @ ServiceNameKey (md_semconv d)) = ''''"
  shows "gm_get (ownAttrs d pm meta) (K8SStatefulSetNameKey (md_semconv d)) = Some (or_UID r)
    \<and> chooseServiceName (md_semconv d) meta False podName (ownAttrs d pm meta) = or_UID r"
proof -
  have g: "guessedOwner r = None" using assms(4) by (simp add: guessedOwner_def)
  have own: "gm_get (ownAttrs d pm meta) k = (if k = K8SStatefulSetNameKey (md_semconv d) then Some (or_UID r) else None)"
    if "k \<noteq> K8SNodeNameKey (md_semconv d)" "k \<noteq> K8SPodIPKey (md_semconv d)" for k
    using that semconv_diff(3) [OF assms(1)] assms(2-4)
    by (simp add: ownAttrs_get addParentResourceLabels_def ownersFrom_def g putOwner_def
        getResourceAttribute_kinds gomap_simps Let_def)
  show ?thesis
    using semconv_diff [OF assms(1)] assms(5,6)
    by (simp add: own gm_str_def chooseServiceName_def chooseLabelOrAnnotation_def Let_def)
qed

lemma sample_keys: "semconv_ok (md_semconv sampleDeps)" "K8SStatefulSetNameKey (md_semconv sampleDeps) = ''k8s.statefulset.name''"
  by (simp_all add: sampleDeps_def otelSemconv_ok) (simp add: otelSemconv_def)

theorem uid_overwrites_owner_name_witness:
  "gm_get (ownAttrs sampleDeps \<lparr>pm_Cfg = (sampleSDK ''1'')\<lparr>sd_Resources := \<lparr>AddK8sUIDAttributes = True,
       AddK8sIPAttribute = False, UseLabelsForResourceAttributes = False\<rparr>\<rparr>\<rparr>
     (emptyMeta\<lparr>om_OwnerReferences := [\<lparr>or_APIVersion = ''apps/v1'', or_Kind = ''StatefulSet'',
        or_Name = ''db'', or_UID = ''7f0c'', or_Controller = Some True\<rparr>]\<rparr>)) ''k8s.statefulset.name'' = Some ''7f0c''"
  using uid_overwrites_owner_name [of sampleDeps "\<lparr>pm_Cfg = (sampleSDK ''1'')\<lparr>sd_Resources :=
      \<lparr>AddK8sUIDAttributes = True, AddK8sIPAttribute = False, UseLabelsForResourceAttributes = False\<rparr>\<rparr>\<rparr>"
      "emptyMeta\<lparr>om_OwnerReferences := [\<lparr>or_APIVersion = ''apps/v1'', or_Kind = ''StatefulSet'',
        or_Name = ''db'', or_UID = ''7f0c'', or_Controller = Some True\<rparr>]\<rparr>"]
  by (simp add: sample_keys emptyMeta_def)

section \<open>Volumes and the copy init container\<close>

text \<open>The two steps on the pod's specification, in the order of the webhook.\<close>

definition prepareSpec :: "podMutator \<Rightarrow> podSpec \<Rightarrow> podSpec" where
  "prepareSpec pm spec = addCopyInitContainerIfNeeded pm (mountVolume pm spec)"

lemma prepareSpec_upsert: "prepareSpec pm spec = spec\<lparr>
    ps_Volumes := upsert vol_Name (buildVolumeDefinition pm) (ps_Volumes spec),
    ps_InitContainers := (if usesInitContainer pm then upsert ct_Name (copyInitContainer pm) (ps_InitContainers spec)
       else ps_InitContainers spec)\<rparr>"
  by (simp add: prepareSpec_def mountVolume_upsert addCopyInitContainer_upsert)

lemma injected_names [simp]:
  "vol_Name (buildVolumeDefinition pm) = injectVolumeName"
  "ct_Name (copyInitContainer pm) = injectInitContainerName"
  by (simp_all add: buildVolumeDefinition_def copyInitContainer_def)

text \<open>
  C36. The payload reaches the pod in one of two ways, and repeating the step changes nothing:
  in image mode the SDK volume is the image and the init containers are untouched; in every
  other mode (also an unresolved auto) it is an emptyDir and an init container of the same
  image is there to fill it. All other volumes and init containers keep their place and value.
\<close>

theorem payload_delivery:
  "prepareSpec pm (prepareSpec pm spec) = prepareSpec pm spec
   \<and> first_with vol_Name injectVolumeName (ps_Volumes (prepareSpec pm spec)) = Some \<lparr>vol_Name = injectVolumeName,
       vol_Source = (if sd_InjectionMode (pm_Cfg pm) = InjectionModeImage
         then ImageVolume (ImageVolumePath (pm_Cfg pm)) PullIfNotPresent else EmptyDir EphemeralVolumeSize)\<rparr>
   \<and> filter (\<lambda>v. vol_Name v \<noteq> injectVolumeName) (ps_Volumes (prepareSpec pm spec))
     = filter (\<lambda>v. vol_Name v \<noteq> injectVolumeName) (ps_Volumes spec)
   \<and> (if sd_InjectionMode (pm_Cfg pm) = InjectionModeImage
      then ps_InitContainers (prepareSpec pm spec) = ps_InitContainers spec
      else first_with ct_Name injectInitContainerName (ps_InitContainers (prepareSpec pm spec)) = Some (copyInitContainer pm)
        \<and> ct_Image (copyInitContainer pm) = ImageVolumePath (pm_Cfg pm)
        \<and> filter (\<lambda>c. ct_Name c \<noteq> injectInitContainerName) (ps_InitContainers (prepareSpec pm spec))
          = filter (\<lambda>c. ct_Name c \<noteq> injectInitContainerName) (ps_InitContainers spec))
   \<and> ps_Containers (prepareSpec pm spec) = ps_Containers spec"
proof -
  have v: "first_with vol_Name injectVolumeName (upsert vol_Name (buildVolumeDefinition pm) vs)
      = Some (buildVolumeDefinition pm)" for vs
    using vol.lookup_same [of "buildVolumeDefinition pm"] by simp
  have c: "first_with ct_Name injectInitContainerName (upsert ct_Name (copyInitContainer pm) cs)
      = Some (copyInitContainer pm)" for cs
    using ctn.lookup_same [of "copyInitContainer pm"] by simp
  have img: "ct_Image (copyInitContainer pm) = ImageVolumePath (pm_Cfg pm)"
    by (simp add: copyInitContainer_def)
  have b: "buildVolumeDefinition pm = \<lparr>vol_Name = injectVolumeName,
       vol_Source = (if sd_InjectionMode (pm_Cfg pm) = InjectionModeImage
         then ImageVolume (ImageVolumePath (pm_Cfg pm)) PullIfNotPresent else EmptyDir EphemeralVolumeSize)\<rparr>"
    by (simp add: buildVolumeDefinition_def usesInitContainer_def)
  show ?thesis
    unfolding prepareSpec_upsert b [symmetric]
    by (simp add: upsert_idem v c img upsert_filter usesInitContainer_def)
qed

section \<open>Disabled languages\<close>

lemma sdk_untouched: "k \<in> set sdkNames \<Longrightarrow> k \<notin> set fixedNames \<and> k \<notin> set fieldNames \<and> k \<notin> set serviceNames
    \<and> k \<noteq> envInjectorOtelExtraResourceAttrs"
  using injectorNames_distinct by (auto simp: injectorNames_def)

definition sdkVar :: "instrumentableType \<Rightarrow> string" where
  "sdkVar l = (case l of Dotnet \<Rightarrow> envDotnetEnabledName | Java \<Rightarrow> envJavaEnabledName
     | Nodejs \<Rightarrow> envNodejsEnabledName | Python \<Rightarrow> envPythonEnabledName | OtherLang s \<Rightarrow> '''')"

text \<open>
  A supported language is switched off, by an empty agent path that overrides the rule
  and the container, exactly when it is not among the enabled SDKs; an enabled language's
  variable is the rule's or the container's own.
\<close>

theorem sdk_disabled_iff_not_enabled:
  assumes "l \<in> {Dotnet, Java, Nodejs, Python}"
  shows "envGet (instrumentContainer d pm meta c ruleEnv skip) (sdkVar l) =
    (if (\<exists>ks. sd_EnabledSDKs (pm_Cfg pm) = Some ks \<and> l \<in> set ks)
     then envGet (applyEnvVars c ruleEnv) (sdkVar l) else Some (plainVar (sdkVar l) ''''))"
proof -
  have can: "CanInstrument pm l \<longleftrightarrow> (\<exists>ks. sd_EnabledSDKs (pm_Cfg pm) = Some ks \<and> l \<in> set ks)" for l
    by (auto simp: CanInstrument_def list_ex_iff split: option.split)
  have sep: "sdkVar l = envDotnetEnabledName \<longleftrightarrow> l = Dotnet" "sdkVar l = envJavaEnabledName \<longleftrightarrow> l = Java"
    "sdkVar l = envNodejsEnabledName \<longleftrightarrow> l = Nodejs" "sdkVar l = envPythonEnabledName \<longleftrightarrow> l = Python"
    using assms by (auto simp: sdkVar_def env_name_defs)
  have "sdkVar l \<in> set sdkNames" using assms by (auto simp: sdkVar_def sdkNames_def)
  note u = sdk_untouched [OF this]
  have "envGet (applyEnvVars (addMount c) ruleEnv) (sdkVar l) = envGet (applyEnvVars c ruleEnv) (sdkVar l)"
    by (simp add: envGet_applyEnvVars env_frame cong: option.case_cong)
  then show ?thesis
    unfolding can [symmetric] using u assms
    by (simp add: instrumentContainer_def addEnvVars_stages envGet_disable sep envGet_inject_other
        envGet_serviceStage envGet_fieldStage envGet_fixedStage) blast
qed

theorem sdk_disabled_iff_not_enabled_witness:
  "envGet (instrumentContainer sampleDeps sampleMutator emptyMeta emptyContainer [] False) envPythonEnabledName
    = Some (plainVar envPythonEnabledName '''')"
  using sdk_disabled_iff_not_enabled [of Python sampleDeps sampleMutator emptyMeta emptyContainer "[]" False]
  by (simp add: sdkVar_def sampleMutator_def sampleSDK_def)

section \<open>A preload that comes from a reference\<close>

text \<open>
  A gap the model exposes: an LD_PRELOAD that the pod takes from a ConfigMap, a Secret or
  another reference has an empty literal value, so it is not seen as a conflict, and
  instrumenting the container replaces it.
\<close>

theorem referenced_preload_is_clobbered:
  assumes "envGet c envVarLdPreloadName = Some \<lparr>ev_Name = envVarLdPreloadName, ev_Value = '''', ev_ValueFrom = Some src\<rparr>"
  shows "\<not> isLDPreloadConflict c
    \<and> envGet (instrumentContainer d pm meta c ruleEnv skip) envVarLdPreloadName
      = Some (plainVar envVarLdPreloadName envVarLdPreloadValue)"
  using assms by (simp add: isLDPreloadConflict_envGet ld_preload_fixed)

theorem referenced_preload_is_clobbered_witness:
  "\<not> isLDPreloadConflict (emptyContainer\<lparr>ct_Env := [\<lparr>ev_Name = ''LD_PRELOAD'', ev_Value = '''',
      ev_ValueFrom = Some (OtherSource ''secretKeyRef'')\<rparr>]\<rparr>)"
  by (rule referenced_preload_is_clobbered [THEN conjunct1, of _ "OtherSource ''secretKeyRef''"])
    (simp add: envGet_def env_name_defs)

end
