(* ===== verification/Podinfo.thy ===== *)
theory Podinfo
  imports Registry
begin

text \<open>
  \<open>internal/podinfo/podinfo.go\<close>: resolving a pod's chain of owners. The client is the
  parameter \<open>rd\<close>: what a \<open>Get\<close> of a ReplicaSet by namespace and name answers, as the
  owner references of the ReplicaSet that was found. The log line of a failed lookup is
  left out; a failed lookup ends the chain either way.
\<close>

type_synonym reader = "string \<Rightarrow> string \<Rightarrow> ownerRef list getResult"

definition kindDeployment :: string where
  "kindDeployment = ''Deployment''"

text \<open>The first reference flagged as controller; otherwise the first one, if any.\<close>

definition controllerRef :: "ownerRef list \<Rightarrow> ownerRef option" where
  "controllerRef refs =
    (case find (\<lambda>r. or_Controller r \<noteq> None \<and> the (or_Controller r)) refs of
       Some r \<Rightarrow> Some r
     | None \<Rightarrow> (case refs of r # rs \<Rightarrow> Some r | [] \<Rightarrow> None))"

definition Resolve :: "reader \<Rightarrow> pod \<Rightarrow> podInfo" where
  "Resolve rd p =
    (let m = pod_Meta p;
         info = \<lparr>pi_Name = om_Name m, pi_Namespace = om_Namespace m, pi_Labels = om_Labels m,
           pi_Annotations = om_Annotations m,
           pi_OwnerChain = [\<lparr>ow_Kind = ''Pod'', ow_Name = om_Name m\<rparr>]\<rparr>
     in case controllerRef (om_OwnerReferences m) of
          None \<Rightarrow> info
        | Some ref \<Rightarrow>
            (let info = info\<lparr>pi_OwnerChain := pi_OwnerChain info @ [\<lparr>ow_Kind = or_Kind ref, ow_Name = or_Name ref\<rparr>]\<rparr>
             in if or_Kind ref = ''ReplicaSet'' then
                  (case rd (om_Namespace m) (or_Name ref) of
                     NotFound \<Rightarrow> info
                   | GetErr e \<Rightarrow> info
                   | Found rsRefs \<Rightarrow>
                       (case controllerRef rsRefs of
                          Some rsOwner \<Rightarrow>
                            (if or_Kind rsOwner = kindDeployment
                             then info\<lparr>pi_OwnerChain := pi_OwnerChain info
                               @ [\<lparr>ow_Kind = kindDeployment, ow_Name = or_Name rsOwner\<rparr>]\<rparr>
                             else info)
                        | None \<Rightarrow> info))
                else info))"

definition Workload :: "podInfo \<Rightarrow> string \<times> string" where
  "Workload info =
    (let n = length (pi_OwnerChain info) in
     if n > 0 then (let top = pi_OwnerChain info ! (n - 1) in (ow_Kind top, ow_Name top))
     else (''Pod'', pi_Name info))"

section \<open>The shape of a resolved chain\<close>

lemma Resolve_fields [simp]:
  "pi_Name (Resolve rd p) = om_Name (pod_Meta p)"
  "pi_Namespace (Resolve rd p) = om_Namespace (pod_Meta p)"
  "pi_Labels (Resolve rd p) = om_Labels (pod_Meta p)"
  "pi_Annotations (Resolve rd p) = om_Annotations (pod_Meta p)"
  by (auto simp: Resolve_def Let_def split: option.splits getResult.splits)

lemma controllerRef_None: "controllerRef refs = None \<longleftrightarrow> refs = []"
  by (cases refs) (auto simp: controllerRef_def split: option.splits)

lemma controllerRef_Nil [simp]: "controllerRef [] = None"
  by (simp add: controllerRef_None)

lemma controllerRef_in: "controllerRef refs = Some r \<Longrightarrow> r \<in> set refs"
  by (auto simp: controllerRef_def find_Some_iff split: option.splits list.splits)

text \<open>A flagged controller wins over the order of the references.\<close>

lemma controllerRef_flagged:
  assumes "r \<in> set refs" "or_Controller r = Some True"
    "\<forall>r'\<in>set refs. or_Controller r' = Some True \<longrightarrow> r' = r"
  shows "controllerRef refs = Some r"
proof -
  obtain r0 where r0: "find (\<lambda>r. or_Controller r \<noteq> None \<and> the (or_Controller r)) refs = Some r0"
    using assms(1,2) by (cases "find (\<lambda>r. or_Controller r \<noteq> None \<and> the (or_Controller r)) refs")
      (auto simp: find_None_iff)
  then have "r0 \<in> set refs" "or_Controller r0 = Some True" by (auto simp: find_Some_iff)
  then have "r0 = r" using assms(3) by blast
  with r0 show ?thesis by (simp add: controllerRef_def)
qed

text \<open>
  The chain starts with the pod and has at most three links; the third one is a Deployment
  and only follows a ReplicaSet that could be read.
\<close>

lemma Resolve_chain_cases:
  obtains (bare) "om_OwnerReferences (pod_Meta p) = []"
      "pi_OwnerChain (Resolve rd p) = [\<lparr>ow_Kind = ''Pod'', ow_Name = om_Name (pod_Meta p)\<rparr>]"
  | (owned) ref where "controllerRef (om_OwnerReferences (pod_Meta p)) = Some ref"
      "pi_OwnerChain (Resolve rd p) = [\<lparr>ow_Kind = ''Pod'', ow_Name = om_Name (pod_Meta p)\<rparr>,
         \<lparr>ow_Kind = or_Kind ref, ow_Name = or_Name ref\<rparr>]"
  | (deployed) ref rsRefs rsOwner where "controllerRef (om_OwnerReferences (pod_Meta p)) = Some ref"
      "or_Kind ref = ''ReplicaSet''" "rd (om_Namespace (pod_Meta p)) (or_Name ref) = Found rsRefs"
      "controllerRef rsRefs = Some rsOwner" "or_Kind rsOwner = kindDeployment"
      "pi_OwnerChain (Resolve rd p) = [\<lparr>ow_Kind = ''Pod'', ow_Name = om_Name (pod_Meta p)\<rparr>,
         \<lparr>ow_Kind = ''ReplicaSet'', ow_Name = or_Name ref\<rparr>,
         \<lparr>ow_Kind = kindDeployment, ow_Name = or_Name rsOwner\<rparr>]"
proof (cases "controllerRef (om_OwnerReferences (pod_Meta p))")
  case None
  then show ?thesis by (intro bare) (simp_all add: controllerRef_None Resolve_def Let_def)
next
  case (Some ref)
  show ?thesis
  proof (cases "\<exists>rsRefs rsOwner. or_Kind ref = ''ReplicaSet''
      \<and> rd (om_Namespace (pod_Meta p)) (or_Name ref) = Found rsRefs
      \<and> controllerRef rsRefs = Some rsOwner \<and> or_Kind rsOwner = kindDeployment")
    case True
    then obtain rsRefs rsOwner where d: "or_Kind ref = ''ReplicaSet''"
      "rd (om_Namespace (pod_Meta p)) (or_Name ref) = Found rsRefs"
      "controllerRef rsRefs = Some rsOwner" "or_Kind rsOwner = kindDeployment" by blast
    show ?thesis by (rule deployed [OF Some d]) (simp add: Resolve_def Let_def Some d)
  next
    case False
    then show ?thesis
      by (intro owned [OF Some])
        (auto simp: Resolve_def Let_def Some split: getResult.splits option.splits)
  qed
qed

lemma Resolve_chain_nonempty: "pi_OwnerChain (Resolve rd p) \<noteq> []"
  by (rule Resolve_chain_cases [of p rd]) auto

section \<open>Properties\<close>

text \<open>
  The resolved chain starts with the pod itself, and \<open>Workload\<close> reports its last link:
  a Deployment if the chain reached one, else the controlling owner, else the pod. A lookup
  that fails, for whatever reason, gives the same chain as a ReplicaSet without an owner.
\<close>

theorem Resolve_chain:
  "hd (pi_OwnerChain (Resolve rd p)) = \<lparr>ow_Kind = ''Pod'', ow_Name = om_Name (pod_Meta p)\<rparr>
   \<and> length (pi_OwnerChain (Resolve rd p)) \<le> 3
   \<and> Workload (Resolve rd p) =
      (ow_Kind (last (pi_OwnerChain (Resolve rd p))), ow_Name (last (pi_OwnerChain (Resolve rd p))))
   \<and> Resolve (\<lambda>ns n. case rd ns n of Found refs \<Rightarrow> Found refs | NotFound \<Rightarrow> Found [] | GetErr e \<Rightarrow> Found []) p
      = Resolve rd p"
proof (intro conjI)
  show "hd (pi_OwnerChain (Resolve rd p)) = \<lparr>ow_Kind = ''Pod'', ow_Name = om_Name (pod_Meta p)\<rparr>"
    by (rule Resolve_chain_cases [of p rd]) auto
  show "length (pi_OwnerChain (Resolve rd p)) \<le> 3"
    by (rule Resolve_chain_cases [of p rd]) auto
  show "Workload (Resolve rd p) =
      (ow_Kind (last (pi_OwnerChain (Resolve rd p))), ow_Name (last (pi_OwnerChain (Resolve rd p))))"
    using Resolve_chain_nonempty [of rd p] by (simp add: Workload_def Let_def last_conv_nth)
  show "Resolve (\<lambda>ns n. case rd ns n of Found refs \<Rightarrow> Found refs | NotFound \<Rightarrow> Found [] | GetErr e \<Rightarrow> Found []) p
      = Resolve rd p"
    by (auto simp: Resolve_def Let_def controllerRef_None split: option.splits getResult.splits)
qed

end
