(* ===== verification/PodWebhook.thy ===== *)
theory PodWebhook
  imports MutatorPayload Podinfo
begin

text \<open>
  \<open>internal/webhook/v1/pod_webhook.go\<close>: the mutating admission handler of pods. The
  receiver is a record; the recorder of outcomes is an interface of the code and a locale
  here, interpreted on the counters of \<open>internal/metrics\<close> in theory \<open>Metrics\<close>. What belongs
  to Beyla (a selector's \<open>Match\<close> and a rule configuration's \<open>Hash\<close>) comes in one record of
  parameters that the controller and the collector share.

  A nil receiver field that is dereferenced panics. The log lines are left out.
\<close>

section \<open>The handler\<close>

record 'sel beylaLib =
  bl_match :: "'sel \<Rightarrow> matchInput \<Rightarrow> bool"
  bl_ruleHash :: "ruleConfig \<Rightarrow> 64 word"

type_synonym 'm requestRecorder = "string \<Rightarrow> string \<Rightarrow> string \<Rightarrow> string \<Rightarrow> 'm \<Rightarrow> 'm"

definition OutcomeSuccess :: string where
  "OutcomeSuccess = ''success''"

definition OutcomeNoMatchingSelector :: string where
  "OutcomeNoMatchingSelector = ''no_matching_selector''"

definition OutcomeNoSDKConfig :: string where
  "OutcomeNoSDKConfig = ''no_sdk_config''"

definition OutcomeAlreadyInstrumented :: string where
  "OutcomeAlreadyInstrumented = ''already_instrumented''"

definition OutcomeLDPreloadConflict :: string where
  "OutcomeLDPreloadConflict = ''ld_preload_conflict''"

lemmas outcome_defs = OutcomeSuccess_def OutcomeNoMatchingSelector_def OutcomeNoSDKConfig_def
  OutcomeAlreadyInstrumented_def OutcomeLDPreloadConflict_def

record ('sel, 'm) podCustomDefaulter =
  pcd_Registry :: "'sel registry"
  pcd_Reader :: reader
  pcd_Mutator :: "podMutator option"
  pcd_Metrics :: "'m requestRecorder option"

definition recordOutcome :: "('sel, 'm) podCustomDefaulter \<Rightarrow> podInfo \<Rightarrow> string \<Rightarrow> 'm \<Rightarrow> 'm" where
  "recordOutcome d info result m =
    (case pcd_Metrics d of
       None \<Rightarrow> m
     | Some RecordRequest \<Rightarrow>
         (let (kind, name) = Workload info in RecordRequest (pi_Namespace info) kind name result m))"

text \<open>
  The handler that is registered with the manager; the registration itself, which may fail,
  is the manager's.
\<close>

definition SetupPodWebhookWithManager :: "'sel registry \<Rightarrow> reader \<Rightarrow> podMutator option \<Rightarrow> 'm requestRecorder option
    \<Rightarrow> ('sel, 'm) podCustomDefaulter" where
  "SetupPodWebhookWithManager reg rd mutator recorder =
    \<lparr>pcd_Registry = reg, pcd_Reader = rd, pcd_Mutator = mutator, pcd_Metrics = recorder\<rparr>"

definition Default :: "'sel beylaLib \<Rightarrow> mutatorDeps \<Rightarrow> ('sel, 'm) podCustomDefaulter \<Rightarrow> pod \<Rightarrow> 'm \<Rightarrow> (pod \<times> 'm) goRun" where
  "Default lib deps d obj m =
    (let info = Resolve (pcd_Reader d) obj in
     case Match (bl_match lib) (pcd_Registry d) info of
       None \<Rightarrow> Returns (obj, recordOutcome d info OutcomeNoMatchingSelector m)
     | Some (rule, cmCfg) \<Rightarrow>
        (case pcd_Mutator d of
           None \<Rightarrow> Panic
         | Some shared \<Rightarrow>
            (let mutator = shared\<lparr>pm_Cfg := WithConfigMapOverrides (pm_Cfg shared) cmCfg\<rparr> in
             if sd_ImageVersion (pm_Cfg mutator) = ''''
             then Returns (obj, recordOutcome d info OutcomeNoSDKConfig m)
             else
               (case PodConfigHash (bl_ruleHash lib) (pm_Cfg mutator) (rule_Config rule) of
                  None \<Rightarrow> Panic
                | Some wantHash \<Rightarrow>
                   (if IsInstrumentedWithWantedConfig (pod_Spec obj) (pod_Meta obj) wantHash
                    then Returns (obj, recordOutcome d info OutcomeAlreadyInstrumented m)
                    else if PreloadsSomethingElse obj
                    then Returns (obj, recordOutcome d info OutcomeLDPreloadConflict m)
                    else
                      (let spanMetrics = (BPFGeneratesSpanMetrics (bl_match lib) (pcd_Registry d) info \<noteq> None);
                           spec = mountVolume mutator (pod_Spec obj);
                           spec = spec\<lparr>ps_Containers := map (\<lambda>c. instrumentContainer deps mutator (pod_Meta obj) c
                                    (rc_Env (rule_Config rule)) spanMetrics) (ps_Containers spec)\<rparr>;
                           spec = addCopyInitContainerIfNeeded mutator spec;
                           meta = (pod_Meta obj)\<lparr>om_Annotations :=
                                    gm_put InjectedAnnotation wantHash (om_Annotations (pod_Meta obj))\<rparr>
                       in Returns (obj\<lparr>pod_Meta := meta, pod_Spec := spec\<rparr>,
                            recordOutcome d info OutcomeSuccess m)))))))"

section \<open>The decision behind an admission\<close>

text \<open>
  The specification the webhook, the controller's sweep and the collector are compared with:
  what is to be done with a pod, as a function of the store, the default configuration and
  the pod alone.
\<close>

datatype 'sel decision = Unselected | NoSDK | Current | Foreign
  | Inject (injRule: "'sel rule") (injCfg: sdkInject)

definition decision :: "'sel beylaLib \<Rightarrow> 'sel registry \<Rightarrow> reader \<Rightarrow> sdkInject \<Rightarrow> pod \<Rightarrow> 'sel decision" where
  "decision lib reg rd cfg p =
    (case Match (bl_match lib) reg (Resolve rd p) of
       None \<Rightarrow> Unselected
     | Some (rule, cmCfg) \<Rightarrow>
        (let effective = WithConfigMapOverrides cfg cmCfg in
         if sd_ImageVersion effective = '''' then NoSDK
         else if gm_get (om_Annotations (pod_Meta p)) InjectedAnnotation
           = Some (wantedHash (bl_ruleHash lib) effective (rule_Config rule)) then Current
         else if PreloadsSomethingElse p then Foreign
         else Inject rule effective))"

fun outcomeOf :: "'sel decision \<Rightarrow> string" where
  "outcomeOf Unselected = OutcomeNoMatchingSelector"
| "outcomeOf NoSDK = OutcomeNoSDKConfig"
| "outcomeOf Current = OutcomeAlreadyInstrumented"
| "outcomeOf Foreign = OutcomeLDPreloadConflict"
| "outcomeOf (Inject rule cfg) = OutcomeSuccess"

lemma outcomeOf_inj: "outcomeOf x = outcomeOf y \<longleftrightarrow>
    (case x of Unselected \<Rightarrow> y = Unselected | NoSDK \<Rightarrow> y = NoSDK | Current \<Rightarrow> y = Current
     | Foreign \<Rightarrow> y = Foreign | Inject r c \<Rightarrow> (\<exists>r' c'. y = Inject r' c'))"
  by (cases x; cases y) (simp_all add: outcome_defs)

text \<open>What injecting does to the pod.\<close>

definition injectedPod :: "'sel beylaLib \<Rightarrow> mutatorDeps \<Rightarrow> 'sel rule \<Rightarrow> sdkInject \<Rightarrow> bool \<Rightarrow> pod \<Rightarrow> pod" where
  "injectedPod lib deps rule cfg skip p =
    p\<lparr>pod_Meta := (pod_Meta p)\<lparr>om_Annotations := gm_put InjectedAnnotation
         (wantedHash (bl_ruleHash lib) cfg (rule_Config rule)) (om_Annotations (pod_Meta p))\<rparr>,
      pod_Spec := (prepareSpec \<lparr>pm_Cfg = cfg\<rparr> (pod_Spec p))\<lparr>ps_Containers :=
         map (\<lambda>c. instrumentContainer deps \<lparr>pm_Cfg = cfg\<rparr> (pod_Meta p) c (rc_Env (rule_Config rule)) skip)
           (ps_Containers (pod_Spec p))\<rparr>\<rparr>"

fun carryOut :: "'sel beylaLib \<Rightarrow> mutatorDeps \<Rightarrow> bool \<Rightarrow> 'sel decision \<Rightarrow> pod \<Rightarrow> pod" where
  "carryOut lib deps skip (Inject rule cfg) p = injectedPod lib deps rule cfg skip p"
| "carryOut lib deps skip _ p = p"

lemma wanted_iff: "IsInstrumentedWithWantedConfig spec meta h \<longleftrightarrow>
    gm_get (om_Annotations meta) InjectedAnnotation = Some h"
  by (auto simp: IsInstrumentedWithWantedConfig_def split: option.split)

lemma PodConfigHash_wanted: "PodConfigHash rh cfg rc = Some (wantedHash rh cfg rc)"
  by (simp add: wantedHash_def PodConfigHash_eq)

lemma mutator_override: "(pm :: podMutator)\<lparr>pm_Cfg := c\<rparr> = \<lparr>pm_Cfg = c\<rparr>"
  by (cases pm) simp

lemma mount_then_copy: "addCopyInitContainerIfNeeded pm ((mountVolume pm spec)\<lparr>ps_Containers := cs\<rparr>)
    = (prepareSpec pm spec)\<lparr>ps_Containers := cs\<rparr>"
  by (simp add: prepareSpec_upsert mountVolume_upsert addCopyInitContainer_upsert)

definition spanSkip :: "'sel beylaLib \<Rightarrow> ('sel, 'm) podCustomDefaulter \<Rightarrow> pod \<Rightarrow> bool" where
  "spanSkip lib d p = (BPFGeneratesSpanMetrics (bl_match lib) (pcd_Registry d) (Resolve (pcd_Reader d) p) \<noteq> None)"

lemma Default_decision:
  fixes lib :: "'sel beylaLib" and d :: "('sel, 'm) podCustomDefaulter"
  assumes "pcd_Mutator d = Some pm"
  defines "dec \<equiv> decision lib (pcd_Registry d) (pcd_Reader d) (pm_Cfg pm)"
  shows "Default lib deps d p m = Returns (carryOut lib deps (spanSkip lib d p) (dec p) p,
    recordOutcome d (Resolve (pcd_Reader d) p) (outcomeOf (dec p)) m)"
proof (cases "Match (bl_match lib) (pcd_Registry d) (Resolve (pcd_Reader d) p)")
  case None
  then show ?thesis by (simp add: Default_def decision_def dec_def)
next
  case (Some rc)
  obtain rule cmCfg where rc: "rc = (rule, cmCfg)" by (cases rc)
  have mv: "ps_Containers (mountVolume x s) = ps_Containers s" for x s
    by (simp add: mountVolume_upsert)
  show ?thesis
    unfolding Default_def dec_def decision_def Let_def
    by (simp only: Some rc assms(1) option.case prod.case PodConfigHash_wanted wanted_iff mutator_override
        mount_then_copy mv)
      (simp add: injectedPod_def spanSkip_def mutator_override)
qed

section \<open>The interface of the recorder\<close>

text \<open>A \<open>RequestRecorder\<close> is a counter whose calls take the four labels one by one.\<close>

locale request_recorder =
  label_counter "\<lambda>(ns, kind, name, result). rec_req ns kind name result" tally ready
  for rec_req :: "'m requestRecorder"
    and tally :: "'m \<Rightarrow> string \<times> string \<times> string \<times> string \<Rightarrow> nat"
    and ready :: "'m \<Rightarrow> bool"
begin

lemma tally_rec: "ready m \<Longrightarrow> tally (rec_req ns kind name result m) key =
    tally m key + (if key = (ns, kind, name, result) then 1 else 0)"
  using tally_up [of m "(ns, kind, name, result)"] by simp

end

text \<open>The label tuple of one admission.\<close>

definition requestKey :: "'sel beylaLib \<Rightarrow> 'sel registry \<Rightarrow> reader \<Rightarrow> sdkInject \<Rightarrow> pod \<Rightarrow> string \<times> string \<times> string \<times> string" where
  "requestKey lib reg rd cfg p =
    (let (kind, name) = Workload (Resolve rd p)
     in (om_Namespace (pod_Meta p), kind, name, outcomeOf (decision lib reg rd cfg p)))"

lemma recordOutcome_key:
  assumes "pcd_Metrics d = Some rec_req"
  shows "recordOutcome d (Resolve (pcd_Reader d) p)
      (outcomeOf (decision lib (pcd_Registry d) (pcd_Reader d) cfg p)) m
    = (case requestKey lib (pcd_Registry d) (pcd_Reader d) cfg p of (ns, kind, name, result) \<Rightarrow> rec_req ns kind name result m)"
  using assms by (simp add: recordOutcome_def requestKey_def Let_def split: prod.split)

section \<open>An injected pod\<close>

lemma injectedPod_meta:
  "pod_Meta (injectedPod lib deps rule cfg skip p) = (pod_Meta p)\<lparr>om_Annotations :=
     gm_put InjectedAnnotation (wantedHash (bl_ruleHash lib) cfg (rule_Config rule)) (om_Annotations (pod_Meta p))\<rparr>"
  by (simp add: injectedPod_def)

lemma injectedPod_containers:
  "ps_Containers (pod_Spec (injectedPod lib deps rule cfg skip p)) =
    map (\<lambda>c. instrumentContainer deps \<lparr>pm_Cfg = cfg\<rparr> (pod_Meta p) c (rc_Env (rule_Config rule)) skip)
      (ps_Containers (pod_Spec p))"
  by (simp add: injectedPod_def)

lemma injectedPod_inits:
  "ps_InitContainers (pod_Spec (injectedPod lib deps rule cfg skip p)) =
    (if sd_InjectionMode cfg = InjectionModeImage then ps_InitContainers (pod_Spec p)
     else upsert ct_Name (copyInitContainer \<lparr>pm_Cfg = cfg\<rparr>) (ps_InitContainers (pod_Spec p)))"
  by (simp add: injectedPod_def prepareSpec_upsert usesInitContainer_def)

lemmas injectedPod_parts = injectedPod_meta injectedPod_containers injectedPod_inits

lemma instrumentContainer_name [simp]:
  "ct_Name (instrumentContainer deps pm meta c vs skip) = ct_Name c"
  "ct_Image (instrumentContainer deps pm meta c vs skip) = ct_Image c"
  by (simp_all add: instrumentContainer_def addEnvVars_stages env_frame serviceStage_def Let_def)

lemma set_upsert: "set (upsert key x xs) \<subseteq> insert x (set xs)"
  by (induction xs) auto

lemma copy_no_conflict: "\<not> isLDPreloadConflict (copyInitContainer pm)"
  by (simp add: isLDPreloadConflict_def findEnvVar_def copyInitContainer_def)

text \<open>An injected pod carries no foreign preload, whatever is asked of it later.\<close>

lemma injectedPod_no_conflict:
  assumes "\<not> PreloadsSomethingElse p"
  shows "\<not> PreloadsSomethingElse (injectedPod lib deps rule cfg skip p)"
proof -
  have "\<not> isLDPreloadConflict c" if "c \<in> set (ps_InitContainers (pod_Spec (injectedPod lib deps rule cfg skip p)))" for c
  proof -
    have "c = copyInitContainer \<lparr>pm_Cfg = cfg\<rparr> \<or> c \<in> set (ps_InitContainers (pod_Spec p))"
      using that set_upsert by (fastforce simp: injectedPod_inits split: if_splits)
    then show ?thesis
      using assms copy_no_conflict by (auto simp: PreloadsSomethingElse_def list_ex_iff)
  qed
  then show ?thesis
    by (auto simp: PreloadsSomethingElse_def list_ex_iff injectedPod_containers no_conflict_after)
qed

lemma decision_InjectD:
  assumes "decision lib reg rd cfg p = Inject rule eff"
  shows "\<not> PreloadsSomethingElse p \<and> sd_ImageVersion eff \<noteq> '''' \<and> \<not> isSkip rule
    \<and> (\<exists>cmCfg. Match (bl_match lib) reg (Resolve rd p) = Some (rule, cmCfg) \<and> eff = WithConfigMapOverrides cfg cmCfg)"
  using assms Match_not_skip [of "bl_match lib" reg "Resolve rd p"]
  by (auto simp: decision_def Let_def split: option.splits prod.splits if_splits)

lemma InjectedAnnotation_kept: "IsInstrumented (pod_Meta (injectedPod lib deps rule cfg skip p))"
  by (simp add: IsInstrumented_def injectedPod_meta gomap_simps)

lemma Resolve_chain_injected:
  "pi_OwnerChain (Resolve rd (injectedPod lib deps rule cfg skip p)) = pi_OwnerChain (Resolve rd p)"
  by (simp add: Resolve_def Let_def injectedPod_meta split: option.split getResult.split)

section \<open>Properties\<close>

text \<open>A pod, a store and a handler for the witnesses.\<close>

definition sampleLib :: "string beylaLib" where
  "sampleLib = \<lparr>bl_match = nsSelector, bl_ruleHash = modeHash\<rparr>"

definition sampleRegistry :: "string registry" where
  "sampleRegistry = \<lparr>instruments = [(''obs/a'', sampleInst '''' ''apps'')]\<rparr>"

definition noReader :: reader where
  "noReader ns n = NotFound"

definition samplePod :: pod where
  "samplePod = \<lparr>pod_Meta = emptyMeta\<lparr>om_Name := ''web'', om_Namespace := ''apps''\<rparr>,
     pod_Spec = \<lparr>ps_Volumes = [], ps_InitContainers = [emptyContainer\<lparr>ct_Name := ''setup''\<rparr>],
       ps_Containers = [emptyContainer\<lparr>ct_Name := ''app''\<rparr>], ps_NodeName = ''n1''\<rparr>\<rparr>"

definition sampleDefaulter :: "podMutator option \<Rightarrow> (string, unit) podCustomDefaulter" where
  "sampleDefaulter pm = \<lparr>pcd_Registry = sampleRegistry, pcd_Reader = noReader, pcd_Mutator = pm, pcd_Metrics = None\<rparr>"

definition sampleRule :: "string rule" where
  "sampleRule = \<lparr>rule_Selector = ''apps'', rule_Config = \<lparr>rc_Mode = '''', rc_Env = []\<rparr>\<rparr>"

lemma sample_match: "Match (bl_match sampleLib) sampleRegistry (Resolve rd samplePod)
    = Some (sampleRule, InjectConfig (sampleInst '''' ''apps''))"
  by (simp add: Match_def generateMatchInputUnlocked_def sampleRegistry_def sampleLib_def sampleInst_def
      instAt_def nsSelector_def buildMatchInput_def samplePod_def ModeSkip_def sampleRule_def)

lemma sample_decision_at:
  assumes "v \<noteq> ''''"
  shows "decision sampleLib sampleRegistry rd (sampleSDK v) samplePod = Inject sampleRule (sampleSDK v)"
proof -
  have "\<not> PreloadsSomethingElse samplePod"
    by (simp add: PreloadsSomethingElse_def samplePod_def isLDPreloadConflict_def findEnvVar_def emptyContainer_def)
  moreover have "WithConfigMapOverrides (sampleSDK v) (InjectConfig (sampleInst '''' ''apps'')) = sampleSDK v"
    by (simp add: WithConfigMapOverrides_def sampleInst_def)
  moreover have "om_Annotations (pod_Meta samplePod) = []" by (simp add: samplePod_def emptyMeta_def)
  moreover have "sd_ImageVersion (sampleSDK v) \<noteq> ''''" using assms by (simp add: sampleSDK_def)
  ultimately show ?thesis
    by (simp add: decision_def sample_match Let_def)
qed

lemma sample_decision: "decision sampleLib sampleRegistry rd (sampleSDK ''1'') samplePod = Inject sampleRule (sampleSDK ''1'')"
  by (rule sample_decision_at) simp

text \<open>
  C1. The admission handler implements the decision: it never fails, it records exactly the
  outcome the decision stands for, under the pod's workload, and it changes the pod only
  when the decision is to inject; every other outcome leaves the pod as it came.
\<close>

theorem admission_carries_out_decision:
  fixes lib :: "'sel beylaLib" and d :: "('sel, 'm) podCustomDefaulter"
  assumes "pcd_Mutator d = Some pm"
  shows "\<exists>p'. Default lib deps d p m = Returns (p', recordOutcome d (Resolve (pcd_Reader d) p)
        (outcomeOf (decision lib (pcd_Registry d) (pcd_Reader d) (pm_Cfg pm) p)) m)
    \<and> (case decision lib (pcd_Registry d) (pcd_Reader d) (pm_Cfg pm) p of
         Inject rule cfg \<Rightarrow> p' = injectedPod lib deps rule cfg
           (BPFGeneratesSpanMetrics (bl_match lib) (pcd_Registry d) (Resolve (pcd_Reader d) p) \<noteq> None) p
       | _ \<Rightarrow> p' = p)"
  unfolding Default_decision [where lib = lib, OF assms]
  by (rule exI, rule conjI [OF refl]) (simp add: spanSkip_def split: decision.split)

theorem admission_carries_out_decision_witness:
  "\<exists>p'. Default sampleLib sampleDeps (sampleDefaulter (Some sampleMutator)) samplePod () = Returns (p', ())
    \<and> gm_get (om_Annotations (pod_Meta p')) InjectedAnnotation
      = Some (wantedHash modeHash (sampleSDK ''1'') (rule_Config sampleRule))"
  using admission_carries_out_decision [of "sampleDefaulter (Some sampleMutator)" sampleMutator sampleLib sampleDeps samplePod "()"]
  by (auto simp: sampleDefaulter_def sampleMutator_def sample_decision recordOutcome_def injectedPod_meta gomap_simps)
    (simp add: sampleLib_def)

lemma decision_InjectI:
  assumes "Match (bl_match lib) reg (Resolve rd p) = Some (rule, cmCfg)" "eff = WithConfigMapOverrides cfg cmCfg"
    "sd_ImageVersion eff \<noteq> ''''" "gm_get (om_Annotations (pod_Meta p)) InjectedAnnotation \<noteq> Some (wantedHash (bl_ruleHash lib) eff (rule_Config rule))"
    "\<not> PreloadsSomethingElse p"
  shows "decision lib reg rd cfg p = Inject rule eff"
  using assms by (simp add: decision_def Let_def)

lemma instrumentContainer_mount:
  "first_with vm_Name injectVolumeName (ct_VolumeMounts (instrumentContainer deps pm meta c vs skip)) = Some injectMount"
proof -
  have "ct_VolumeMounts (instrumentContainer deps pm meta c vs skip) = upsert vm_Name injectMount (ct_VolumeMounts c)"
    by (simp add: instrumentContainer_def addEnvVars_stages env_frame serviceStage_def Let_def addMount_upsert)
  moreover have "vm_Name injectMount = injectVolumeName" by (simp add: injectMount_def)
  ultimately show ?thesis by (simp add: upsert_lookup)
qed

lemma injectedPod_payload:
  "first_with vol_Name injectVolumeName (ps_Volumes (pod_Spec (injectedPod lib deps rule cfg skip p)))
    = Some (buildVolumeDefinition \<lparr>pm_Cfg = cfg\<rparr>)"
  "sd_InjectionMode cfg \<noteq> InjectionModeImage \<Longrightarrow>
    first_with ct_Name injectInitContainerName (ps_InitContainers (pod_Spec (injectedPod lib deps rule cfg skip p)))
    = Some (copyInitContainer \<lparr>pm_Cfg = cfg\<rparr>)"
  by (simp_all add: injectedPod_def prepareSpec_upsert usesInitContainer_def upsert_lookup)

text \<open>
  C16. What a successful admission leaves behind. A pod that a rule matches with an SDK version, that
  does not carry the wanted hash and has no foreign preload is injected by the handler, which
  counts a success: the pod then carries the annotation with the hash and no foreign preload;
  its containers keep names, images and order, and each of them preloads the injector and mounts
  the volume, which is there; in every mode but the image volume the copying init container is
  there; the init containers it came with are untouched; and nothing else of its metadata changed.
\<close>

theorem injection_postcondition:
  fixes lib :: "'sel beylaLib" and d :: "('sel, 'm) podCustomDefaulter"
  assumes "pcd_Mutator d = Some pm"
    and "Match (bl_match lib) (pcd_Registry d) (Resolve (pcd_Reader d) p) = Some (rule, cmCfg)"
    and "eff = WithConfigMapOverrides (pm_Cfg pm) cmCfg" "sd_ImageVersion eff \<noteq> ''''"
    and "PodConfigHash (bl_ruleHash lib) eff (rule_Config rule) = Some h"
    and "\<not> IsInstrumentedWithWantedConfig (pod_Spec p) (pod_Meta p) h" "\<not> PreloadsSomethingElse p"
  shows "\<exists>p'. Default lib deps d p m = Returns (p', recordOutcome d (Resolve (pcd_Reader d) p) OutcomeSuccess m)
    \<and> IsInstrumentedWithWantedConfig (pod_Spec p') (pod_Meta p') h
    \<and> \<not> PreloadsSomethingElse p'
    \<and> map (\<lambda>c. (ct_Name c, ct_Image c)) (ps_Containers (pod_Spec p')) = map (\<lambda>c. (ct_Name c, ct_Image c)) (ps_Containers (pod_Spec p))
    \<and> (\<forall>c\<in>set (ps_Containers (pod_Spec p')). envGet c envVarLdPreloadName = Some (plainVar envVarLdPreloadName envVarLdPreloadValue)
        \<and> first_with vm_Name injectVolumeName (ct_VolumeMounts c)
          = Some \<lparr>vm_Name = injectVolumeName, vm_MountPath = internalMountPath, vm_ReadOnly = True\<rparr>)
    \<and> first_with vol_Name injectVolumeName (ps_Volumes (pod_Spec p')) = Some (buildVolumeDefinition \<lparr>pm_Cfg = eff\<rparr>)
    \<and> (sd_InjectionMode eff \<noteq> InjectionModeImage \<longrightarrow>
        first_with ct_Name injectInitContainerName (ps_InitContainers (pod_Spec p')) = Some (copyInitContainer \<lparr>pm_Cfg = eff\<rparr>))
    \<and> filter (\<lambda>c. ct_Name c \<noteq> injectInitContainerName) (ps_InitContainers (pod_Spec p'))
      = filter (\<lambda>c. ct_Name c \<noteq> injectInitContainerName) (ps_InitContainers (pod_Spec p))
    \<and> (pod_Meta p')\<lparr>om_Annotations := om_Annotations (pod_Meta p)\<rparr> = pod_Meta p
    \<and> (\<forall>k. k \<noteq> InjectedAnnotation \<longrightarrow> gm_get (om_Annotations (pod_Meta p')) k = gm_get (om_Annotations (pod_Meta p)) k)"
proof -
  let ?p' = "injectedPod lib deps rule eff (spanSkip lib d p) p"
  have h: "h = wantedHash (bl_ruleHash lib) eff (rule_Config rule)" using assms(5) by (simp add: PodConfigHash_wanted)
  have "decision lib (pcd_Registry d) (pcd_Reader d) (pm_Cfg pm) p = Inject rule eff"
    using assms(6) by (intro decision_InjectI [OF assms(2-4) _ assms(7)]) (simp add: wanted_iff h)
  then have "Default lib deps d p m = Returns (?p', recordOutcome d (Resolve (pcd_Reader d) p) OutcomeSuccess m)"
    by (simp add: Default_decision [where lib = lib, OF assms(1)])
  moreover have "\<not> PreloadsSomethingElse ?p'" by (rule injectedPod_no_conflict [OF assms(7)])
  moreover have "first_with vol_Name injectVolumeName (ps_Volumes (pod_Spec ?p')) = Some (buildVolumeDefinition \<lparr>pm_Cfg = eff\<rparr>)"
    by (rule injectedPod_payload)
  moreover have "sd_InjectionMode eff \<noteq> InjectionModeImage \<longrightarrow>
      first_with ct_Name injectInitContainerName (ps_InitContainers (pod_Spec ?p')) = Some (copyInitContainer \<lparr>pm_Cfg = eff\<rparr>)"
    using injectedPod_payload(2) by blast
  moreover have "IsInstrumentedWithWantedConfig (pod_Spec ?p') (pod_Meta ?p') h"
    by (simp add: h wanted_iff injectedPod_meta gomap_simps)
  moreover have "\<forall>c\<in>set (ps_Containers (pod_Spec ?p')). envGet c envVarLdPreloadName = Some (plainVar envVarLdPreloadName envVarLdPreloadValue)
      \<and> first_with vm_Name injectVolumeName (ct_VolumeMounts c)
        = Some \<lparr>vm_Name = injectVolumeName, vm_MountPath = internalMountPath, vm_ReadOnly = True\<rparr>"
    using instrumentContainer_mount by (auto simp: injectedPod_containers ld_preload_fixed injectMount_def)
  moreover have "map (\<lambda>c. (ct_Name c, ct_Image c)) (ps_Containers (pod_Spec ?p')) = map (\<lambda>c. (ct_Name c, ct_Image c)) (ps_Containers (pod_Spec p))"
    by (simp add: injectedPod_containers comp_def)
  moreover have "filter (\<lambda>c. ct_Name c \<noteq> injectInitContainerName) (ps_InitContainers (pod_Spec ?p'))
      = filter (\<lambda>c. ct_Name c \<noteq> injectInitContainerName) (ps_InitContainers (pod_Spec p))"
    by (simp add: injectedPod_inits upsert_filter)
  moreover have "(pod_Meta ?p')\<lparr>om_Annotations := om_Annotations (pod_Meta p)\<rparr> = pod_Meta p"
    "\<forall>k. k \<noteq> InjectedAnnotation \<longrightarrow> gm_get (om_Annotations (pod_Meta ?p')) k = gm_get (om_Annotations (pod_Meta p)) k"
    by (simp_all add: injectedPod_meta gomap_simps)
  ultimately show ?thesis by blast
qed

theorem injection_postcondition_witness:
  "\<exists>p'. Default sampleLib sampleDeps (sampleDefaulter (Some sampleMutator)) samplePod () = Returns (p', ())
    \<and> gm_get (om_Annotations (pod_Meta samplePod)) InjectedAnnotation = None
    \<and> gm_get (om_Annotations (pod_Meta p')) InjectedAnnotation \<noteq> None
    \<and> map ct_Name (ps_Containers (pod_Spec p')) = [''app'']"
proof -
  let ?d = "sampleDefaulter (Some sampleMutator)"
  obtain h where h: "PodConfigHash (bl_ruleHash sampleLib) (sampleSDK ''1'') (rule_Config sampleRule) = Some h"
    using PodConfigHash_wanted by blast
  have d: "pcd_Mutator ?d = Some sampleMutator" "pcd_Registry ?d = sampleRegistry"
    by (simp_all add: sampleDefaulter_def)
  have eff: "sampleSDK ''1'' = WithConfigMapOverrides (pm_Cfg sampleMutator) (InjectConfig (sampleInst '''' ''apps''))"
    by (simp add: sampleMutator_def WithConfigMapOverrides_def sampleInst_def)
  have v: "sd_ImageVersion (sampleSDK ''1'') \<noteq> ''''" by (simp add: sampleSDK_def)
  have a: "om_Annotations (pod_Meta samplePod) = []" by (simp add: samplePod_def emptyMeta_def)
  have "\<not> IsInstrumentedWithWantedConfig (pod_Spec samplePod) (pod_Meta samplePod) h" by (simp add: wanted_iff a)
  moreover have "\<not> PreloadsSomethingElse samplePod" using decision_InjectD [OF sample_decision] by blast
  moreover have "Match (bl_match sampleLib) (pcd_Registry ?d) (Resolve (pcd_Reader ?d) samplePod)
      = Some (sampleRule, InjectConfig (sampleInst '''' ''apps''))"
    unfolding d by (rule sample_match)
  ultimately obtain p' where "Default sampleLib sampleDeps ?d samplePod () = Returns (p', ())"
      "IsInstrumentedWithWantedConfig (pod_Spec p') (pod_Meta p') h"
      "map (\<lambda>c. (ct_Name c, ct_Image c)) (ps_Containers (pod_Spec p')) = map (\<lambda>c. (ct_Name c, ct_Image c)) (ps_Containers (pod_Spec samplePod))"
    using injection_postcondition [OF d(1) _ eff v h, of samplePod sampleDeps "()"] by auto
  note run = this
  have names: "map ct_Name (ps_Containers (pod_Spec p')) = [''app'']"
    using arg_cong [OF run(3), of "map fst"] by (simp add: comp_def samplePod_def)
  have new: "gm_get (om_Annotations (pod_Meta p')) InjectedAnnotation \<noteq> None" using run(2) by (simp add: wanted_iff)
  have "gm_get (om_Annotations (pod_Meta samplePod)) InjectedAnnotation = None" by (simp add: a)
  from conjI [OF run(1) conjI [OF this conjI [OF new names]]] show ?thesis by (rule exI)
qed

definition ignoresInjected :: "('sel \<Rightarrow> matchInput \<Rightarrow> bool) \<Rightarrow> bool" where
  "ignoresInjected sm = (\<forall>s i v. sm s (i\<lparr>mi_Annotations := gm_put InjectedAnnotation v (mi_Annotations i)\<rparr>) = sm s i)"

lemma matchRules_ignores:
  "ignoresInjected sm \<Longrightarrow>
    matchRules sm (i\<lparr>mi_Annotations := gm_put InjectedAnnotation v (mi_Annotations i)\<rparr>) rs = matchRules sm i rs"
  by (induction rs) (auto simp: ignoresInjected_def)

lemma matchKeys_ignores:
  "ignoresInjected sm \<Longrightarrow>
    matchKeys sm m (i\<lparr>mi_Annotations := gm_put InjectedAnnotation v (mi_Annotations i)\<rparr>) ks = matchKeys sm m i ks"
  by (induction ks) (auto simp: Let_def matchRules_ignores split: verdict.split)

lemma Match_injected:
  assumes "ignoresInjected (bl_match lib)"
  shows "Match (bl_match lib) reg (Resolve rd (injectedPod lib deps rule cfg skip p)) = Match (bl_match lib) reg (Resolve rd p)"
proof -
  let ?h = "wantedHash (bl_ruleHash lib) cfg (rule_Config rule)"
  have "buildMatchInput (Resolve rd (injectedPod lib deps rule cfg skip p)) = (buildMatchInput (Resolve rd p))\<lparr>mi_Annotations :=
      gm_put InjectedAnnotation ?h (mi_Annotations (buildMatchInput (Resolve rd p)))\<rparr>"
    by (simp add: buildMatchInput_def Resolve_chain_injected injectedPod_meta)
  then show ?thesis
    by (simp add: Match_def generateMatchInputUnlocked_def matchKeys_ignores [OF assms])
qed

lemma decision_injected:
  assumes "ignoresInjected (bl_match lib)" "decision lib reg rd cfg p = Inject rule eff"
  shows "decision lib reg rd cfg (injectedPod lib deps rule eff skip p) = Current"
  using decision_InjectD [OF assms(2)]
  by (auto simp: decision_def Match_injected [OF assms(1)] injectedPod_meta gomap_simps)

text \<open>
  C15. Re-admission is idempotent: if selectors do not look at the injector's own annotation,
  a pod that was just injected is recognised as already instrumented and not touched again,
  so no variable is appended twice by a repeated admission.
\<close>

theorem readmission_is_noop:
  fixes lib :: "'sel beylaLib" and d :: "('sel, 'm) podCustomDefaulter"
  assumes "ignoresInjected (bl_match lib)" "pcd_Mutator d = Some pm"
    and "decision lib (pcd_Registry d) (pcd_Reader d) (pm_Cfg pm) p = Inject rule eff"
    and "Default lib deps d p m = Returns (p', m')"
  shows "Default lib deps d p' m' = Returns (p', recordOutcome d (Resolve (pcd_Reader d) p') OutcomeAlreadyInstrumented m')"
proof -
  have p': "p' = injectedPod lib deps rule eff (spanSkip lib d p) p"
    using assms(3,4) Default_decision [where lib = lib, OF assms(2)] by simp
  show "Default lib deps d p' m' = Returns (p', recordOutcome d (Resolve (pcd_Reader d) p') OutcomeAlreadyInstrumented m')"
    unfolding Default_decision [where lib = lib, OF assms(2)] p'
    by (simp add: decision_injected [OF assms(1,3)])
qed

lemma sample_ignores: "ignoresInjected (bl_match sampleLib)"
  by (simp add: ignoresInjected_def sampleLib_def nsSelector_def)

theorem readmission_is_noop_witness:
  "\<exists>p'. Default sampleLib sampleDeps (sampleDefaulter (Some sampleMutator)) p' () = Returns (p', ()) \<and> p' \<noteq> samplePod"
proof -
  let ?d = "sampleDefaulter (Some sampleMutator)"
  let ?p = "injectedPod sampleLib sampleDeps sampleRule (sampleSDK ''1'') (spanSkip sampleLib ?d samplePod) samplePod"
  have dec: "decision sampleLib (pcd_Registry ?d) (pcd_Reader ?d) (pm_Cfg sampleMutator) samplePod
      = Inject sampleRule (sampleSDK ''1'')"
    by (simp add: sampleDefaulter_def sampleMutator_def sample_decision)
  have mut: "pcd_Mutator ?d = Some sampleMutator" by (simp add: sampleDefaulter_def)
  have "Default sampleLib sampleDeps ?d samplePod () = Returns (?p, ())"
    unfolding Default_decision [where lib = sampleLib, OF mut] dec by simp
  from readmission_is_noop [OF sample_ignores mut dec this]
  have "Default sampleLib sampleDeps ?d ?p () = Returns (?p, ())" by simp
  moreover have "?p \<noteq> samplePod"
  proof
    assume "?p = samplePod"
    then have "gm_get (om_Annotations (pod_Meta ?p)) InjectedAnnotation = None"
      by (simp add: samplePod_def emptyMeta_def)
    then show False by (simp add: injectedPod_meta gomap_simps)
  qed
  ultimately show ?thesis by blast
qed

text \<open>A recorder that keeps every call, so that the outcome of an admission can be read off.\<close>

definition logOutcome :: "(string \<times> string \<times> string \<times> string) list requestRecorder" where
  "logOutcome ns kind name result log = log @ [(ns, kind, name, result)]"

lemma Default_logged:
  assumes "pcd_Mutator d = Some pm" "pcd_Metrics d = Some logOutcome"
    "Default lib deps d p [] = Returns (p', [(ns, kind, name, result)])"
  shows "ns = om_Namespace (pod_Meta p) \<and> (kind, name) = Workload (Resolve (pcd_Reader d) p)
    \<and> result = outcomeOf (decision lib (pcd_Registry d) (pcd_Reader d) (pm_Cfg pm) p)
    \<and> p' = carryOut lib deps (spanSkip lib d p) (decision lib (pcd_Registry d) (pcd_Reader d) (pm_Cfg pm) p) p"
  using assms(3) by (simp add: Default_decision [where lib = lib, OF assms(1)] recordOutcome_def assms(2) logOutcome_def split: prod.split_asm)

lemma Default_logs:
  assumes "pcd_Mutator d = Some pm" "pcd_Metrics d = Some logOutcome"
  shows "\<exists>p' ns kind name result. Default lib deps d p [] = Returns (p', [(ns, kind, name, result)])"
  by (simp add: Default_decision [where lib = lib, OF assms(1)] recordOutcome_def assms(2) logOutcome_def split: prod.split)

text \<open>A pod that the handler changed was injected.\<close>

lemma Default_changed:
  assumes "pcd_Mutator d = Some pm" "Default lib deps d p m = Returns (p', m')" "p' \<noteq> p"
  obtains rule eff where "decision lib (pcd_Registry d) (pcd_Reader d) (pm_Cfg pm) p = Inject rule eff"
    "p' = injectedPod lib deps rule eff (spanSkip lib d p) p"
  using assms(2,3) by (cases "decision lib (pcd_Registry d) (pcd_Reader d) (pm_Cfg pm) p")
    (auto simp: Default_decision [where lib = lib, OF assms(1)])

text \<open>
  C27. The injector never takes its own work for a foreign preload: a pod that the handler changed
  is never counted as a conflict by any later admission, whatever the store, the reader and the
  configuration have become since; and if a rule matches it with an SDK version and another
  hash, the later admission injects it anew and stamps that hash.
\<close>

theorem injected_pod_stays_manageable:
  fixes lib :: "'sel beylaLib" and d :: "('sel, 'm) podCustomDefaulter"
  assumes "pcd_Mutator d = Some pm" "Default lib deps d p m = Returns (p', m')" "p' \<noteq> p"
    and "pcd_Mutator d2 = Some pm2" "pcd_Metrics d2 = Some logOutcome"
    and "Default lib deps d2 p' [] = Returns (p'', [(ns, kind, name, result)])"
  shows "result \<noteq> OutcomeLDPreloadConflict
    \<and> (\<forall>rule cmCfg h. Match (bl_match lib) (pcd_Registry d2) (Resolve (pcd_Reader d2) p') = Some (rule, cmCfg)
        \<and> sd_ImageVersion (WithConfigMapOverrides (pm_Cfg pm2) cmCfg) \<noteq> ''''
        \<and> PodConfigHash (bl_ruleHash lib) (WithConfigMapOverrides (pm_Cfg pm2) cmCfg) (rule_Config rule) = Some h
        \<and> gm_get (om_Annotations (pod_Meta p')) InjectedAnnotation \<noteq> Some h \<longrightarrow>
      result = OutcomeSuccess \<and> gm_get (om_Annotations (pod_Meta p'')) InjectedAnnotation = Some h
      \<and> (\<forall>c\<in>set (ps_Containers (pod_Spec p'')). envGet c envVarLdPreloadName = Some (plainVar envVarLdPreloadName envVarLdPreloadValue)))"
proof -
  let ?dec = "decision lib (pcd_Registry d2) (pcd_Reader d2) (pm_Cfg pm2) p'"
  note log = Default_logged [OF assms(4-6)]
  obtain rule0 eff0 where "decision lib (pcd_Registry d) (pcd_Reader d) (pm_Cfg pm) p = Inject rule0 eff0"
    "p' = injectedPod lib deps rule0 eff0 (spanSkip lib d p) p"
    by (rule Default_changed [OF assms(1-3)])
  then have clean: "\<not> PreloadsSomethingElse p'"
    using decision_InjectD injectedPod_no_conflict by blast
  then have "?dec \<noteq> Foreign" by (auto simp: decision_def Let_def split: option.split)
  then have "result \<noteq> OutcomeLDPreloadConflict" using log by (cases ?dec) (simp_all add: outcome_defs)
  moreover have "result = OutcomeSuccess \<and> gm_get (om_Annotations (pod_Meta p'')) InjectedAnnotation = Some h
      \<and> (\<forall>c\<in>set (ps_Containers (pod_Spec p'')). envGet c envVarLdPreloadName = Some (plainVar envVarLdPreloadName envVarLdPreloadValue))"
    if "Match (bl_match lib) (pcd_Registry d2) (Resolve (pcd_Reader d2) p') = Some (rule, cmCfg)"
      "sd_ImageVersion (WithConfigMapOverrides (pm_Cfg pm2) cmCfg) \<noteq> ''''"
      "PodConfigHash (bl_ruleHash lib) (WithConfigMapOverrides (pm_Cfg pm2) cmCfg) (rule_Config rule) = Some h"
      "gm_get (om_Annotations (pod_Meta p')) InjectedAnnotation \<noteq> Some h" for rule cmCfg h
  proof -
    have "?dec = Inject rule (WithConfigMapOverrides (pm_Cfg pm2) cmCfg)"
      using that clean by (intro decision_InjectI [OF that(1) refl]) (simp_all add: PodConfigHash_wanted)
    with log that(3) show ?thesis
      by (simp add: injectedPod_parts gomap_simps PodConfigHash_wanted ld_preload_fixed)
  qed
  ultimately show ?thesis by blast
qed

text \<open>The pod is admitted, the version is raised to 2, and the pod comes by again.\<close>

definition raisedDefaulter :: "(string, (string \<times> string \<times> string \<times> string) list) podCustomDefaulter" where
  "raisedDefaulter = \<lparr>pcd_Registry = sampleRegistry, pcd_Reader = noReader,
     pcd_Mutator = Some \<lparr>pm_Cfg = sampleSDK ''2''\<rparr>, pcd_Metrics = Some logOutcome\<rparr>"

lemma raised_hash:
  "wantedHash (bl_ruleHash sampleLib) (sampleSDK ''1'') rc \<noteq> wantedHash (bl_ruleHash sampleLib) (sampleSDK ''2'') rc"
proof -
  have "ImageVolumePath (sampleSDK ''1'') = ''img:'' @ [CHR ''1'']" "ImageVolumePath (sampleSDK ''2'') = ''img:'' @ [CHR ''2'']"
    by (simp_all add: ImageVolumePath_def sampleSDK_def)
  then show ?thesis
    unfolding wantedHash_eq_iff using fnvWrite_inj_last [of _ "''img:''" "CHR ''1''" "CHR ''2''"] by auto
qed

theorem injected_pod_stays_manageable_witness:
  "\<exists>p' p'' ns kind name. Default sampleLib sampleDeps (sampleDefaulter (Some sampleMutator)) samplePod () = Returns (p', ())
    \<and> p' \<noteq> samplePod
    \<and> Default sampleLib sampleDeps raisedDefaulter p' [] = Returns (p'', [(ns, kind, name, OutcomeSuccess)])
    \<and> gm_get (om_Annotations (pod_Meta p'')) InjectedAnnotation \<noteq> gm_get (om_Annotations (pod_Meta p')) InjectedAnnotation"
proof -
  let ?d = "sampleDefaulter (Some sampleMutator)"
  let ?cm = "InjectConfig (sampleInst '''' ''apps'')"
  have d: "pcd_Mutator ?d = Some sampleMutator" "pcd_Mutator raisedDefaulter = Some \<lparr>pm_Cfg = sampleSDK ''2''\<rparr>"
    "pcd_Metrics raisedDefaulter = Some logOutcome" "pcd_Registry raisedDefaulter = sampleRegistry"
    by (simp_all add: sampleDefaulter_def raisedDefaulter_def)
  let ?p' = "injectedPod sampleLib sampleDeps sampleRule (sampleSDK ''1'') (spanSkip sampleLib ?d samplePod) samplePod"
  have "decision sampleLib (pcd_Registry ?d) (pcd_Reader ?d) (pm_Cfg sampleMutator) samplePod = Inject sampleRule (sampleSDK ''1'')"
    by (simp add: sampleDefaulter_def sampleMutator_def sample_decision)
  then have run: "Default sampleLib sampleDeps ?d samplePod () = Returns (?p', ())"
    by (simp add: Default_decision [where lib = sampleLib, OF d(1)])
  have "\<not> IsInstrumented (pod_Meta samplePod)" by (simp add: IsInstrumented_def samplePod_def emptyMeta_def)
  then have ne: "?p' \<noteq> samplePod" using InjectedAnnotation_kept by metis
  obtain p'' ns kind name result where again: "Default sampleLib sampleDeps raisedDefaulter ?p' [] = Returns (p'', [(ns, kind, name, result)])"
    using Default_logs [OF d(2,3)] by blast
  let ?h = "wantedHash (bl_ruleHash sampleLib) (sampleSDK ''2'') (rule_Config sampleRule)"
  have eff: "WithConfigMapOverrides (pm_Cfg \<lparr>pm_Cfg = sampleSDK ''2''\<rparr>) ?cm = sampleSDK ''2''"
    by (simp add: WithConfigMapOverrides_def sampleInst_def)
  have m: "Match (bl_match sampleLib) (pcd_Registry raisedDefaulter) (Resolve (pcd_Reader raisedDefaulter) ?p') = Some (sampleRule, ?cm)"
    unfolding d(4) by (simp add: Match_injected [OF sample_ignores] sample_match)
  have v: "sd_ImageVersion (WithConfigMapOverrides (pm_Cfg \<lparr>pm_Cfg = sampleSDK ''2''\<rparr>) ?cm) \<noteq> ''''"
    unfolding eff by (simp add: sampleSDK_def)
  have h: "PodConfigHash (bl_ruleHash sampleLib) (WithConfigMapOverrides (pm_Cfg \<lparr>pm_Cfg = sampleSDK ''2''\<rparr>) ?cm) (rule_Config sampleRule) = Some ?h"
    unfolding eff by (rule PodConfigHash_wanted)
  have old: "gm_get (om_Annotations (pod_Meta ?p')) InjectedAnnotation \<noteq> Some ?h"
    using raised_hash by (simp add: injectedPod_meta gomap_simps)
  have "result = OutcomeSuccess \<and> gm_get (om_Annotations (pod_Meta p'')) InjectedAnnotation = Some ?h"
    using injected_pod_stays_manageable [OF d(1) run ne d(2,3) again, THEN conjunct2, rule_format, OF conjI [OF m conjI [OF v conjI [OF h old]]]]
    by blast
  with run ne again old show ?thesis by metis
qed

text \<open>
  Without a mutator the handler is not the no-op its comment promises: it panics on
  exactly the pods that a rule matches, and records nothing for them.
\<close>

theorem nil_mutator_panics:
  assumes "pcd_Mutator d = None"
  shows "Default lib deps d p m = Panic \<longleftrightarrow> Match (bl_match lib) (pcd_Registry d) (Resolve (pcd_Reader d) p) \<noteq> None"
  using assms by (cases "Match (bl_match lib) (pcd_Registry d) (Resolve (pcd_Reader d) p)") (auto simp: Default_def)

theorem nil_mutator_panics_witness:
  "Default sampleLib sampleDeps (sampleDefaulter None) samplePod () = Panic"
  using nil_mutator_panics [of "sampleDefaulter None" sampleLib sampleDeps samplePod "()"] sample_match
  by (simp add: sampleDefaulter_def)

end
