(* ===== verification/Metrics.thy ===== *)
theory Metrics
  imports PodWebhook "HOL-Library.Multiset"
begin

text \<open>
  \<open>internal/metrics\<close>: the two event counters (\<open>metrics.go\<close>) and the gauge that classifies
  every pod at scrape time (\<open>collector.go\<close>). A Prometheus counter vector is a function from
  label tuples to counts, as the Prometheus client documents it: a tuple that was never
  incremented reads zero. The receiver of the recording methods may be a nil pointer, so the
  state is an option. The help texts of the metrics are left out. The
  hash of a configuration always exists (\<open>PodConfigHash_eq\<close>), so its panic is no branch here.

  Both counters meet the contract \<open>label_counter\<close>, the first one through the recorder interface
  of the webhook, \<open>request_recorder\<close>; the interpretations are here.
\<close>

section \<open>Counters\<close>

definition metricPrefix :: string where
  "metricPrefix = ''beyla''"

record sdkInjectionMetrics =
  requests :: "string \<times> string \<times> string \<times> string \<Rightarrow> nat"
  restarts :: "string \<times> string \<times> string \<Rightarrow> nat"

definition inc :: "'k \<Rightarrow> ('k \<Rightarrow> nat) \<Rightarrow> 'k \<Rightarrow> nat" where
  "inc k c = c(k := c k + 1)"

definition NewSDKInjectionMetrics :: "sdkInjectionMetrics option" where
  "NewSDKInjectionMetrics = Some \<lparr>requests = (\<lambda>_. 0), restarts = (\<lambda>_. 0)\<rparr>"

definition RecordRequest :: "string \<Rightarrow> string \<Rightarrow> string \<Rightarrow> string \<Rightarrow> sdkInjectionMetrics option \<Rightarrow> sdkInjectionMetrics option" where
  "RecordRequest namespace workloadKind workloadName result m =
    (case m of None \<Rightarrow> None
     | Some m \<Rightarrow> Some (m\<lparr>requests := inc (namespace, workloadKind, workloadName, result) (requests m)\<rparr>))"

definition RecordRestart :: "string \<Rightarrow> string \<Rightarrow> string \<Rightarrow> sdkInjectionMetrics option \<Rightarrow> sdkInjectionMetrics option" where
  "RecordRestart namespace workloadKind workloadName m =
    (case m of None \<Rightarrow> None
     | Some m \<Rightarrow> Some (m\<lparr>restarts := inc (namespace, workloadKind, workloadName) (restarts m)\<rparr>))"

definition requestCount :: "sdkInjectionMetrics option \<Rightarrow> string \<times> string \<times> string \<times> string \<Rightarrow> nat" where
  "requestCount m key = (case m of None \<Rightarrow> 0 | Some m \<Rightarrow> requests m key)"

definition restartCount :: "sdkInjectionMetrics option \<Rightarrow> string \<times> string \<times> string \<Rightarrow> nat" where
  "restartCount m key = (case m of None \<Rightarrow> 0 | Some m \<Rightarrow> restarts m key)"

definition enabled :: "sdkInjectionMetrics option \<Rightarrow> bool" where
  "enabled m = (m \<noteq> None)"

interpretation rec: request_recorder RecordRequest requestCount enabled
  by unfold_locales (auto simp: RecordRequest_def requestCount_def enabled_def inc_def split: option.splits if_splits)

interpretation rst: label_counter "\<lambda>(ns, kind, name). RecordRestart ns kind name" restartCount enabled
  by unfold_locales (auto simp: RecordRestart_def restartCount_def enabled_def inc_def split: option.splits if_splits)

text \<open>The two counters do not touch each other.\<close>

lemma counters_apart:
  "requestCount (RecordRestart ns kind name m) = requestCount m"
  "restartCount (RecordRequest ns kind name result m) = restartCount m"
  by (auto simp: RecordRestart_def RecordRequest_def restartCount_def requestCount_def fun_eq_iff split: option.splits)

section \<open>Classifying pods\<close>

definition StatusInstrumented :: string where
  "StatusInstrumented = ''instrumented''"

definition StatusPendingRestart :: string where
  "StatusPendingRestart = ''pending_restart''"

definition StatusSkipped :: string where
  "StatusSkipped = ''skipped''"

definition StatusUnmatched :: string where
  "StatusUnmatched = ''unmatched''"

definition SkipReasonConflict :: string where
  "SkipReasonConflict = ''conflict''"

definition systemNamespaces :: "string list" where
  "systemNamespaces = [''kube-system'', ''kube-node-lease'', ''kube-public'']"

lemmas status_defs = StatusInstrumented_def StatusPendingRestart_def StatusSkipped_def
  StatusUnmatched_def SkipReasonConflict_def

text \<open>A descriptor is the name of a metric and its variable labels.\<close>

record metricDesc =
  desc_Name :: string
  desc_Labels :: "string list"

record 'sel podStateCollector =
  psc_reader :: reader
  psc_reg :: "'sel registry"
  psc_cfg :: sdkInject
  psc_desc :: metricDesc

definition NewPodStateCollector :: "reader \<Rightarrow> 'sel registry \<Rightarrow> sdkInject \<Rightarrow> 'sel podStateCollector" where
  "NewPodStateCollector rd reg cfg = \<lparr>psc_reader = rd, psc_reg = reg, psc_cfg = cfg,
     psc_desc = \<lparr>desc_Name = metricPrefix @ ''_injection_pods'', desc_Labels = [''k8s_namespace_name'',
       ''k8s_workload_kind'', ''k8s_workload_name'', ''k8s_node_name'', ''status'', ''skip_reason'']\<rparr>\<rparr>"

definition Describe :: "'sel podStateCollector \<Rightarrow> metricDesc list" where
  "Describe c = [psc_desc c]"

text \<open>
  The registry of Prometheus is a parameter: \<open>register\<close> adds descriptors to its state or
  panics. It is documented to panic when a name is there already or the label names of one
  descriptor repeat, which cannot happen among the descriptors of the program.
\<close>

definition counterDescs :: "metricDesc list" where
  "counterDescs =
    [\<lparr>desc_Name = metricPrefix @ ''_sdk_injection_requests_total'', desc_Labels =
        [''k8s_namespace_name'', ''k8s_workload_kind'', ''k8s_workload_name'', ''outcome'']\<rparr>,
     \<lparr>desc_Name = metricPrefix @ ''_sdk_injection_restarts_total'', desc_Labels =
        [''k8s_namespace_name'', ''k8s_workload_kind'', ''k8s_workload_name'']\<rparr>]"

definition MustRegister :: "(metricDesc list \<Rightarrow> 'reg \<Rightarrow> 'reg goRun) \<Rightarrow> 'reg \<Rightarrow> 'reg goRun" where
  "MustRegister register reg = register counterDescs reg"

lemma metrics_distinct:
  "distinct (map desc_Name (counterDescs @ Describe (NewPodStateCollector rd reg cfg)))
    \<and> (\<forall>d\<in>set (counterDescs @ Describe (NewPodStateCollector rd reg cfg)). distinct (desc_Labels d))"
  by (simp add: counterDescs_def Describe_def NewPodStateCollector_def metricPrefix_def)

record labelTuple =
  lt_namespace :: string
  lt_workloadKind :: string
  lt_workloadName :: string
  lt_nodeName :: string
  lt_status :: string
  lt_skipReason :: string

record classification =
  cl_status :: string
  cl_skipReason :: string
  cl_kind :: string
  cl_name :: string

definition classify :: "'sel beylaLib \<Rightarrow> 'sel podStateCollector \<Rightarrow> pod \<Rightarrow> classification" where
  "classify lib c p =
    (let info = Resolve (psc_reader c) p;
         (kind, name) = Workload info
     in case Match (bl_match lib) (psc_reg c) info of
          None \<Rightarrow> \<lparr>cl_status = StatusUnmatched, cl_skipReason = '''', cl_kind = kind, cl_name = name\<rparr>
        | Some (rule, cfg) \<Rightarrow>
           (let effective = WithConfigMapOverrides (psc_cfg c) cfg;
                want = wantedHash (bl_ruleHash lib) effective (rule_Config rule)
            in if IsInstrumentedWithWantedConfig (pod_Spec p) (pod_Meta p) want
               then \<lparr>cl_status = StatusInstrumented, cl_skipReason = '''', cl_kind = kind, cl_name = name\<rparr>
               else if PreloadsSomethingElse p
               then \<lparr>cl_status = StatusSkipped, cl_skipReason = SkipReasonConflict, cl_kind = kind, cl_name = name\<rparr>
               else \<lparr>cl_status = StatusPendingRestart, cl_skipReason = '''', cl_kind = kind, cl_name = name\<rparr>))"

definition podLabels :: "'sel beylaLib \<Rightarrow> 'sel podStateCollector \<Rightarrow> pod \<Rightarrow> labelTuple" where
  "podLabels lib c p =
    (let cl = classify lib c p in
     \<lparr>lt_namespace = om_Namespace (pod_Meta p), lt_workloadKind = cl_kind cl, lt_workloadName = cl_name cl,
       lt_nodeName = ps_NodeName (pod_Spec p), lt_status = cl_status cl, lt_skipReason = cl_skipReason cl\<rparr>)"

text \<open>\<open>counts[k]++\<close> on a map whose absent keys read zero.\<close>

definition bump :: "'k \<Rightarrow> ('k \<times> nat) list \<Rightarrow> ('k \<times> nat) list" where
  "bump k m = AList.update k ((case map_of m k of Some n \<Rightarrow> n | None \<Rightarrow> 0) + 1) m"

fun countPods :: "'sel beylaLib \<Rightarrow> 'sel podStateCollector \<Rightarrow> pod list \<Rightarrow> (labelTuple \<times> nat) list \<Rightarrow> (labelTuple \<times> nat) list" where
  "countPods lib c [] counts = counts"
| "countPods lib c (p # ps) counts =
    (if om_DeletionTimestamp (pod_Meta p) \<noteq> None then countPods lib c ps counts
     else if om_Namespace (pod_Meta p) \<in> set systemNamespaces then countPods lib c ps counts
     else countPods lib c ps (bump (podLabels lib c p) counts))"

text \<open>The samples of one scrape; a failed list gives none.\<close>

definition Collect :: "'sel beylaLib \<Rightarrow> 'sel podStateCollector \<Rightarrow> err + pod list \<Rightarrow> (labelTuple \<times> nat) list" where
  "Collect lib c pods = (case pods of Inl e \<Rightarrow> [] | Inr items \<Rightarrow> countPods lib c items [])"

section \<open>Counting\<close>

definition counted :: "pod \<Rightarrow> bool" where
  "counted p = (om_DeletionTimestamp (pod_Meta p) = None \<and> om_Namespace (pod_Meta p) \<notin> set systemNamespaces)"

lemma map_of_update: "map_of (AList.update k v m) k' = (if k' = k then Some v else map_of m k')"
  by (simp add: update_conv')

lemma map_of_bump: "map_of (bump k m) k' =
    (if k' = k then Some ((case map_of m k of Some n \<Rightarrow> n | None \<Rightarrow> 0) + 1) else map_of m k')"
  by (simp add: bump_def map_of_update)

lemma distinct_bump: "distinct (map fst m) \<Longrightarrow> distinct (map fst (bump k m))"
  by (simp add: bump_def distinct_update)

lemma countPods_distinct: "distinct (map fst m) \<Longrightarrow> distinct (map fst (countPods lib c ps m))"
  by (induction ps arbitrary: m) (simp_all add: distinct_bump)

lemma countPods_get: "map_of (countPods lib c ps m) k =
    (let n = length (filter (\<lambda>p. counted p \<and> podLabels lib c p = k) ps) in
     if n = 0 then map_of m k else Some (n + (case map_of m k of Some i \<Rightarrow> i | None \<Rightarrow> 0)))"
proof (induction ps arbitrary: m)
  case Nil
  then show ?case by simp
next
  case (Cons p ps)
  then show ?case
    by (cases "counted p") (auto simp: counted_def map_of_bump Let_def split: option.split)
qed

lemma sum_bump:
  assumes "distinct (map fst m)"
  shows "sum_list (map snd (bump k m)) = Suc (sum_list (map snd m))"
proof (cases "map_of m k")
  case None
  then have "k \<notin> fst ` set m" by (simp add: map_of_eq_None_iff)
  then have "sum_list (map snd (AList.update k 1 m)) = Suc (sum_list (map snd m))"
    by (induction m) auto
  with None show ?thesis by (simp add: bump_def)
next
  case (Some n)
  have "sum_list (map snd (AList.update k (Suc n) m)) = Suc (sum_list (map snd m))"
    using assms Some
  proof (induction m)
    case (Cons a m)
    then show ?case by (cases a) (auto split: if_splits)
  qed simp
  with Some show ?thesis by (simp add: bump_def)
qed

lemma countPods_sum: "distinct (map fst m) \<Longrightarrow>
    sum_list (map snd (countPods lib c ps m)) = length (filter counted ps) + sum_list (map snd m)"
proof (induction ps arbitrary: m)
  case Nil
  then show ?case by simp
next
  case (Cons p ps)
  then show ?case by (auto simp: counted_def distinct_bump sum_bump)
qed

section \<open>Properties\<close>

fun admitAll :: "'sel beylaLib \<Rightarrow> mutatorDeps \<Rightarrow> ('sel, 'm) podCustomDefaulter \<Rightarrow> pod list \<Rightarrow> 'm \<Rightarrow> 'm" where
  "admitAll lib deps d [] m = m"
| "admitAll lib deps d (p # ps) m =
    admitAll lib deps d ps (case Default lib deps d p m of Panic \<Rightarrow> m | Returns (p', m') \<Rightarrow> m')"

lemma admitAll_fold:
  assumes "pcd_Mutator d = Some pm" "pcd_Metrics d = Some rec_req"
  shows "admitAll lib deps d ps m = fold (\<lambda>(ns, kind, name, result). rec_req ns kind name result)
    (map (requestKey lib (pcd_Registry d) (pcd_Reader d) (pm_Cfg pm)) ps) m"
proof (induction ps arbitrary: m)
  case Nil
  then show ?case by simp
next
  case (Cons p ps)
  then show ?case
    by (simp add: Default_decision [where lib = lib, OF assms(1)] recordOutcome_key [OF assms(2)] case_prod_unfold)
qed

text \<open>
  C30. The request counter is exact: after any sequence of admissions its value for a label
  tuple has grown by the number of pods whose workload and decision are that tuple, so every
  admission is counted once, under one outcome.
\<close>

theorem request_counter_exact:
  assumes "pcd_Mutator d = Some pm" "pcd_Metrics d = Some RecordRequest" "m \<noteq> None"
  shows "requestCount (admitAll lib deps d ps m) key = requestCount m key
    + length (filter (\<lambda>p. requestKey lib (pcd_Registry d) (pcd_Reader d) (pm_Cfg pm) p = key) ps)"
proof -
  have "count_list (map f ps) key = length (filter (\<lambda>p. f p = key) ps)" for f :: "pod \<Rightarrow> string \<times> string \<times> string \<times> string"
    by (induction ps) auto
  moreover have "enabled m" using assms(3) by (simp add: enabled_def)
  ultimately show ?thesis
    unfolding admitAll_fold [OF assms(1,2)] by (simp add: rec.tally_all)
qed

definition countingDefaulter :: "(string, sdkInjectionMetrics option) podCustomDefaulter" where
  "countingDefaulter = \<lparr>pcd_Registry = sampleRegistry, pcd_Reader = noReader, pcd_Mutator = Some sampleMutator,
     pcd_Metrics = Some RecordRequest\<rparr>"

theorem request_counter_exact_witness:
  "requestCount (admitAll sampleLib sampleDeps countingDefaulter [samplePod, samplePod] NewSDKInjectionMetrics)
     (''apps'', ''Pod'', ''web'', ''success'') = 2"
proof -
  have key: "requestKey sampleLib sampleRegistry noReader (sampleSDK ''1'') samplePod = (''apps'', ''Pod'', ''web'', ''success'')"
    unfolding requestKey_def sample_decision
    by (simp add: OutcomeSuccess_def Workload_def Resolve_def samplePod_def emptyMeta_def)
  show ?thesis
    using request_counter_exact [of countingDefaulter sampleMutator NewSDKInjectionMetrics sampleLib sampleDeps
        "[samplePod, samplePod]" "(''apps'', ''Pod'', ''web'', ''success'')"]
    by (simp add: countingDefaulter_def sampleMutator_def key NewSDKInjectionMetrics_def requestCount_def)
qed

text \<open>
  C32. The gauge counts every pod exactly once: the samples of a scrape have distinct labels,
  each is the number of counted pods with these labels, and they add up to the number of
  pods that are neither terminating nor in a system namespace.
\<close>

theorem Collect_counts_each_pod_once:
  "distinct (map fst (Collect lib c (Inr items)))
   \<and> sum_list (map snd (Collect lib c (Inr items))) = length (filter counted items)
   \<and> map_of (Collect lib c (Inr items)) k =
      (let n = length (filter (\<lambda>p. counted p \<and> podLabels lib c p = k) items) in if n = 0 then None else Some n)"
  by (simp add: Collect_def countPods_distinct countPods_sum countPods_get)

fun statusOf :: "'sel decision \<Rightarrow> string \<times> string" where
  "statusOf Unselected = (StatusUnmatched, '''')"
| "statusOf NoSDK = (StatusPendingRestart, '''')"
| "statusOf Current = (StatusInstrumented, '''')"
| "statusOf Foreign = (StatusSkipped, SkipReasonConflict)"
| "statusOf (Inject rule cfg) = (StatusPendingRestart, '''')"

lemma classify_decision:
  assumes "decision lib (psc_reg c) (psc_reader c) (psc_cfg c) p \<noteq> NoSDK"
  shows "(cl_status (classify lib c p), cl_skipReason (classify lib c p))
      = statusOf (decision lib (psc_reg c) (psc_reader c) (psc_cfg c) p)
    \<and> (cl_kind (classify lib c p), cl_name (classify lib c p)) = Workload (Resolve (psc_reader c) p)"
  using assms by (auto simp: classify_def decision_def Let_def wanted_iff split: option.splits prod.splits)

text \<open>
  C29. The gauge agrees with the webhook. Take the handler and the collector of one program, over
  the same store, reader and configuration, and let the handler admit a pod: if the outcome
  it records is not that no SDK version is configured, then the collector files the same
  pod under the workload the handler recorded, as unmatched after no_matching_selector, instrumented after
  already_instrumented, skipped as a conflict after ld_preload_conflict, and pending a restart
  after success.
\<close>

theorem gauge_agrees_with_webhook:
  fixes lib :: "'sel beylaLib"
  assumes "pcd_Registry d = psc_reg c" "pcd_Reader d = psc_reader c" "pcd_Mutator d = Some \<lparr>pm_Cfg = psc_cfg c\<rparr>"
    and "pcd_Metrics d = Some logOutcome"
    and "Default lib deps d p [] = Returns (p', [(ns, kind, name, result)])" "result \<noteq> OutcomeNoSDKConfig"
  shows "(result, cl_status (classify lib c p), cl_skipReason (classify lib c p)) \<in>
      {(OutcomeNoMatchingSelector, StatusUnmatched, ''''), (OutcomeAlreadyInstrumented, StatusInstrumented, ''''),
       (OutcomeLDPreloadConflict, StatusSkipped, SkipReasonConflict), (OutcomeSuccess, StatusPendingRestart, '''')}
    \<and> ns = om_Namespace (pod_Meta p) \<and> cl_kind (classify lib c p) = kind \<and> cl_name (classify lib c p) = name"
proof -
  let ?dec = "decision lib (psc_reg c) (psc_reader c) (psc_cfg c) p"
  have log: "ns = om_Namespace (pod_Meta p)" "(kind, name) = Workload (Resolve (psc_reader c) p)" "result = outcomeOf ?dec"
    using Default_logged [OF assms(3-5)] by (simp_all add: assms(1,2))
  then have "?dec \<noteq> NoSDK" using assms(6) by auto
  from classify_decision [OF this] log show ?thesis
    by (cases ?dec) (auto simp: \<open>?dec \<noteq> NoSDK\<close> prod_eq_iff)
qed

definition sampleCollector :: "string \<Rightarrow> string podStateCollector" where
  "sampleCollector v = NewPodStateCollector noReader sampleRegistry (sampleSDK v)"

theorem gauge_agrees_with_webhook_witness:
  "\<exists>p' ns kind name. Default sampleLib sampleDeps raisedDefaulter samplePod [] = Returns (p', [(ns, kind, name, OutcomeSuccess)])
    \<and> cl_status (classify sampleLib (sampleCollector ''2'') samplePod) = ''pending_restart''"
proof -
  have d: "pcd_Registry raisedDefaulter = psc_reg (sampleCollector ''2'')" "pcd_Reader raisedDefaulter = psc_reader (sampleCollector ''2'')"
    "pcd_Mutator raisedDefaulter = Some \<lparr>pm_Cfg = psc_cfg (sampleCollector ''2'')\<rparr>" "pcd_Metrics raisedDefaulter = Some logOutcome"
    by (simp_all add: raisedDefaulter_def sampleCollector_def NewPodStateCollector_def)
  obtain p' ns kind name result where run: "Default sampleLib sampleDeps raisedDefaulter samplePod [] = Returns (p', [(ns, kind, name, result)])"
    using Default_logs [OF d(3,4)] by blast
  have r: "result = OutcomeSuccess"
    using Default_logged [OF d(3,4) run] sample_decision_at [of "''2''"]
    by (simp add: raisedDefaulter_def sampleCollector_def NewPodStateCollector_def)
  have "result \<noteq> OutcomeNoSDKConfig" by (simp add: r outcome_defs)
  from gauge_agrees_with_webhook [OF d run this]
  have "cl_status (classify sampleLib (sampleCollector ''2'') samplePod) = ''pending_restart''"
    by (auto simp: r outcome_defs StatusPendingRestart_def)
  with run r show ?thesis by blast
qed

text \<open>
  Where no SDK version is configured the gauge and the request counter disagree, against the
  comment: a selected pod that was never injected and preloads nothing is shown as waiting
  for a restart, while every admission of it ends with no_sdk_config and changes nothing.
\<close>

theorem gauge_shows_pending_without_SDK:
  assumes "decision lib (psc_reg c) (psc_reader c) (psc_cfg c) p = NoSDK"
    and "gm_get (om_Annotations (pod_Meta p)) InjectedAnnotation = None" "\<not> PreloadsSomethingElse p"
    and "pcd_Registry d = psc_reg c" "pcd_Reader d = psc_reader c" "pcd_Mutator d = Some \<lparr>pm_Cfg = psc_cfg c\<rparr>"
  shows "cl_status (classify lib c p) = StatusPendingRestart
    \<and> Default lib deps d p m = Returns (p, recordOutcome d (Resolve (pcd_Reader d) p) OutcomeNoSDKConfig m)"
proof
  show "cl_status (classify lib c p) = StatusPendingRestart"
    using assms(1-3) by (auto simp: classify_def decision_def Let_def wanted_iff split: option.splits prod.splits if_splits)
  show "Default lib deps d p m = Returns (p, recordOutcome d (Resolve (pcd_Reader d) p) OutcomeNoSDKConfig m)"
    unfolding Default_decision [where lib = lib, OF assms(6)] using assms(1) by (simp add: assms(4,5))
qed

theorem gauge_shows_pending_without_SDK_witness:
  "cl_status (classify sampleLib (sampleCollector '''') samplePod) = StatusPendingRestart"
proof -
  have eff: "WithConfigMapOverrides (sampleSDK '''') (InjectConfig (sampleInst '''' ''apps'')) = sampleSDK ''''"
    by (simp add: WithConfigMapOverrides_def sampleInst_def)
  have dec: "decision sampleLib (psc_reg (sampleCollector '''')) (psc_reader (sampleCollector ''''))
      (psc_cfg (sampleCollector '''')) samplePod = NoSDK"
    by (simp add: sampleCollector_def NewPodStateCollector_def decision_def sample_match eff) (simp add: sampleSDK_def)
  have clean: "\<not> PreloadsSomethingElse samplePod" using decision_InjectD [OF sample_decision] by blast
  have none: "gm_get (om_Annotations (pod_Meta samplePod)) InjectedAnnotation = None"
    by (simp add: samplePod_def emptyMeta_def)
  show ?thesis
    by (rule gauge_shows_pending_without_SDK [OF dec none clean, THEN conjunct1,
        of "\<lparr>pcd_Registry = sampleRegistry, pcd_Reader = noReader,
          pcd_Mutator = Some \<lparr>pm_Cfg = sampleSDK ''''\<rparr>, pcd_Metrics = None\<rparr>"])
      (simp_all add: sampleCollector_def NewPodStateCollector_def)
qed

end
