(* ===== verification/ConfigMapWebhook.thy ===== *)
theory ConfigMapWebhook
  imports KubeTypes GoStrings
begin

text \<open>
  \<open>internal/webhook/v1/configmap_webhook.go\<close>: the validating webhook that guards ConfigMaps
  with the selector annotation. The annotation's key is a constant of Beyla's package
  \<open>configmap\<close> and the admission decoder is controller-runtime's: both are parameters.
\<close>

section \<open>Requests and responses\<close>

record userInfo =
  ui_Username :: string
  ui_Groups :: "string list"

record 'raw admissionRequest =
  ar_Object :: 'raw
  ar_UserInfo :: userInfo

datatype admissionResponse = Errored nat err | Allowed string | Denied string

definition StatusBadRequest :: nat where
  "StatusBadRequest = 400"

definition ValidateConfigMapPath :: string where
  "ValidateConfigMapPath = ''/validate--v1-configmap''"

definition breakGlassGroup :: string where
  "breakGlassGroup = ''system:masters''"

section \<open>The validator\<close>

record 'raw configMapValidator =
  cv_decoder :: "'raw \<Rightarrow> err + configMap"
  cv_allowedUsers :: "string set"

fun addUsers :: "string set \<Rightarrow> string list \<Rightarrow> string set" where
  "addUsers users [] = users"
| "addUsers users (u # us) = addUsers (if u \<noteq> '''' then insert u users else users) us"

definition NewConfigMapValidator :: "('raw \<Rightarrow> err + configMap) \<Rightarrow> string list \<Rightarrow> 'raw configMapValidator" where
  "NewConfigMapValidator decode allowedUsers =
    \<lparr>cv_decoder = decode, cv_allowedUsers = addUsers {} allowedUsers\<rparr>"

definition authorized :: "'raw configMapValidator \<Rightarrow> userInfo \<Rightarrow> bool" where
  "authorized v user =
    (if ui_Username user \<in> cv_allowedUsers v then True
     else list_ex (\<lambda>g. g = breakGlassGroup) (ui_Groups user))"

definition deniedMessage :: "string \<Rightarrow> string \<Rightarrow> string" where
  "deniedMessage selectorAnnotation user =
    ''user '' @ quoted user @ '' is not authorized to create or modify Beyla injection ConfigMaps (annotation ''
      @ quoted selectorAnnotation @ '')''"

definition Handle :: "string \<Rightarrow> 'raw configMapValidator \<Rightarrow> 'raw admissionRequest \<Rightarrow> admissionResponse" where
  "Handle selectorAnnotation v req =
    (case cv_decoder v (ar_Object req) of
       Inl e \<Rightarrow> Errored StatusBadRequest e
     | Inr cm \<Rightarrow>
        (if gm_get (om_Annotations (cm_Meta cm)) selectorAnnotation = None then Allowed ''''
         else if authorized v (ar_UserInfo req) then Allowed ''''
         else Denied (deniedMessage selectorAnnotation (ui_Username (ar_UserInfo req)))))"

section \<open>Properties\<close>

lemma addUsers_set: "addUsers users us = users \<union> {u \<in> set us. u \<noteq> ''''}"
  by (induction users us rule: addUsers.induct) auto

lemma authorized_iff: "authorized (NewConfigMapValidator decode us) user \<longleftrightarrow>
    (ui_Username user \<noteq> '''' \<and> ui_Username user \<in> set us) \<or> breakGlassGroup \<in> set (ui_Groups user)"
  by (auto simp: authorized_def NewConfigMapValidator_def addUsers_set list_ex_iff)

text \<open>
  C26. The gate is exact: a request whose object cannot be decoded is an error, never an
  admission; a decoded ConfigMap is admitted exactly when it lacks the annotation or its
  author is a listed (non-empty) user or a member of the break-glass group, and denied
  otherwise. An anonymous user is never on the list, whatever the list says.
\<close>

theorem validator_gate:
  "((\<exists>r. Handle ann (NewConfigMapValidator decode us) req = Allowed r) \<longleftrightarrow>
     (\<exists>cm. decode (ar_Object req) = Inr cm
       \<and> (gm_get (om_Annotations (cm_Meta cm)) ann = None
         \<or> (ui_Username (ar_UserInfo req) \<noteq> '''' \<and> ui_Username (ar_UserInfo req) \<in> set us)
         \<or> breakGlassGroup \<in> set (ui_Groups (ar_UserInfo req)))))
   \<and> ((\<exists>r. Handle ann (NewConfigMapValidator decode us) req = Denied r) \<longleftrightarrow>
     (\<exists>cm. decode (ar_Object req) = Inr cm \<and> gm_get (om_Annotations (cm_Meta cm)) ann \<noteq> None
       \<and> \<not> authorized (NewConfigMapValidator decode us) (ar_UserInfo req)))
   \<and> ((\<exists>e. Handle ann (NewConfigMapValidator decode us) req = Errored StatusBadRequest e) \<longleftrightarrow>
     (\<exists>e. decode (ar_Object req) = Inl e))"
proof -
  have d: "cv_decoder (NewConfigMapValidator decode us) = decode" by (simp add: NewConfigMapValidator_def)
  show ?thesis
    by (cases "decode (ar_Object req)") (auto simp: Handle_def d authorized_iff)
qed

end
