(* ===== verification/Controller.thy ===== *)
theory Controller
  imports Metrics ConfigMapWebhook "HOL-Library.Product_Lexorder"
begin

text \<open>
  \<open>internal/controller/configmap_controller.go\<close>: the reconciler of selector ConfigMaps and
  its rollout sweep.

  Parameters: the cluster as one reconcile pass reads it (record \<open>cluster\<close>: the answers of the
  client's \<open>Get\<close> and \<open>List\<close>, the dial of the webhook Service, the clock, the result of each
  patch; one answer per question and pass), the constants and YAML documents of Beyla's package \<open>configmap\<close> (record \<open>cmLib\<close>),
  and the order in which Go ranges over the two maps of the sweep (record \<open>rangeOrder\<close>: any
  permutation). The state the reconciler shares with the rest of the program is explicit:
  the registry, the counters and the log of patches that were sent. The log lines are left
  out.
\<close>

section \<open>Data\<close>

record restartCriterion =
  tc_Namespace :: string
  tc_Kind :: string
  tc_Name :: string
  tc_Language :: string

record workloadKey =
  wk_Namespace :: string
  wk_Kind :: string
  wk_Name :: string

record eligibleDeployment =
  ed_Namespace :: string
  ed_Kind :: string
  ed_Name :: string
  ed_Language :: string

record 'sel cmLib =
  cml_SelectorAnnotation :: string
  cml_KeyInstrumentation :: string
  cml_KeyEligibleForRestart :: string
  cml_yamlInject :: "string \<Rightarrow> err + 'sel injectConfig"
  cml_yamlEligible :: "string \<Rightarrow> err + eligibleDeployment option list"
  cml_sortTies :: "eligibleDeployment option list \<Rightarrow> eligibleDeployment option list"

record cluster =
  cl_getConfigMap :: "string \<Rightarrow> string \<Rightarrow> configMap getResult"
  cl_getNode :: "string \<Rightarrow> node getResult"
  cl_listConfigMaps :: "err + configMap list"
  cl_listPods :: "err + pod list"
  cl_listPodsIn :: "string \<Rightarrow> err + pod list"
  cl_reader :: reader
  cl_dial :: "string \<Rightarrow> err + unit"
  cl_now :: string
  cl_patch :: "workloadKey \<Rightarrow> string \<Rightarrow> err option"

record rangeOrder =
  ro_namespaces :: "(string \<times> restartCriterion list) list \<Rightarrow> (string \<times> restartCriterion list) list"
  ro_workloads :: "workloadKey list \<Rightarrow> workloadKey list"

record configMapReconciler =
  cr_WebhookReady :: "err option option"
  cr_WebhookServiceAddr :: string
  cr_DefaultSDKConfig :: sdkInject

record 'sel controllerState =
  cs_Registry :: "'sel registry"
  cs_Metrics :: "sdkInjectionMetrics option"
  cs_Patches :: "(workloadKey \<times> string) list"

record ctrlResult =
  rr_RequeueAfter :: nat

definition emptyResult :: ctrlResult where
  "emptyResult = \<lparr>rr_RequeueAfter = 0\<rparr>"

definition kindDaemonSet :: string where
  "kindDaemonSet = ''DaemonSet''"

definition kindReplicaSet :: string where
  "kindReplicaSet = ''ReplicaSet''"

definition kindStatefulSet :: string where
  "kindStatefulSet = ''StatefulSet''"

lemmas kind_defs = kindDeployment_def kindDaemonSet_def kindReplicaSet_def kindStatefulSet_def

definition restartKinds :: "string list" where
  "restartKinds = [kindDeployment, kindReplicaSet, kindStatefulSet, kindDaemonSet]"

definition protectedNamespaces :: "string list" where
  "protectedNamespaces = [''kube-system'', ''kube-public'', ''kube-node-lease'', ''cert-manager'',
     ''monitoring'', ''local-path-storage'', ''grafana-alloy'', ''gke-connect'', ''gke-gmp-system'',
     ''gke-managed-cim'', ''gke-managed-filestorecsi'', ''gke-managed-metrics-server'',
     ''gke-managed-system'', ''gke-system'', ''gke-managed-volumepopulator'', ''gatekeeper-system'',
     ''beyla-k8s-injector'']"

definition zeroKey :: workloadKey where
  "zeroKey = \<lparr>wk_Namespace = '''', wk_Kind = '''', wk_Name = ''''\<rparr>"

section \<open>Matching pods and workloads\<close>

definition rollableKind :: "string \<Rightarrow> bool" where
  "rollableKind k = (k = kindDeployment \<or> k = kindStatefulSet \<or> k = kindDaemonSet)"

text \<open>The loop from the last link of the chain down to the first.\<close>

definition resolveWorkload :: "podInfo \<Rightarrow> workloadKey" where
  "resolveWorkload info =
    (case find (\<lambda>x. rollableKind (ow_Kind x)) (rev (pi_OwnerChain info)) of
       Some x \<Rightarrow> \<lparr>wk_Namespace = pi_Namespace info, wk_Kind = ow_Kind x, wk_Name = ow_Name x\<rparr>
     | None \<Rightarrow> zeroKey)"

definition matchesTarget :: "podInfo \<Rightarrow> restartCriterion \<Rightarrow> bool" where
  "matchesTarget info t =
    list_ex (\<lambda>x. ow_Kind x = tc_Kind t \<and> (tc_Name t = '''' \<or> tc_Name t = ow_Name x)) (pi_OwnerChain info)"

definition matchesAnyTarget :: "podInfo \<Rightarrow> restartCriterion list \<Rightarrow> bool" where
  "matchesAnyTarget info targets = list_ex (matchesTarget info) targets"

definition hasSelectorAnnotation :: "'sel cmLib \<Rightarrow> objectMeta \<Rightarrow> bool" where
  "hasSelectorAnnotation cml meta = (gm_get (om_Annotations meta) (cml_SelectorAnnotation cml) \<noteq> None)"

section \<open>Parsing a ConfigMap\<close>

text \<open>
  \<open>sort.Slice\<close> with the comparison of the code. It is not stable, so the order among equal keys
  is its own: a stable sort of some permutation of the list, \<open>cml_sortTies\<close>. The comparison
  dereferences every element, so a nil entry panics as soon as anything is compared.
\<close>

definition eligibleKey :: "eligibleDeployment option \<Rightarrow> string \<times> string" where
  "eligibleKey e = (case e of Some x \<Rightarrow> (ed_Namespace x, ed_Name x) | None \<Rightarrow> ('''', ''''))"

definition sortEligible :: "'sel cmLib \<Rightarrow> eligibleDeployment option list \<Rightarrow> eligibleDeployment option list goRun" where
  "sortEligible cml es = (if length es \<ge> 2 \<and> None \<in> set es then Panic else Returns (sort_key eligibleKey (cml_sortTies cml es)))"

fun eligibleTargets :: "eligibleDeployment option list \<Rightarrow> restartCriterion list" where
  "eligibleTargets [] = []"
| "eligibleTargets (None # es) = eligibleTargets es"
| "eligibleTargets (Some c # es) =
    (if ed_Namespace c = '''' \<or> ed_Kind c = '''' then eligibleTargets es
     else if ed_Kind c \<notin> set restartKinds then eligibleTargets es
     else \<lparr>tc_Namespace = ed_Namespace c, tc_Kind = ed_Kind c, tc_Name = ed_Name c, tc_Language = ed_Language c\<rparr>
       # eligibleTargets es)"

definition parseConfigMap :: "'sel cmLib \<Rightarrow> string gomap \<Rightarrow> (err + 'sel instrumentation \<times> restartCriterion list) goRun" where
  "parseConfigMap cml data =
    (case (case gm_get data (cml_KeyInstrumentation cml) of
             None \<Rightarrow> Inr \<lparr>InjectConfig = emptyInjectConfig\<rparr>
           | Some raw \<Rightarrow> (case cml_yamlInject cml raw of
               Inl e \<Rightarrow> Inl (''parse '' @ cml_KeyInstrumentation cml @ '': '' @ e)
             | Inr cfg \<Rightarrow> Inr \<lparr>InjectConfig = cfg\<rparr>)) of
       Inl e \<Rightarrow> Returns (Inl e)
     | Inr inst \<Rightarrow>
        (case gm_get data (cml_KeyEligibleForRestart cml) of
           None \<Rightarrow> Returns (Inr (inst, []))
         | Some raw \<Rightarrow>
            (case cml_yamlEligible cml raw of
               Inl e \<Rightarrow> Returns (Inl (''parse '' @ cml_KeyEligibleForRestart cml @ '': '' @ e))
             | Inr parsed \<Rightarrow>
                (case sortEligible cml parsed of
                   Panic \<Rightarrow> Panic
                 | Returns ordered \<Rightarrow> Returns (Inr (inst, eligibleTargets ordered))))))"

section \<open>Eligibility of a ConfigMap's node\<close>

definition stateNodeEligible :: "'sel cmLib \<Rightarrow> cluster \<Rightarrow> configMap \<Rightarrow> bool \<times> err option" where
  "stateNodeEligible cml cl cm =
    (let nodeName = gm_str (om_Annotations (cm_Meta cm)) (cml_SelectorAnnotation cml) in
     if nodeName = '''' then (True, None)
     else (case cl_getNode cl nodeName of
         GetErr e \<Rightarrow> (False, Some e)
       | NotFound \<Rightarrow> (False, None)
       | Found n \<Rightarrow> (if om_DeletionTimestamp (node_Meta n) \<noteq> None then (False, None) else (True, None))))"

definition cmObjectKey :: "configMap \<Rightarrow> string" where
  "cmObjectKey cm = nsName (om_Namespace (cm_Meta cm)) (om_Name (cm_Meta cm))"

fun snapshotLoop :: "'sel cmLib \<Rightarrow> cluster \<Rightarrow> configMap list \<Rightarrow> 'sel instrumentation gomap
    \<Rightarrow> (err + 'sel instrumentation gomap) goRun" where
  "snapshotLoop cml cl [] insts = Returns (Inr insts)"
| "snapshotLoop cml cl (cm # cms) insts =
    (if \<not> hasSelectorAnnotation cml (cm_Meta cm) then snapshotLoop cml cl cms insts
     else (case stateNodeEligible cml cl cm of
         (_, Some e) \<Rightarrow> Returns (Inl e)
       | (eligible, None) \<Rightarrow>
          (if \<not> eligible then snapshotLoop cml cl cms insts
           else (case parseConfigMap cml (cm_Data cm) of
               Panic \<Rightarrow> Panic
             | Returns (Inl e) \<Rightarrow> snapshotLoop cml cl cms insts
             | Returns (Inr (inst, _)) \<Rightarrow> snapshotLoop cml cl cms (gm_put (cmObjectKey cm) inst insts)))))"

definition refreshRegistry :: "'sel cmLib \<Rightarrow> cluster \<Rightarrow> 'sel registry \<Rightarrow> (err option \<times> 'sel registry) goRun" where
  "refreshRegistry cml cl reg =
    (case cl_listConfigMaps cl of
       Inl e \<Rightarrow> Returns (Some (''list ConfigMaps before cleanup: '' @ e), reg)
     | Inr cms \<Rightarrow>
        (case snapshotLoop cml cl cms [] of
           Panic \<Rightarrow> Panic
         | Returns (Inl e) \<Rightarrow> Returns (Some e, reg)
         | Returns (Inr insts) \<Rightarrow> Returns (None, RegistryReplace insts reg)))"

section \<open>The rollout sweep\<close>

text \<open>\<open>m[k] = append(m[k], x)\<close>.\<close>

definition gm_append :: "string \<Rightarrow> 'a \<Rightarrow> 'a list gomap \<Rightarrow> 'a list gomap" where
  "gm_append k x m = gm_put k ((case gm_get m k of Some xs \<Rightarrow> xs | None \<Rightarrow> []) @ [x]) m"

fun groupTargets :: "restartCriterion list \<Rightarrow> restartCriterion list gomap \<Rightarrow> restartCriterion list gomap" where
  "groupTargets [] m = m"
| "groupTargets (t # ts) m = groupTargets ts (gm_append (tc_Namespace t) t m)"

fun groupCleanup :: "pod list \<Rightarrow> pod list gomap \<Rightarrow> restartCriterion list gomap \<Rightarrow> pod list gomap \<times> restartCriterion list gomap" where
  "groupCleanup [] cleanupPods byNamespace = (cleanupPods, byNamespace)"
| "groupCleanup (p # ps) cleanupPods byNamespace =
    (if IsInstrumented (pod_Meta p)
     then groupCleanup ps (gm_append (om_Namespace (pod_Meta p)) p cleanupPods)
            (gm_put (om_Namespace (pod_Meta p)) [] byNamespace)
     else groupCleanup ps cleanupPods byNamespace)"

text \<open>The body of the loop over pods: the workload to restart for the pod, if any.\<close>

definition podRollout :: "'sel beylaLib \<Rightarrow> sdkInject \<Rightarrow> 'sel registry \<Rightarrow> reader \<Rightarrow> bool \<Rightarrow> restartCriterion list \<Rightarrow> pod \<Rightarrow> workloadKey option" where
  "podRollout lib cfg reg rd cleanupOnly nsTargets p =
    (if om_DeletionTimestamp (pod_Meta p) \<noteq> None then None
     else if length (om_OwnerReferences (pod_Meta p)) = 0 then None
     else
      (let info = Resolve rd p in
       if \<not> cleanupOnly \<and> \<not> matchesAnyTarget info nsTargets then None
       else
        (let skip = (case Match (bl_match lib) reg info of
               None \<Rightarrow> \<not> IsInstrumented (pod_Meta p)
             | Some (rule, cmCfg) \<Rightarrow>
                (if cleanupOnly then True
                 else (let effective = WithConfigMapOverrides cfg cmCfg in
                   if sd_ImageVersion effective = '''' then True
                   else if IsInstrumentedWithWantedConfig (pod_Spec p) (pod_Meta p)
                     (wantedHash (bl_ruleHash lib) effective (rule_Config rule)) then True
                   else PreloadsSomethingElse p)))
         in if skip then None
            else (let key = resolveWorkload info in if key = zeroKey then None else Some key))))"

fun collectPods :: "(pod \<Rightarrow> workloadKey option) \<Rightarrow> pod list \<Rightarrow> workloadKey list \<Rightarrow> workloadKey list" where
  "collectPods f [] toRestart = toRestart"
| "collectPods f (p # ps) toRestart =
    collectPods f ps (case f p of Some key \<Rightarrow> List.insert key toRestart | None \<Rightarrow> toRestart)"

fun collectNamespaces :: "(restartCriterion list \<Rightarrow> pod \<Rightarrow> workloadKey option) \<Rightarrow> (string \<Rightarrow> err + pod list)
    \<Rightarrow> (string \<times> restartCriterion list) list \<Rightarrow> workloadKey list \<Rightarrow> err + workloadKey list" where
  "collectNamespaces f pods_of [] toRestart = Inr toRestart"
| "collectNamespaces f pods_of ((namespace, nsTargets) # rest) toRestart =
    (if namespace \<in> set protectedNamespaces then collectNamespaces f pods_of rest toRestart
     else (case pods_of namespace of
         Inl e \<Rightarrow> Inl (''list pods in '' @ namespace @ '': '' @ e)
       | Inr items \<Rightarrow> collectNamespaces f pods_of rest (collectPods (f nsTargets) items toRestart)))"

definition restartPatch :: "string \<Rightarrow> string" where
  "restartPatch restartTime =
    [char_of (123 :: nat)] @ quoted ''spec'' @ '':'' @ [char_of (123 :: nat)] @ quoted ''template'' @ '':''
    @ [char_of (123 :: nat)] @ quoted ''metadata'' @ '':'' @ [char_of (123 :: nat)] @ quoted ''annotations'' @ '':''
    @ [char_of (123 :: nat)] @ quoted ''beyla.grafana.com/restartedAt'' @ '':'' @ quoted restartTime
    @ replicate 5 (char_of (125 :: nat))"

text \<open>The loop over the workloads to restart. An unknown kind sends nothing and is no error.\<close>

fun patchLoop :: "cluster \<Rightarrow> string \<Rightarrow> workloadKey list \<Rightarrow> 'sel controllerState \<Rightarrow> err list \<Rightarrow> err list \<times> 'sel controllerState" where
  "patchLoop cl patch [] st errs = (errs, st)"
| "patchLoop cl patch (key # keys) st errs =
    (let (e, st) = (if rollableKind (wk_Kind key)
           then (cl_patch cl key patch, st\<lparr>cs_Patches := cs_Patches st @ [(key, patch)]\<rparr>)
           else (None, st))
     in case e of
          Some e \<Rightarrow> patchLoop cl patch keys st
            (errs @ [''patch '' @ wk_Kind key @ '' '' @ wk_Namespace key @ ''/'' @ wk_Name key @ '': '' @ e])
        | None \<Rightarrow> patchLoop cl patch keys
            (st\<lparr>cs_Metrics := RecordRestart (wk_Namespace key) (wk_Kind key) (wk_Name key) (cs_Metrics st)\<rparr>) errs)"

text \<open>\<open>errors.Join\<close>: nil without errors, else the texts on lines of their own.\<close>

definition errorsJoin :: "err list \<Rightarrow> err option" where
  "errorsJoin errs = (if errs = [] then None else Some (joinWith [char_of (10 :: nat)] errs))"

definition rolloutMatching :: "'sel beylaLib \<Rightarrow> rangeOrder \<Rightarrow> cluster \<Rightarrow> configMapReconciler
    \<Rightarrow> restartCriterion list \<Rightarrow> bool \<Rightarrow> 'sel controllerState \<Rightarrow> err option \<times> 'sel controllerState" where
  "rolloutMatching lib ro cl r targets cleanupOnly st =
    (let byNamespace = groupTargets targets [] in
     case (if cleanupOnly then
             (case cl_listPods cl of
                Inl e \<Rightarrow> Inl (''list injected pods for cleanup: '' @ e)
              | Inr items \<Rightarrow> Inr (groupCleanup items [] byNamespace))
           else Inr ([], byNamespace)) of
       Inl e \<Rightarrow> (Some e, st)
     | Inr (cleanupPods, byNamespace) \<Rightarrow>
        (case collectNamespaces
            (podRollout lib (cr_DefaultSDKConfig r) (cs_Registry st) (cl_reader cl) cleanupOnly)
            (\<lambda>namespace. if cleanupOnly
               then Inr (case gm_get cleanupPods namespace of Some ps \<Rightarrow> ps | None \<Rightarrow> [])
               else cl_listPodsIn cl namespace)
            (ro_namespaces ro byNamespace) [] of
           Inl e \<Rightarrow> (Some e, st)
         | Inr toRestart \<Rightarrow>
            (let (errs, st) = patchLoop cl (restartPatch (cl_now cl)) (ro_workloads ro toRestart) st []
             in (errorsJoin errs, st))))"

section \<open>Reconciliation\<close>

text \<open>A TLS connection to the webhook Service that is closed at once.\<close>

definition dialWebhookService :: "cluster \<Rightarrow> string \<Rightarrow> err option" where
  "dialWebhookService cl addr = (case cl_dial cl addr of Inl e \<Rightarrow> Some e | Inr conn \<Rightarrow> None)"

definition reconcileRollouts :: "'sel beylaLib \<Rightarrow> 'sel cmLib \<Rightarrow> rangeOrder \<Rightarrow> cluster \<Rightarrow> configMapReconciler
    \<Rightarrow> restartCriterion list \<Rightarrow> bool \<Rightarrow> 'sel controllerState \<Rightarrow> ((ctrlResult \<times> err option) \<times> 'sel controllerState) goRun" where
  "reconcileRollouts lib cml ro cl r restartTargets cleanupOnly st =
    (if sd_NoAutoRestart (cr_DefaultSDKConfig r) then Returns ((emptyResult, None), st)
     else if (case cr_WebhookReady r of Some (Some e) \<Rightarrow> True | _ \<Rightarrow> False)
     then Returns ((\<lparr>rr_RequeueAfter = 2\<rparr>, None), st)
     else if cr_WebhookServiceAddr r \<noteq> '''' \<and> dialWebhookService cl (cr_WebhookServiceAddr r) \<noteq> None
     then Returns ((\<lparr>rr_RequeueAfter = 2\<rparr>, None), st)
     else
      (case (if cleanupOnly then refreshRegistry cml cl (cs_Registry st) else Returns (None, cs_Registry st)) of
         Panic \<Rightarrow> Panic
       | Returns (Some e, reg) \<Rightarrow> Returns ((emptyResult, Some e), st\<lparr>cs_Registry := reg\<rparr>)
       | Returns (None, reg) \<Rightarrow>
          (let (e, st) = rolloutMatching lib ro cl r restartTargets cleanupOnly (st\<lparr>cs_Registry := reg\<rparr>)
           in if e \<noteq> None \<and> cleanupOnly then Returns ((emptyResult, e), st)
              else Returns ((emptyResult, None), st))))"

definition forget :: "string \<Rightarrow> 'sel controllerState \<Rightarrow> 'sel controllerState" where
  "forget cmKey st = st\<lparr>cs_Registry := RegistryDelete cmKey (cs_Registry st)\<rparr>"

definition Reconcile :: "'sel beylaLib \<Rightarrow> 'sel cmLib \<Rightarrow> rangeOrder \<Rightarrow> cluster \<Rightarrow> configMapReconciler
    \<Rightarrow> string \<Rightarrow> string \<Rightarrow> 'sel controllerState \<Rightarrow> ((ctrlResult \<times> err option) \<times> 'sel controllerState) goRun" where
  "Reconcile lib cml ro cl r ns name st =
    (let cmKey = nsName ns name in
     case cl_getConfigMap cl ns name of
       NotFound \<Rightarrow> reconcileRollouts lib cml ro cl r [] True (forget cmKey st)
     | GetErr e \<Rightarrow> Returns ((emptyResult, Some e), st)
     | Found cm \<Rightarrow>
        (if \<not> hasSelectorAnnotation cml (cm_Meta cm) then Returns ((emptyResult, None), forget cmKey st)
         else
          (let (eligible, e) = stateNodeEligible cml cl cm in
           if e \<noteq> None \<or> \<not> eligible then Returns ((emptyResult, e), forget cmKey st)
           else
            (case parseConfigMap cml (cm_Data cm) of
               Panic \<Rightarrow> Panic
             | Returns (Inl pe) \<Rightarrow> Returns ((emptyResult, None), forget cmKey st)
             | Returns (Inr (inst, restartTargets)) \<Rightarrow>
                (let st = st\<lparr>cs_Registry := RegistrySet cmKey inst (cs_Registry st)\<rparr>;
                     hasConfig = (gm_get (cm_Data cm) (cml_KeyInstrumentation cml) \<noteq> None);
                     cleanupOnly = (hasConfig \<and> \<not> list_ex (\<lambda>rule. rc_Mode (rule_Config rule) \<noteq> ModeSkip)
                       (ic_Rules (InjectConfig inst)))
                 in if \<not> cleanupOnly \<and> length restartTargets = 0 then Returns ((emptyResult, None), st)
                    else reconcileRollouts lib cml ro cl r restartTargets cleanupOnly st)))))"

section \<open>What triggers a reconciliation\<close>

definition configMapsForNode :: "'sel cmLib \<Rightarrow> cluster \<Rightarrow> string \<Rightarrow> (string \<times> string) list" where
  "configMapsForNode cml cl nodeName =
    (case cl_listConfigMaps cl of
       Inl e \<Rightarrow> []
     | Inr cms \<Rightarrow> map (\<lambda>cm. (om_Namespace (cm_Meta cm), om_Name (cm_Meta cm)))
         (filter (\<lambda>cm. gm_str (om_Annotations (cm_Meta cm)) (cml_SelectorAnnotation cml) = nodeName) cms))"

definition noEnqueue :: "'a \<Rightarrow> (string \<times> string) list" where
  "noEnqueue x = []"

definition nodeUpdateFunc :: "objectMeta \<Rightarrow> objectMeta \<Rightarrow> bool" where
  "nodeUpdateFunc old new = (om_DeletionTimestamp old \<noteq> om_DeletionTimestamp new)"

text \<open>
  The watches of \<open>SetupWithManager\<close>. A predicate built by \<open>NewPredicateFuncs\<close> looks at the
  object of a create or delete event and at the new object of an update.
\<close>

datatype watchEvent =
    CMCreate objectMeta | CMUpdate objectMeta objectMeta | CMDelete objectMeta
  | NodeCreate objectMeta | NodeUpdate objectMeta objectMeta | NodeDelete objectMeta
  | RSEvent objectMeta

definition ownRequest :: "'sel cmLib \<Rightarrow> objectMeta \<Rightarrow> (string \<times> string) list" where
  "ownRequest cml m = (if hasSelectorAnnotation cml m then [(om_Namespace m, om_Name m)] else [])"

fun enqueued :: "'sel cmLib \<Rightarrow> cluster \<Rightarrow> watchEvent \<Rightarrow> (string \<times> string) list" where
  "enqueued cml cl (CMCreate m) = ownRequest cml m"
| "enqueued cml cl (CMUpdate old new) = ownRequest cml new"
| "enqueued cml cl (CMDelete m) = ownRequest cml m"
| "enqueued cml cl (NodeCreate m) = configMapsForNode cml cl (om_Name m)"
| "enqueued cml cl (NodeDelete m) = configMapsForNode cml cl (om_Name m)"
| "enqueued cml cl (NodeUpdate old new) = (if nodeUpdateFunc old new
    then configMapsForNode cml cl (om_Name old) @ configMapsForNode cml cl (om_Name new) else [])"
| "enqueued cml cl (RSEvent m) = noEnqueue m"

end
