(* ===== verification/CertDns.thy ===== *)
theory CertDns
  imports GoStrings
begin

text \<open>
  \<open>internal/webhookcert/dnsnames.go\<close>: the names for the webhook's serving certificate, from
  the address of its Service.
\<close>

definition ServiceDNSNames :: "string \<Rightarrow> string \<times> string list" where
  "ServiceDNSNames addr =
    (if addr = '''' then ('''', [])
     else (let host = (case lastIndexByte addr (CHR '':'') of Some i \<Rightarrow> take i addr | None \<Rightarrow> addr);
               extra = (if hasSuffix host ''.svc'' then [host @ ''.cluster.local''] else [])
           in (host, extra)))"

text \<open>
  The port does not matter: a host without a colon gives the same names with and without a
  port. A Service address gets its cluster-local variant as second name and no other host
  does. No name contains the port's colon.
\<close>

theorem ServiceDNSNames_port:
  assumes "CHR '':'' \<notin> set host" "CHR '':'' \<notin> set port" "host \<noteq> ''''"
  shows "ServiceDNSNames (host @ '':'' @ port) = ServiceDNSNames host
    \<and> fst (ServiceDNSNames host) = host
    \<and> snd (ServiceDNSNames host) = (if \<exists>s. host = s @ ''.svc'' then [host @ ''.cluster.local''] else [])
    \<and> (\<forall>n\<in>insert (fst (ServiceDNSNames host)) (set (snd (ServiceDNSNames host))). CHR '':'' \<notin> set n)"
proof -
  have l: "lastIndexByte host (CHR '':'') = None" using assms(1) by (simp add: lastIndexByte_None)
  have r: "lastIndexByte (host @ CHR '':'' # port) (CHR '':'') = Some (length host)"
    using assms(2) by (rule lastIndexByte_append)
  show ?thesis
    using assms(1,3) by (simp add: ServiceDNSNames_def l r hasSuffix_append)
qed

theorem ServiceDNSNames_port_witness:
  "ServiceDNSNames ''inj.obs.svc:443'' = (''inj.obs.svc'', [''inj.obs.svc.cluster.local''])"
proof -
  have "ServiceDNSNames (''inj.obs.svc'' @ '':'' @ ''443'') = ServiceDNSNames ''inj.obs.svc''
      \<and> fst (ServiceDNSNames ''inj.obs.svc'') = ''inj.obs.svc''
      \<and> snd (ServiceDNSNames ''inj.obs.svc'') = (if \<exists>s. ''inj.obs.svc'' = s @ ''.svc''
          then [''inj.obs.svc'' @ ''.cluster.local''] else [])"
    using ServiceDNSNames_port [of "''inj.obs.svc''" "''443''"] by simp
  moreover have "''inj.obs.svc'' = ''inj.obs'' @ ''.svc''" by simp
  then have "\<exists>s. ''inj.obs.svc'' = s @ ''.svc''" by blast
  ultimately show ?thesis by (simp add: prod_eq_iff)
qed

end
