(* ===== verification/Startup.thy ===== *)
theory Startup
  imports Controller CertDns
begin

text \<open>
  \<open>cmd/main.go\<close>: from flags and environment to a running manager. The calls that may fail are
  the fields of the parameter record \<open>platform\<close> (reading and parsing the configuration file,
  building the manager and the clientset, the discovery of the server version, registering
  the controller, the rotator, the webhooks and the checks), each with its error if it has
  one. A run of \<open>main\<close> up to \<open>mgr.Start\<close> is a value: the reason of the exit, or the plan that
  was set up, with its TLS, cache and readiness settings. Logging is left out. What happens
  after the start (the goroutine that registers the webhooks when the rotator reports its
  certificate, and a manager that fails) is the step relation of \<open>Lifecycle\<close>. The metadata of
  \<open>internal/buildinfo\<close> that \<open>main\<close> logs is here too, as the values a build without linker flags has.
\<close>

section \<open>Build information\<close>

definition buildVersion :: string where
  "buildVersion = ''dev''"

definition buildRevision :: string where
  "buildRevision = ''unknown''"

definition buildDate :: string where
  "buildDate = ''unknown''"

section \<open>Flags, environment and platform\<close>

record flags =
  fl_metricsAddr :: string
  fl_metricsCertPath :: string
  fl_metricsCertName :: string
  fl_metricsCertKey :: string
  fl_webhookCertPath :: string
  fl_webhookCertName :: string
  fl_webhookCertKey :: string
  fl_enableLeaderElection :: bool
  fl_probeAddr :: string
  fl_secureMetrics :: bool
  fl_enableHTTP2 :: bool
  fl_enableCertRotation :: bool
  fl_webhookCertSecret :: string
  fl_mutatingWebhookName :: string
  fl_validatingWebhookName :: string
  fl_webhookPort :: int
  fl_configPath :: string

definition defaultFlags :: flags where
  "defaultFlags = \<lparr>fl_metricsAddr = ''0'', fl_metricsCertPath = '''', fl_metricsCertName = ''tls.crt'',
     fl_metricsCertKey = ''tls.key'', fl_webhookCertPath = '''', fl_webhookCertName = ''tls.crt'',
     fl_webhookCertKey = ''tls.key'', fl_enableLeaderElection = False, fl_probeAddr = '':8081'',
     fl_secureMetrics = True, fl_enableHTTP2 = False, fl_enableCertRotation = False, fl_webhookCertSecret = '''',
     fl_mutatingWebhookName = '''', fl_validatingWebhookName = '''', fl_webhookPort = 9443, fl_configPath = ''''\<rparr>"

type_synonym environ = "string \<Rightarrow> string"

record platform =
  pf_readFile :: "string \<Rightarrow> err + string"
  pf_yamlSDKInject :: "string \<Rightarrow> err + sdkInject"
  pf_parseLang :: "string \<Rightarrow> instrumentableType option"
  pf_newManager :: "err option"
  pf_newClientset :: "err option"
  pf_serverVersion :: "err + versionInfo"
  pf_setupController :: "err option"
  pf_addRotator :: "err option"
  pf_setupPodWebhook :: "err option"
  pf_addCheck :: "string \<Rightarrow> err option"

datatype exitReason = NoWatchNamespace | ManagerFailed err | ConfigUnreadable err | ConfigInvalid err
  | ClientsetFailed err | ControllerFailed err | RotationFlagsMissing | PodNamespaceMissing
  | ServiceAddrMissing | RotatorFailed err | WebhooksFailed err | CheckFailed string err | StartFailed err

section \<open>Server options\<close>

record certFiles =
  cert_Dir :: string
  cert_Name :: string
  cert_Key :: string

record webhookOptions =
  wo_Port :: int
  wo_NextProtos :: "string list option"
  wo_Cert :: "certFiles option"

record metricsOptions =
  mo_BindAddress :: string
  mo_SecureServing :: bool
  mo_NextProtos :: "string list option"
  mo_AuthFilter :: bool
  mo_Cert :: "certFiles option"

definition tlsProtos :: "flags \<Rightarrow> string list option" where
  "tlsProtos fl = (if \<not> fl_enableHTTP2 fl then Some [''http/1.1''] else None)"

definition webhookServerOptions :: "flags \<Rightarrow> webhookOptions" where
  "webhookServerOptions fl = \<lparr>wo_Port = fl_webhookPort fl, wo_NextProtos = tlsProtos fl,
     wo_Cert = (if length (fl_webhookCertPath fl) > 0
       then Some \<lparr>cert_Dir = fl_webhookCertPath fl, cert_Name = fl_webhookCertName fl, cert_Key = fl_webhookCertKey fl\<rparr>
       else None)\<rparr>"

definition metricsServerOptions :: "flags \<Rightarrow> metricsOptions" where
  "metricsServerOptions fl = \<lparr>mo_BindAddress = fl_metricsAddr fl, mo_SecureServing = fl_secureMetrics fl,
     mo_NextProtos = tlsProtos fl, mo_AuthFilter = fl_secureMetrics fl,
     mo_Cert = (if length (fl_metricsCertPath fl) > 0
       then Some \<lparr>cert_Dir = fl_metricsCertPath fl, cert_Name = fl_metricsCertName fl, cert_Key = fl_metricsCertKey fl\<rparr>
       else None)\<rparr>"

definition watchNamespaceOf :: "environ \<Rightarrow> string" where
  "watchNamespaceOf env =
    (let watchNamespace = env ''WATCH_NAMESPACE'' in
     if watchNamespace = '''' then env ''POD_NAMESPACE'' else watchNamespace)"

section \<open>Configuration\<close>

definition zeroSDKInject :: sdkInject where
  "zeroSDKInject = \<lparr>sd_NoAutoRestart = False, sd_ImageVersion = '''', sd_ImageVolumeRoot = '''',
     sd_Resources = \<lparr>AddK8sUIDAttributes = False, AddK8sIPAttribute = False, UseLabelsForResourceAttributes = False\<rparr>,
     sd_EnabledSDKs = None, sd_InjectionMode = '''', sd_Debug = False\<rparr>"

definition loadConfig :: "platform \<Rightarrow> string \<Rightarrow> exitReason + sdkInject" where
  "loadConfig pf configPath =
    (if configPath \<noteq> '''' then
       (case pf_readFile pf configPath of
          Inl e \<Rightarrow> Inl (ConfigUnreadable e)
        | Inr raw \<Rightarrow> (case pf_yamlSDKInject pf raw of Inl e \<Rightarrow> Inl (ConfigInvalid e) | Inr c \<Rightarrow> Inr c))
     else Inr zeroSDKInject)"

definition resolveInjectionMode :: "(err + versionInfo) \<Rightarrow> sdkInject \<Rightarrow> sdkInject" where
  "resolveInjectionMode serverVersion cfg =
    (if sd_InjectionMode cfg \<noteq> InjectionModeAuto then cfg
     else (case serverVersion of
         Inl e \<Rightarrow> cfg\<lparr>sd_InjectionMode := InjectionModeInitContainer\<rparr>
       | Inr info \<Rightarrow>
          (case ParseServerVersion info of
             Inl e \<Rightarrow> cfg\<lparr>sd_InjectionMode := InjectionModeInitContainer\<rparr>
           | Inr (major, minor) \<Rightarrow>
              (if SupportsImageVolume major minor
               then cfg\<lparr>sd_InjectionMode := InjectionModeImage\<rparr>
               else cfg\<lparr>sd_InjectionMode := InjectionModeInitContainer\<rparr>))))"

fun keepWriters :: "string list \<Rightarrow> string list" where
  "keepWriters [] = []"
| "keepWriters (u # us) = (let u = trimSpace u in if u \<noteq> '''' then u # keepWriters us else keepWriters us)"

definition parseAllowedWriters :: "string \<Rightarrow> string list" where
  "parseAllowedWriters raw = keepWriters (splitByte (CHR '','') raw)"

section \<open>Registering the webhooks\<close>

datatype webhookType = Mutating | Validating

record rotatorPlan =
  rp_SecretNamespace :: string
  rp_SecretName :: string
  rp_CertDir :: string
  rp_CAName :: string
  rp_CAOrganization :: string
  rp_DNSName :: string
  rp_ExtraDNSNames :: "string list"
  rp_Webhooks :: "(string \<times> webhookType) list"
  rp_EnableReadinessCheck :: bool
  rp_RequireLeaderElection :: bool

text \<open>Webhooks are off, registered at once, or registered when the rotator reports its certificate.\<close>

datatype registration = NotRegistered | Registered "string list" | AfterRotation rotatorPlan "string list"

definition setupWebhooks :: "platform \<Rightarrow> environ \<Rightarrow> err + string list" where
  "setupWebhooks pf env =
    (case pf_setupPodWebhook pf of
       Some e \<Rightarrow> Inl (''setting up Pod webhook: '' @ e)
     | None \<Rightarrow> Inr (parseAllowedWriters (env ''ALLOWED_CONFIGMAP_WRITERS'')))"

definition certRotation :: "platform \<Rightarrow> environ \<Rightarrow> flags \<Rightarrow> exitReason + rotatorPlan" where
  "certRotation pf env fl =
    (if fl_webhookCertSecret fl = '''' \<or> fl_webhookCertPath fl = '''' \<or> fl_mutatingWebhookName fl = ''''
       \<or> fl_validatingWebhookName fl = '''' then Inl RotationFlagsMissing
     else
      (let podNamespace = env ''POD_NAMESPACE'' in
       if podNamespace = '''' then Inl PodNamespaceMissing
       else
        (let (dnsName, extraDNSNames) = ServiceDNSNames (env ''WEBHOOK_SERVICE_ADDR'') in
         if dnsName = '''' then Inl ServiceAddrMissing
         else (case pf_addRotator pf of
             Some e \<Rightarrow> Inl (RotatorFailed e)
           | None \<Rightarrow> Inr \<lparr>rp_SecretNamespace = podNamespace, rp_SecretName = fl_webhookCertSecret fl,
               rp_CertDir = fl_webhookCertPath fl, rp_CAName = ''k8s-injection-controller'', rp_CAOrganization = ''grafana.com'',
               rp_DNSName = dnsName, rp_ExtraDNSNames = extraDNSNames,
               rp_Webhooks = [(fl_mutatingWebhookName fl, Mutating), (fl_validatingWebhookName fl, Validating)],
               rp_EnableReadinessCheck = True, rp_RequireLeaderElection = False\<rparr>))))"

definition registerWebhooks :: "platform \<Rightarrow> environ \<Rightarrow> flags \<Rightarrow> bool \<Rightarrow> exitReason + registration" where
  "registerWebhooks pf env fl webhooksEnabled =
    (if \<not> webhooksEnabled then Inr NotRegistered
     else if fl_enableCertRotation fl then
       (case certRotation pf env fl of
          Inl e \<Rightarrow> Inl e
        | Inr plan \<Rightarrow> Inr (AfterRotation plan (parseAllowedWriters (env ''ALLOWED_CONFIGMAP_WRITERS''))))
     else (case setupWebhooks pf env of Inl e \<Rightarrow> Inl (WebhooksFailed e) | Inr writers \<Rightarrow> Inr (Registered writers)))"

fun addChecks :: "platform \<Rightarrow> string list \<Rightarrow> exitReason + unit" where
  "addChecks pf [] = Inr ()"
| "addChecks pf (c # cs) = (case pf_addCheck pf c of Some e \<Rightarrow> Inl (CheckFailed c e) | None \<Rightarrow> addChecks pf cs)"

section \<open>The whole start\<close>

record plan =
  pl_WatchNamespace :: string
  pl_Webhook :: webhookOptions
  pl_Metrics :: metricsOptions
  pl_ProbeAddr :: string
  pl_LeaderElection :: bool
  pl_LeaderElectionID :: string
  pl_SDKConfig :: sdkInject
  pl_GateOnWebhook :: bool
  pl_WebhookServiceAddr :: string
  pl_Registration :: registration
  pl_Checks :: "string list"

definition checksFor :: "bool \<Rightarrow> string list" where
  "checksFor webhooksEnabled = [''healthz'', ''readyz''] @ (if webhooksEnabled then [''webhook''] else [])"

definition planFor :: "environ \<Rightarrow> flags \<Rightarrow> sdkInject \<Rightarrow> bool \<Rightarrow> registration \<Rightarrow> plan" where
  "planFor env fl sdkConfig webhooksEnabled regd = \<lparr>pl_WatchNamespace = watchNamespaceOf env, pl_Webhook = webhookServerOptions fl,
     pl_Metrics = metricsServerOptions fl, pl_ProbeAddr = fl_probeAddr fl, pl_LeaderElection = fl_enableLeaderElection fl,
     pl_LeaderElectionID = ''c3bd973a.grafana.com'', pl_SDKConfig = sdkConfig, pl_GateOnWebhook = webhooksEnabled,
     pl_WebhookServiceAddr = (if webhooksEnabled then env ''WEBHOOK_SERVICE_ADDR'' else ''''),
     pl_Registration = regd, pl_Checks = checksFor webhooksEnabled\<rparr>"

definition main :: "platform \<Rightarrow> environ \<Rightarrow> flags \<Rightarrow> exitReason + plan" where
  "main pf env fl =
    (let watchNamespace = watchNamespaceOf env in
     if watchNamespace = '''' then Inl NoWatchNamespace
     else case pf_newManager pf of
       Some e \<Rightarrow> Inl (ManagerFailed e)
     | None \<Rightarrow>
      (case loadConfig pf (fl_configPath fl) of
         Inl e \<Rightarrow> Inl e
       | Inr raw \<Rightarrow>
        (let sdkConfig = SetDefaults (pf_parseLang pf) raw in
         case pf_newClientset pf of
           Some e \<Rightarrow> Inl (ClientsetFailed e)
         | None \<Rightarrow>
          (let sdkConfig = resolveInjectionMode (pf_serverVersion pf) sdkConfig;
               webhooksEnabled = (env ''ENABLE_WEBHOOKS'' \<noteq> ''false'')
           in case pf_setupController pf of
                Some e \<Rightarrow> Inl (ControllerFailed e)
              | None \<Rightarrow>
               (case registerWebhooks pf env fl webhooksEnabled of
                  Inl e \<Rightarrow> Inl e
                | Inr regd \<Rightarrow>
                 (case addChecks pf (checksFor webhooksEnabled) of
                    Inl e \<Rightarrow> Inl e
                  | Inr _ \<Rightarrow> Inr (planFor env fl sdkConfig webhooksEnabled regd)))))))"

section \<open>What a plan says\<close>

lemma main_plan:
  assumes "main pf env fl = Inr pl"
  obtains raw regd where "watchNamespaceOf env \<noteq> ''''" "loadConfig pf (fl_configPath fl) = Inr raw"
    "registerWebhooks pf env fl (env ''ENABLE_WEBHOOKS'' \<noteq> ''false'') = Inr regd"
    "pl = planFor env fl (resolveInjectionMode (pf_serverVersion pf) (SetDefaults (pf_parseLang pf) raw))
       (env ''ENABLE_WEBHOOKS'' \<noteq> ''false'') regd"
  using assms unfolding main_def Let_def
  by (auto split: if_split_asm option.split_asm sum.split_asm simp del: not_Some_eq)

lemma registerWebhooks_cases:
  assumes "registerWebhooks pf env fl wh = Inr regd"
  shows "(\<not> wh \<longrightarrow> regd = NotRegistered)
    \<and> (wh \<and> fl_enableCertRotation fl \<longrightarrow> (\<exists>p. certRotation pf env fl = Inr p
        \<and> regd = AfterRotation p (parseAllowedWriters (env ''ALLOWED_CONFIGMAP_WRITERS''))))
    \<and> (wh \<and> \<not> fl_enableCertRotation fl \<longrightarrow> regd = Registered (parseAllowedWriters (env ''ALLOWED_CONFIGMAP_WRITERS'')))"
  using assms by (auto simp: registerWebhooks_def setupWebhooks_def split: if_split_asm option.split_asm sum.split_asm)

lemma certRotation_ok:
  assumes "certRotation pf env fl = Inr p"
  shows "rp_SecretName p \<noteq> '''' \<and> rp_CertDir p \<noteq> '''' \<and> (\<forall>w\<in>set (rp_Webhooks p). fst w \<noteq> '''') \<and> rp_SecretNamespace p \<noteq> ''''
    \<and> rp_DNSName p \<noteq> ''''"
  using assms by (auto simp: certRotation_def Let_def split: if_split_asm option.split_asm prod.split_asm)

section \<open>Properties\<close>

text \<open>
  C38. Every start that gets as far as running has a concrete injection mode: a mode from the
  configuration file is kept, and an absent one or auto becomes the image volume exactly
  when the server's version could be read and is at least 1.35; in every doubt it is the
  init container, which works everywhere.
\<close>

theorem startup_resolves_injection_mode:
  assumes "main pf env fl = Inr pl" "loadConfig pf (fl_configPath fl) = Inr raw"
  shows "sd_InjectionMode (pl_SDKConfig pl) \<notin> {'''', InjectionModeAuto}
    \<and> sd_InjectionMode (pl_SDKConfig pl) =
      (if sd_InjectionMode raw \<notin> {'''', InjectionModeAuto} then sd_InjectionMode raw
       else if \<exists>info major minor. pf_serverVersion pf = Inr info \<and> ParseServerVersion info = Inr (major, minor)
         \<and> Version 1 35 \<le> Version major minor then InjectionModeImage
       else InjectionModeInitContainer)"
proof -
  have names: "InjectionModeAuto \<noteq> ''''" "InjectionModeImage \<noteq> ''''" "InjectionModeInitContainer \<noteq> ''''"
    "InjectionModeImage \<noteq> InjectionModeAuto" "InjectionModeInitContainer \<noteq> InjectionModeAuto"
    by (simp_all add: InjectionModeAuto_def InjectionModeImage_def InjectionModeInitContainer_def)
  have sup: "SupportsImageVolume ma mi \<longleftrightarrow> Version 1 35 \<le> Version ma mi" for ma mi
    by (auto simp: SupportsImageVolume_def less_eq_serverVersion_def)
  have mode: "sd_InjectionMode (SetDefaults pl raw) = (if sd_InjectionMode raw = '''' then InjectionModeAuto else sd_InjectionMode raw)" for pl
    by (simp add: SetDefaults_def Let_def)
  have cfg: "pl_SDKConfig pl = resolveInjectionMode (pf_serverVersion pf) (SetDefaults (pf_parseLang pf) raw)"
    using assms(1) by (rule main_plan) (use assms(2) in \<open>simp add: planFor_def\<close>)
  show ?thesis
    unfolding cfg resolveInjectionMode_def mode using names
    by (auto simp: mode sup split: sum.split)
qed

definition samplePlatform :: platform where
  "samplePlatform = \<lparr>pf_readFile = (\<lambda>_. Inl ''none''), pf_yamlSDKInject = (\<lambda>_. Inl ''none''), pf_parseLang = (\<lambda>_. None),
     pf_newManager = None, pf_newClientset = None, pf_serverVersion = Inl ''unreachable'', pf_setupController = None,
     pf_addRotator = None, pf_setupPodWebhook = None, pf_addCheck = (\<lambda>_. None)\<rparr>"

definition sampleEnv :: environ where
  "sampleEnv k = (if k = ''WATCH_NAMESPACE'' then ''obs'' else if k = ''ENABLE_WEBHOOKS'' then ''false'' else '''')"

lemma sample_main: "\<exists>pl. main samplePlatform sampleEnv defaultFlags = Inr pl"
  by (simp add: main_def watchNamespaceOf_def sampleEnv_def samplePlatform_def loadConfig_def defaultFlags_def
      registerWebhooks_def checksFor_def Let_def)

lemma sample_load: "loadConfig samplePlatform (fl_configPath defaultFlags) = Inr zeroSDKInject"
  by (simp add: loadConfig_def defaultFlags_def)

theorem startup_resolves_injection_mode_witness:
  "\<exists>pl. main samplePlatform sampleEnv defaultFlags = Inr pl
    \<and> sd_InjectionMode (pl_SDKConfig pl) = InjectionModeInitContainer"
proof -
  obtain pl where pl: "main samplePlatform sampleEnv defaultFlags = Inr pl" using sample_main by blast
  from startup_resolves_injection_mode [OF pl sample_load] have
    "sd_InjectionMode (pl_SDKConfig pl) = InjectionModeInitContainer"
    by (simp add: zeroSDKInject_def) (simp add: samplePlatform_def)
  with pl show ?thesis by blast
qed

text \<open>
  A running program never waits for a webhook server that will not start: the sweep's gate,
  the Service to dial and the webhook readiness check are there only if the webhooks are
  registered, at once or after the certificate rotation; and it always watches a single
  namespace, WATCH_NAMESPACE if set and else its own. A rotation has all the names it needs.
\<close>

theorem startup_gates_match_registration:
  assumes "main pf env fl = Inr pl"
  shows "(pl_GateOnWebhook pl \<longleftrightarrow> pl_Registration pl \<noteq> NotRegistered)
    \<and> (''webhook'' \<in> set (pl_Checks pl) \<longleftrightarrow> pl_Registration pl \<noteq> NotRegistered)
    \<and> (pl_WebhookServiceAddr pl \<noteq> '''' \<longrightarrow> pl_Registration pl \<noteq> NotRegistered)
    \<and> pl_WatchNamespace pl \<noteq> ''''
    \<and> pl_WatchNamespace pl = (if env ''WATCH_NAMESPACE'' = '''' then env ''POD_NAMESPACE'' else env ''WATCH_NAMESPACE'')
    \<and> (\<forall>p ws. pl_Registration pl = AfterRotation p ws \<longrightarrow> rp_SecretName p \<noteq> '''' \<and> rp_SecretNamespace p \<noteq> ''''
        \<and> rp_DNSName p \<noteq> '''' \<and> (\<forall>w\<in>set (rp_Webhooks p). fst w \<noteq> '''') \<and> rp_CertDir p \<noteq> '''')"
  using assms
proof (rule main_plan)
  fix raw regd
  assume ns: "watchNamespaceOf env \<noteq> ''''" and reg: "registerWebhooks pf env fl (env ''ENABLE_WEBHOOKS'' \<noteq> ''false'') = Inr regd"
    and pl: "pl = planFor env fl (resolveInjectionMode (pf_serverVersion pf) (SetDefaults (pf_parseLang pf) raw))
       (env ''ENABLE_WEBHOOKS'' \<noteq> ''false'') regd"
  have on: "(env ''ENABLE_WEBHOOKS'' \<noteq> ''false'') \<longleftrightarrow> regd \<noteq> NotRegistered"
    using registerWebhooks_cases [OF reg] by (cases "fl_enableCertRotation fl") auto
  have rot: "certRotation pf env fl = Inr p" if "regd = AfterRotation p ws" for p ws
    using registerWebhooks_cases [OF reg] that by (cases "fl_enableCertRotation fl"; cases "env ''ENABLE_WEBHOOKS'' = ''false''") auto
  show ?thesis
    unfolding pl using ns on by (auto simp: planFor_def checksFor_def watchNamespaceOf_def Let_def dest!: rot certRotation_ok)
qed

theorem startup_gates_match_registration_witness:
  "\<exists>pl. main samplePlatform sampleEnv defaultFlags = Inr pl \<and> pl_WatchNamespace pl = ''obs'' \<and> ''webhook'' \<notin> set (pl_Checks pl)"
proof -
  obtain pl where pl: "main samplePlatform sampleEnv defaultFlags = Inr pl" using sample_main by blast
  have "pl_Registration pl = NotRegistered"
    using pl by (rule main_plan) (simp add: planFor_def registerWebhooks_def sampleEnv_def)
  with startup_gates_match_registration [OF pl] have "pl_WatchNamespace pl = ''obs''" "''webhook'' \<notin> set (pl_Checks pl)"
    by (simp_all add: sampleEnv_def)
  with pl show ?thesis by blast
qed

lemma keepWriters_filter: "keepWriters us = filter (\<lambda>u. u \<noteq> '''') (map trimSpace us)"
  by (induction us) (simp_all add: Let_def)

lemma split_join:
  "us \<noteq> [] \<Longrightarrow> \<forall>u\<in>set us. c \<notin> set u \<Longrightarrow> splitByte c (joinWith [c] us) = us"
proof (induction us)
  case (Cons u us)
  then show ?case by (cases us) (simp_all add: splitByte_word splitByte_append)
qed simp

text \<open>
  The allow list is read as it is written: joining user names with commas, with any white
  space the trimming removes, gives back the trimmed non-empty names in order; so names
  without commas and outer white space round-trip, and no entry is ever empty.
\<close>

theorem allowed_writers_roundtrip:
  assumes "us \<noteq> []" "\<forall>u\<in>set us. CHR '','' \<notin> set u"
  shows "parseAllowedWriters (joinWith '','' us) = filter (\<lambda>u. u \<noteq> '''') (map trimSpace us)
    \<and> (\<forall>raw. '''' \<notin> set (parseAllowedWriters raw))"
  by (simp add: parseAllowedWriters_def keepWriters_filter split_join [OF assms])

theorem allowed_writers_roundtrip_witness:
  "parseAllowedWriters ''a,,b'' = filter (\<lambda>u. u \<noteq> '''') (map trimSpace [''a'', '''', ''b''])"
  using allowed_writers_roundtrip [of "[''a'', '''', ''b'']"] by simp

end
