(* ===== verification/ControllerProps.thy ===== *)
theory ControllerProps
  imports Controller
begin

text \<open>
  The properties of the reconciler: what one sweep restarts, in both modes; what it never
  touches; how the registry follows the ConfigMaps; what parsing keeps and drops; and the
  gates before a sweep. The sweep is compared with the decision the webhook would take for
  the same pod.
\<close>

section \<open>The sweep over pods and namespaces\<close>

lemma collectPods_set: "set (collectPods f ps acc) = set acc \<union> {k. \<exists>p\<in>set ps. f p = Some k}"
  by (induction ps arbitrary: acc) (auto split: option.splits)

lemma collectPods_distinct: "distinct acc \<Longrightarrow> distinct (collectPods f ps acc)"
  by (induction ps arbitrary: acc) (auto split: option.splits)

text \<open>A workload is collected if some pod of some unprotected namespace asks for it.\<close>

definition asked :: "(restartCriterion list \<Rightarrow> pod \<Rightarrow> workloadKey option) \<Rightarrow> (string \<Rightarrow> err + pod list) \<Rightarrow> workloadKey
    \<Rightarrow> string \<times> restartCriterion list \<Rightarrow> bool" where
  "asked f pods_of k e = (fst e \<notin> set protectedNamespaces
     \<and> (\<exists>items p. pods_of (fst e) = Inr items \<and> p \<in> set items \<and> f (snd e) p = Some k))"

lemma collectNamespaces_set:
  "collectNamespaces f pods_of nss acc = Inr ks \<Longrightarrow>
    k \<in> set ks \<longleftrightarrow> k \<in> set acc \<or> (\<exists>e\<in>set nss. asked f pods_of k e)"
proof (induction nss arbitrary: acc)
  case Nil
  then show ?case by simp
next
  case (Cons a nss)
  obtain ns ts where a: "a = (ns, ts)" by (cases a)
  show ?case
  proof (cases "ns \<in> set protectedNamespaces")
    case True
    with Cons a show ?thesis by (simp add: asked_def)
  next
    case False
    with Cons.prems a obtain items where i: "pods_of ns = Inr items"
      by (auto split: sum.splits)
    with False Cons.prems a have "collectNamespaces f pods_of nss (collectPods (f ts) items acc) = Inr ks" by simp
    from Cons.IH [OF this] False i a show ?thesis
      by (simp add: collectPods_set asked_def) blast
  qed
qed

lemma collectNamespaces_distinct:
  "collectNamespaces f pods_of nss acc = Inr ks \<Longrightarrow> distinct acc \<Longrightarrow> distinct ks"
  by (induction nss arbitrary: acc) (auto simp: collectPods_distinct split: if_splits sum.splits)

lemma collectNamespaces_ok:
  "(\<forall>(ns, ts)\<in>set nss. ns \<notin> set protectedNamespaces \<longrightarrow> (\<exists>items. pods_of ns = Inr items)) \<Longrightarrow>
    \<exists>ks. collectNamespaces f pods_of nss acc = Inr ks"
  by (induction nss arbitrary: acc) (auto split: sum.split)

section \<open>Grouping by namespace\<close>

lemma gm_ok_append: "gm_ok m \<Longrightarrow> gm_ok (gm_append k x m)"
  by (simp add: gm_append_def gm_ok_put)

definition getList :: "'a list gomap \<Rightarrow> string \<Rightarrow> 'a list" where
  "getList m k = (case gm_get m k of Some xs \<Rightarrow> xs | None \<Rightarrow> [])"

lemma gm_get_append: "gm_get (gm_append k x m) k' = (if k' = k then Some (getList m k @ [x]) else gm_get m k')"
  by (simp add: gm_append_def getList_def gomap_simps)

lemma getList_append: "getList (gm_append k x m) k' = (if k' = k then getList m k @ [x] else getList m k')"
  by (simp add: getList_def gm_get_append)

lemma groupTargets_ok: "gm_ok m \<Longrightarrow> gm_ok (groupTargets ts m)"
  by (induction ts arbitrary: m) (simp_all add: gm_ok_append)

lemma groupTargets_get: "gm_get (groupTargets ts m) ns =
    (let own = filter (\<lambda>t. tc_Namespace t = ns) ts in
     if own = [] then gm_get m ns else Some (getList m ns @ own))"
proof (induction ts arbitrary: m)
  case Nil
  then show ?case by simp
next
  case (Cons t ts)
  then show ?case
    by (simp add: gm_get_append Let_def getList_append)
qed

lemma groupTargets_mem:
  "(ns, ts') \<in> set (groupTargets ts []) \<longleftrightarrow> ts' = filter (\<lambda>t. tc_Namespace t = ns) ts \<and> ts' \<noteq> []"
proof -
  have "gm_ok (groupTargets ts [])" by (rule groupTargets_ok) simp
  then have "(ns, ts') \<in> set (groupTargets ts []) \<longleftrightarrow> gm_get (groupTargets ts []) ns = Some ts'"
    by (simp add: gm_ok_def)
  then show ?thesis by (auto simp: groupTargets_get getList_def Let_def split: if_splits)
qed

lemma groupCleanup_pods: "getList (fst (groupCleanup ps cp bn)) ns =
    getList cp ns @ filter (\<lambda>p. IsInstrumented (pod_Meta p) \<and> om_Namespace (pod_Meta p) = ns) ps"
  by (induction ps cp bn rule: groupCleanup.induct) (auto simp: getList_append)

lemma groupCleanup_list: "getList (fst (groupCleanup ps [] bn)) ns =
    filter (\<lambda>p. IsInstrumented (pod_Meta p) \<and> om_Namespace (pod_Meta p) = ns) ps"
  unfolding groupCleanup_pods by (simp add: getList_def)

lemma gm_keys_put: "set (gm_keys (gm_put k v m)) = insert k (set (gm_keys m))"
proof -
  have "x \<in> set (gm_keys (gm_put k v m)) \<longleftrightarrow> x \<in> insert k (set (gm_keys m))" for x
    unfolding insert_iff gm_get_keys by (simp add: gomap_simps)
  then show ?thesis by blast
qed

lemma groupCleanup_keys: "set (gm_keys (snd (groupCleanup ps cp bn))) =
    set (gm_keys bn) \<union> {om_Namespace (pod_Meta p) | p. p \<in> set ps \<and> IsInstrumented (pod_Meta p)}"
  by (induction ps cp bn rule: groupCleanup.induct) (auto simp: gm_keys_put simp del: set_map)

section \<open>The loop over workloads\<close>

lemma patchLoop_spec:
  "cs_Registry (snd (patchLoop cl patch keys st errs)) = cs_Registry st
   \<and> cs_Patches (snd (patchLoop cl patch keys st errs)) =
      cs_Patches st @ map (\<lambda>k. (k, patch)) (filter (\<lambda>k. rollableKind (wk_Kind k)) keys)
   \<and> (cs_Metrics st = None \<longrightarrow> cs_Metrics (snd (patchLoop cl patch keys st errs)) = None)"
  by (induction keys arbitrary: st errs) (auto simp: RecordRestart_def split: option.splits)

text \<open>The loop counts the workloads whose patch went through, one call each.\<close>

definition workloadTuple :: "workloadKey \<Rightarrow> string \<times> string \<times> string" where
  "workloadTuple k = (wk_Namespace k, wk_Kind k, wk_Name k)"

lemma workloadTuple_inj: "inj_on workloadTuple A"
  by (simp add: inj_on_def workloadTuple_def)

lemma patchLoop_metrics:
  "cs_Metrics (snd (patchLoop cl patch keys st errs)) = fold (\<lambda>(ns, kind, name). RecordRestart ns kind name)
    (map workloadTuple (filter (\<lambda>k. rollableKind (wk_Kind k) \<longrightarrow> cl_patch cl k patch = None) keys)) (cs_Metrics st)"
  by (induction keys arbitrary: st errs) (auto simp: workloadTuple_def split: option.split)

lemma patchLoop_restarts:
  assumes "cs_Metrics st \<noteq> None" "\<forall>k\<in>set keys. rollableKind (wk_Kind k)" "distinct keys"
  shows "restartCount (cs_Metrics (snd (patchLoop cl patch keys st errs))) key = restartCount (cs_Metrics st) key
    + (if \<exists>k\<in>set keys. cl_patch cl k patch = None \<and> key = workloadTuple k then 1 else 0)"
proof -
  let ?sent = "map workloadTuple (filter (\<lambda>k. rollableKind (wk_Kind k) \<longrightarrow> cl_patch cl k patch = None) keys)"
  have "distinct ?sent" using assms(3) by (simp add: distinct_map workloadTuple_inj)
  moreover have "key \<in> set ?sent \<longleftrightarrow> (\<exists>k\<in>set keys. cl_patch cl k patch = None \<and> key = workloadTuple k)"
    using assms(2) by auto
  moreover have "enabled (cs_Metrics st)" using assms(1) by (simp add: enabled_def)
  ultimately show ?thesis unfolding patchLoop_metrics by (simp add: rst.tally_distinct)
qed

section \<open>One pod\<close>

definition rollable :: "reader \<Rightarrow> pod \<Rightarrow> bool" where
  "rollable rd p = (om_DeletionTimestamp (pod_Meta p) = None \<and> om_OwnerReferences (pod_Meta p) \<noteq> []
     \<and> (\<exists>x\<in>set (pi_OwnerChain (Resolve rd p)). rollableKind (ow_Kind x)))"

definition needsRollout :: "'sel beylaLib \<Rightarrow> 'sel registry \<Rightarrow> reader \<Rightarrow> sdkInject \<Rightarrow> pod \<Rightarrow> bool" where
  "needsRollout lib reg rd cfg p = (case decision lib reg rd cfg p of
     Inject rule eff \<Rightarrow> True | Unselected \<Rightarrow> IsInstrumented (pod_Meta p) | _ \<Rightarrow> False)"

lemma rollableKind_nonempty: "rollableKind k \<Longrightarrow> k \<noteq> ''''"
  by (auto simp: rollableKind_def kind_defs)

lemma find_hit: "find p xs = Some x \<Longrightarrow> x \<in> set xs \<and> p x"
  by (induction xs) (auto split: if_splits)

lemma resolveWorkload_zero: "resolveWorkload info = zeroKey \<longleftrightarrow> (\<forall>x\<in>set (pi_OwnerChain info). \<not> rollableKind (ow_Kind x))"
proof (cases "find (\<lambda>x. rollableKind (ow_Kind x)) (rev (pi_OwnerChain info))")
  case None
  then have "resolveWorkload info = zeroKey" by (simp add: resolveWorkload_def)
  moreover have "\<forall>x\<in>set (pi_OwnerChain info). \<not> rollableKind (ow_Kind x)"
    using None by (auto simp: find_None_iff)
  ultimately show ?thesis by blast
next
  case (Some x)
  then have x: "rollableKind (ow_Kind x)" "x \<in> set (pi_OwnerChain info)"
    using find_hit [OF Some] by simp_all
  then have "ow_Kind x \<noteq> ''''" by (simp add: rollableKind_nonempty)
  then have "resolveWorkload info \<noteq> zeroKey" by (simp add: resolveWorkload_def Some zeroKey_def)
  with x show ?thesis by blast
qed

lemma resolveWorkload_fields:
  assumes "resolveWorkload info \<noteq> zeroKey"
  shows "wk_Namespace (resolveWorkload info) = pi_Namespace info \<and> rollableKind (wk_Kind (resolveWorkload info))"
proof (cases "find (\<lambda>x. rollableKind (ow_Kind x)) (rev (pi_OwnerChain info))")
  case None
  with assms show ?thesis by (simp add: resolveWorkload_def)
next
  case (Some x)
  then have "rollableKind (ow_Kind x)" by (auto simp: find_Some_iff)
  with Some show ?thesis by (simp add: resolveWorkload_def)
qed

lemma podRollout_targeted:
  "podRollout lib cfg reg rd False ts p = Some k \<longleftrightarrow> rollable rd p \<and> matchesAnyTarget (Resolve rd p) ts
    \<and> needsRollout lib reg rd cfg p \<and> k = resolveWorkload (Resolve rd p)"
proof -
  have z: "(\<exists>x\<in>set (pi_OwnerChain (Resolve rd p)). rollableKind (ow_Kind x)) \<longleftrightarrow> resolveWorkload (Resolve rd p) \<noteq> zeroKey"
    by (simp add: resolveWorkload_zero)
  show ?thesis
    unfolding rollable_def z needsRollout_def decision_def
    by (auto simp: podRollout_def Let_def wanted_iff split: option.split if_split)
qed

lemma podRollout_cleanup:
  "podRollout lib cfg reg rd True ts p = Some k \<longleftrightarrow> rollable rd p \<and> IsInstrumented (pod_Meta p)
    \<and> Match (bl_match lib) reg (Resolve rd p) = None \<and> k = resolveWorkload (Resolve rd p)"
proof -
  have z: "(\<exists>x\<in>set (pi_OwnerChain (Resolve rd p)). rollableKind (ow_Kind x)) \<longleftrightarrow> resolveWorkload (Resolve rd p) \<noteq> zeroKey"
    by (simp add: resolveWorkload_zero)
  show ?thesis
    unfolding rollable_def z
    by (auto simp: podRollout_def Let_def split: option.split if_split)
qed

lemma podRollout_key:
  assumes "podRollout lib cfg reg rd cl ts p = Some k"
  shows "wk_Namespace k = om_Namespace (pod_Meta p) \<and> rollableKind (wk_Kind k)"
proof -
  have "rollable rd p \<and> k = resolveWorkload (Resolve rd p)"
    using assms by (cases cl) (auto simp: podRollout_targeted podRollout_cleanup)
  then show ?thesis
    using resolveWorkload_fields [of "Resolve rd p"] by (auto simp: rollable_def resolveWorkload_zero)
qed

section \<open>One sweep\<close>

text \<open>What Go promises about ranging over a map: every entry once, in some order.\<close>

definition range_ok :: "rangeOrder \<Rightarrow> bool" where
  "range_ok ro = ((\<forall>l. mset (ro_namespaces ro l) = mset l) \<and> (\<forall>l. mset (ro_workloads ro l) = mset l))"

lemma range_ok_set: "range_ok ro \<Longrightarrow> set (ro_namespaces ro l) = set l \<and> set (ro_workloads ro ks) = set ks"
  unfolding range_ok_def by (metis set_mset_mset)

lemma range_ok_distinct: "range_ok ro \<Longrightarrow> distinct (ro_workloads ro ks) = distinct ks"
  unfolding range_ok_def by (metis distinct_count_atmost_1 count_mset set_mset_mset)

text \<open>The patches of a sweep: one per workload, with the marker of this sweep.\<close>

definition sentFor :: "cluster \<Rightarrow> 'sel controllerState \<Rightarrow> 'sel controllerState \<Rightarrow> workloadKey list \<Rightarrow> bool" where
  "sentFor cl st st' keys = (distinct keys
     \<and> cs_Patches st' = cs_Patches st @ map (\<lambda>k. (k, restartPatch (cl_now cl))) keys
     \<and> cs_Registry st' = cs_Registry st)"

lemma sentFor_none: "sentFor cl st st []"
  by (simp add: sentFor_def)

lemma sentFor_keys:
  assumes "sentFor cl st st' keys" "cs_Patches st' = cs_Patches st @ map (\<lambda>k. (k, restartPatch (cl_now cl))) keys'"
  shows "keys = keys'"
proof -
  have "map (\<lambda>k. (k, restartPatch (cl_now cl))) keys = map (\<lambda>k. (k, restartPatch (cl_now cl))) keys'"
    using assms by (simp add: sentFor_def)
  from arg_cong [OF this, of "map fst"] show ?thesis by (simp add: comp_def)
qed

lemma patchLoop_sentFor:
  assumes "range_ok ro" "distinct ks" "\<forall>k\<in>set ks. rollableKind (wk_Kind k)"
  shows "sentFor cl st (snd (patchLoop cl (restartPatch (cl_now cl)) (ro_workloads ro ks) st errs)) (ro_workloads ro ks)"
proof -
  have "filter (\<lambda>k. rollableKind (wk_Kind k)) (ro_workloads ro ks) = ro_workloads ro ks"
    using assms(3) range_ok_set [OF assms(1)] by (simp add: filter_id_conv)
  then show ?thesis
    using assms(1,2) by (simp add: sentFor_def patchLoop_spec range_ok_distinct)
qed

lemma asked_key:
  assumes "asked (\<lambda>ts. podRollout lib cfg reg rd cl ts) pods_of k e"
  shows "rollableKind (wk_Kind k)"
  using assms podRollout_key by (fastforce simp: asked_def)

lemma collected_keys:
  assumes "collectNamespaces (\<lambda>ts. podRollout lib cfg reg rd c ts) pods_of nss [] = Inr ks"
  shows "distinct ks \<and> (\<forall>k\<in>set ks. rollableKind (wk_Kind k))"
  using collectNamespaces_distinct [OF assms] collectNamespaces_set [OF assms] asked_key by auto

text \<open>The targeted sweep.\<close>

lemma targeted_eq: "rolloutMatching lib ro cl r targets False st =
    (case collectNamespaces (podRollout lib (cr_DefaultSDKConfig r) (cs_Registry st) (cl_reader cl) False)
        (cl_listPodsIn cl) (ro_namespaces ro (groupTargets targets [])) [] of
       Inl e \<Rightarrow> (Some e, st)
     | Inr toRestart \<Rightarrow>
        (let (errs, st) = patchLoop cl (restartPatch (cl_now cl)) (ro_workloads ro toRestart) st [] in (errorsJoin errs, st)))"
  by (simp add: rolloutMatching_def)

definition targetedWorkloads :: "'sel beylaLib \<Rightarrow> 'sel registry \<Rightarrow> cluster \<Rightarrow> sdkInject \<Rightarrow> restartCriterion list \<Rightarrow> workloadKey set" where
  "targetedWorkloads lib reg cl cfg targets = {resolveWorkload (Resolve (cl_reader cl) p) | t items p.
     t \<in> set targets \<and> tc_Namespace t \<notin> set protectedNamespaces \<and> cl_listPodsIn cl (tc_Namespace t) = Inr items
     \<and> p \<in> set items \<and> rollable (cl_reader cl) p \<and> matchesTarget (Resolve (cl_reader cl) p) t
     \<and> needsRollout lib reg (cl_reader cl) cfg p}"

lemma targeted_asked:
  "(\<exists>e\<in>set (groupTargets targets []). asked (podRollout lib cfg reg (cl_reader cl) False) (cl_listPodsIn cl) k e)
    \<longleftrightarrow> k \<in> targetedWorkloads lib reg cl cfg targets"
proof
  assume "\<exists>e\<in>set (groupTargets targets []). asked (podRollout lib cfg reg (cl_reader cl) False) (cl_listPodsIn cl) k e"
  then obtain ns ts items p where e: "ts = filter (\<lambda>t. tc_Namespace t = ns) targets" "ns \<notin> set protectedNamespaces"
    "cl_listPodsIn cl ns = Inr items" "p \<in> set items" "podRollout lib cfg reg (cl_reader cl) False ts p = Some k"
    by (auto simp: asked_def groupTargets_mem)
  then obtain t where "t \<in> set targets" "tc_Namespace t = ns" "matchesTarget (Resolve (cl_reader cl) p) t"
    by (auto simp: podRollout_targeted matchesAnyTarget_def list_ex_iff)
  with e show "k \<in> targetedWorkloads lib reg cl cfg targets"
    by (auto simp: targetedWorkloads_def podRollout_targeted)
next
  assume "k \<in> targetedWorkloads lib reg cl cfg targets"
  then obtain t items p where t: "t \<in> set targets" "tc_Namespace t \<notin> set protectedNamespaces"
    "cl_listPodsIn cl (tc_Namespace t) = Inr items" "p \<in> set items" "rollable (cl_reader cl) p"
    "matchesTarget (Resolve (cl_reader cl) p) t" "needsRollout lib reg (cl_reader cl) cfg p"
    "k = resolveWorkload (Resolve (cl_reader cl) p)"
    by (auto simp: targetedWorkloads_def)
  let ?ts = "filter (\<lambda>u. tc_Namespace u = tc_Namespace t) targets"
  have "t \<in> set ?ts" using t(1) by simp
  then have ne: "?ts \<noteq> []" by (metis empty_iff empty_set)
  have "podRollout lib cfg reg (cl_reader cl) False ?ts p = Some k"
    using t by (auto simp: podRollout_targeted matchesAnyTarget_def list_ex_iff)
  then have "asked (podRollout lib cfg reg (cl_reader cl) False) (cl_listPodsIn cl) k (tc_Namespace t, ?ts)"
    using t(2-4) by (auto simp: asked_def)
  moreover have "(tc_Namespace t, ?ts) \<in> set (groupTargets targets [])" using ne by (simp add: groupTargets_mem)
  ultimately show "\<exists>e\<in>set (groupTargets targets []). asked (podRollout lib cfg reg (cl_reader cl) False) (cl_listPodsIn cl) k e" ..
qed

lemma targeted_sweep:
  assumes "range_ok ro"
    "\<forall>t\<in>set targets. tc_Namespace t \<notin> set protectedNamespaces \<longrightarrow> (\<exists>items. cl_listPodsIn cl (tc_Namespace t) = Inr items)"
  shows "\<exists>keys. sentFor cl st (snd (rolloutMatching lib ro cl r targets False st)) keys
    \<and> set keys = targetedWorkloads lib (cs_Registry st) cl (cr_DefaultSDKConfig r) targets"
proof -
  let ?f = "podRollout lib (cr_DefaultSDKConfig r) (cs_Registry st) (cl_reader cl) False"
  let ?nss = "ro_namespaces ro (groupTargets targets [])"
  have nss: "set ?nss = set (groupTargets targets [])" using range_ok_set [OF assms(1)] by blast
  have "\<forall>(ns, ts)\<in>set ?nss. ns \<notin> set protectedNamespaces \<longrightarrow> (\<exists>items. cl_listPodsIn cl ns = Inr items)"
    unfolding nss using assms(2) by (auto simp: groupTargets_mem filter_empty_conv)
  then obtain ks where ks: "collectNamespaces ?f (cl_listPodsIn cl) ?nss [] = Inr ks"
    using collectNamespaces_ok by blast
  note ok = collected_keys [OF ks]
  have "snd (rolloutMatching lib ro cl r targets False st)
      = snd (patchLoop cl (restartPatch (cl_now cl)) (ro_workloads ro ks) st [])"
    by (simp add: targeted_eq ks case_prod_unfold Let_def)
  then have "sentFor cl st (snd (rolloutMatching lib ro cl r targets False st)) (ro_workloads ro ks)"
    using patchLoop_sentFor [OF assms(1) conjunct1 [OF ok] conjunct2 [OF ok]] by simp
  moreover have "set (ro_workloads ro ks) = targetedWorkloads lib (cs_Registry st) cl (cr_DefaultSDKConfig r) targets"
    by (rule set_eqI) (simp add: range_ok_set [OF assms(1)] collectNamespaces_set [OF ks] nss targeted_asked)
  ultimately show ?thesis by blast
qed

text \<open>The cleanup sweep.\<close>

definition cleanupWorkloads :: "'sel beylaLib \<Rightarrow> 'sel registry \<Rightarrow> cluster \<Rightarrow> pod list \<Rightarrow> workloadKey set" where
  "cleanupWorkloads lib reg cl items = {resolveWorkload (Resolve (cl_reader cl) p) | p. p \<in> set items
     \<and> om_Namespace (pod_Meta p) \<notin> set protectedNamespaces \<and> rollable (cl_reader cl) p
     \<and> IsInstrumented (pod_Meta p) \<and> Match (bl_match lib) reg (Resolve (cl_reader cl) p) = None}"

lemma cleanup_eq:
  fixes targets :: "restartCriterion list"
  assumes "cl_listPods cl = Inr items"
  defines "g \<equiv> groupCleanup items [] (groupTargets targets [])"
  shows "rolloutMatching lib ro cl r targets True st =
    (case collectNamespaces (podRollout lib (cr_DefaultSDKConfig r) (cs_Registry st) (cl_reader cl) True)
        (\<lambda>ns. Inr (getList (fst g) ns)) (ro_namespaces ro (snd g)) [] of
       Inl e \<Rightarrow> (Some e, st)
     | Inr toRestart \<Rightarrow>
        (let (errs, st) = patchLoop cl (restartPatch (cl_now cl)) (ro_workloads ro toRestart) st [] in (errorsJoin errs, st)))"
  by (simp add: rolloutMatching_def assms(1) g_def getList_def case_prod_unfold Let_def)

lemma cleanup_asked:
  "(\<exists>e\<in>set (snd (groupCleanup items [] bn)). asked (podRollout lib cfg reg (cl_reader cl) True)
      (\<lambda>ns. Inr (getList (fst (groupCleanup items [] bn)) ns)) k e)
    \<longleftrightarrow> k \<in> cleanupWorkloads lib reg cl items"
proof
  assume "\<exists>e\<in>set (snd (groupCleanup items [] bn)). asked (podRollout lib cfg reg (cl_reader cl) True)
      (\<lambda>ns. Inr (getList (fst (groupCleanup items [] bn)) ns)) k e"
  then show "k \<in> cleanupWorkloads lib reg cl items"
    by (auto simp: asked_def groupCleanup_list podRollout_cleanup cleanupWorkloads_def)
next
  assume "k \<in> cleanupWorkloads lib reg cl items"
  then obtain p where p: "p \<in> set items" "om_Namespace (pod_Meta p) \<notin> set protectedNamespaces" "rollable (cl_reader cl) p"
    "IsInstrumented (pod_Meta p)" "Match (bl_match lib) reg (Resolve (cl_reader cl) p) = None"
    "k = resolveWorkload (Resolve (cl_reader cl) p)"
    by (auto simp: cleanupWorkloads_def)
  let ?ns = "om_Namespace (pod_Meta p)"
  have "?ns \<in> set (gm_keys (snd (groupCleanup items [] bn)))"
    unfolding groupCleanup_keys using p(1,4) by blast
  then obtain ts where ts: "(?ns, ts) \<in> set (snd (groupCleanup items [] bn))" by auto
  have "p \<in> set (getList (fst (groupCleanup items [] bn)) ?ns)"
    unfolding groupCleanup_list using p(1,4) by simp
  moreover have "podRollout lib cfg reg (cl_reader cl) True ts p = Some k"
    using p by (simp add: podRollout_cleanup)
  ultimately have "asked (podRollout lib cfg reg (cl_reader cl) True)
      (\<lambda>ns. Inr (getList (fst (groupCleanup items [] bn)) ns)) k (?ns, ts)"
    using p(2) by (auto simp: asked_def)
  with ts show "\<exists>e\<in>set (snd (groupCleanup items [] bn)). asked (podRollout lib cfg reg (cl_reader cl) True)
      (\<lambda>ns. Inr (getList (fst (groupCleanup items [] bn)) ns)) k e" ..
qed

lemma cleanup_sweep:
  assumes "range_ok ro" "cl_listPods cl = Inr items"
  shows "\<exists>keys. sentFor cl st (snd (rolloutMatching lib ro cl r targets True st)) keys
    \<and> set keys = cleanupWorkloads lib (cs_Registry st) cl items"
proof -
  let ?g = "groupCleanup items [] (groupTargets targets [])"
  let ?f = "podRollout lib (cr_DefaultSDKConfig r) (cs_Registry st) (cl_reader cl) True"
  let ?po = "\<lambda>ns. Inr (getList (fst ?g) ns) :: err + pod list"
  let ?nss = "ro_namespaces ro (snd ?g)"
  have nss: "set ?nss = set (snd ?g)" using range_ok_set [OF assms(1)] by blast
  obtain ks where ks: "collectNamespaces ?f ?po ?nss [] = Inr ks"
    using collectNamespaces_ok [of ?nss ?po] by auto
  note ok = collected_keys [OF ks]
  have "snd (rolloutMatching lib ro cl r targets True st)
      = snd (patchLoop cl (restartPatch (cl_now cl)) (ro_workloads ro ks) st [])"
    by (simp add: cleanup_eq [OF assms(2)] ks case_prod_unfold Let_def)
  then have "sentFor cl st (snd (rolloutMatching lib ro cl r targets True st)) (ro_workloads ro ks)"
    using patchLoop_sentFor [OF assms(1) conjunct1 [OF ok] conjunct2 [OF ok]] by simp
  moreover have "set (ro_workloads ro ks) = cleanupWorkloads lib (cs_Registry st) cl items"
    by (rule set_eqI) (simp add: range_ok_set [OF assms(1)] collectNamespaces_set [OF ks] nss cleanup_asked)
  ultimately show ?thesis by blast
qed

section \<open>Sweeps and reconciliations in general\<close>

text \<open>What the API promises of a namespaced list.\<close>

definition lists_ok :: "cluster \<Rightarrow> bool" where
  "lists_ok cl = (\<forall>ns items. cl_listPodsIn cl ns = Inr items \<longrightarrow> (\<forall>p\<in>set items. om_Namespace (pod_Meta p) = ns))"

definition safeKey :: "workloadKey \<Rightarrow> bool" where
  "safeKey k = (rollableKind (wk_Kind k) \<and> wk_Namespace k \<notin> set protectedNamespaces)"

lemma asked_safe:
  assumes "asked (podRollout lib cfg reg rd c) pods_of k e"
    "\<And>ns items p. pods_of ns = Inr items \<Longrightarrow> p \<in> set items \<Longrightarrow> om_Namespace (pod_Meta p) = ns"
  shows "safeKey k"
  using assms podRollout_key by (fastforce simp: asked_def safeKey_def)

lemma collected_safe:
  assumes "range_ok ro" "collectNamespaces (podRollout lib cfg reg rd c) pods_of nss [] = Inr ks"
    "\<And>ns items p. pods_of ns = Inr items \<Longrightarrow> p \<in> set items \<Longrightarrow> om_Namespace (pod_Meta p) = ns"
  shows "sentFor cl st (snd (patchLoop cl (restartPatch (cl_now cl)) (ro_workloads ro ks) st [])) (ro_workloads ro ks)
    \<and> (\<forall>k\<in>set (ro_workloads ro ks). safeKey k)"
proof
  note ok = collected_keys [OF assms(2)]
  show "sentFor cl st (snd (patchLoop cl (restartPatch (cl_now cl)) (ro_workloads ro ks) st [])) (ro_workloads ro ks)"
    by (rule patchLoop_sentFor [OF assms(1) conjunct1 [OF ok] conjunct2 [OF ok]])
  show "\<forall>k\<in>set (ro_workloads ro ks). safeKey k"
    using collectNamespaces_set [OF assms(2)] asked_safe [OF _ assms(3)] range_ok_set [OF assms(1)] by auto
qed

lemma rollout_safe:
  assumes "range_ok ro" "lists_ok cl"
  shows "\<exists>keys. sentFor cl st (snd (rolloutMatching lib ro cl r targets c st)) keys \<and> (\<forall>k\<in>set keys. safeKey k)"
proof (cases c)
  case False
  show ?thesis
  proof (cases "collectNamespaces (podRollout lib (cr_DefaultSDKConfig r) (cs_Registry st) (cl_reader cl) False)
      (cl_listPodsIn cl) (ro_namespaces ro (groupTargets targets [])) []")
    case (Inl e)
    with False show ?thesis by (intro exI [of _ "[]"]) (simp add: targeted_eq sentFor_none)
  next
    case (Inr ks)
    have ns: "\<And>ns items p. cl_listPodsIn cl ns = Inr items \<Longrightarrow> p \<in> set items \<Longrightarrow> om_Namespace (pod_Meta p) = ns"
      using assms(2) by (simp add: lists_ok_def)
    have "sentFor cl st (snd (patchLoop cl (restartPatch (cl_now cl)) (ro_workloads ro ks) st [])) (ro_workloads ro ks)
        \<and> (\<forall>k\<in>set (ro_workloads ro ks). safeKey k)"
      by (rule collected_safe [OF assms(1) Inr]) (rule ns)
    with False Inr show ?thesis
      by (intro exI [of _ "ro_workloads ro ks"]) (simp add: targeted_eq case_prod_unfold Let_def)
  qed
next
  case True
  show ?thesis
  proof (cases "cl_listPods cl")
    case (Inl e)
    with True show ?thesis by (intro exI [of _ "[]"]) (simp add: rolloutMatching_def sentFor_none)
  next
    case (Inr items)
    from cleanup_sweep [OF assms(1) Inr] obtain keys where
      k: "sentFor cl st (snd (rolloutMatching lib ro cl r targets True st)) keys"
      "set keys = cleanupWorkloads lib (cs_Registry st) cl items" by blast
    have "safeKey k" if "k \<in> cleanupWorkloads lib (cs_Registry st) cl items" for k
    proof -
      from that obtain p where "om_Namespace (pod_Meta p) \<notin> set protectedNamespaces"
        "podRollout lib (cr_DefaultSDKConfig r) (cs_Registry st) (cl_reader cl) True [] p = Some k"
        by (auto simp: cleanupWorkloads_def podRollout_cleanup)
      then show ?thesis using podRollout_key by (fastforce simp: safeKey_def)
    qed
    then have "\<forall>x\<in>set keys. safeKey x" using k(2) by simp
    then show ?thesis using k(1) True by (intro exI [of _ keys]) simp
  qed
qed

text \<open>The contribution of one ConfigMap of the list, and the loop's three ways on.\<close>

definition contributes :: "'sel cmLib \<Rightarrow> cluster \<Rightarrow> configMap \<Rightarrow> 'sel instrumentation option" where
  "contributes cml cl cm =
    (if hasSelectorAnnotation cml (cm_Meta cm) \<and> stateNodeEligible cml cl cm = (True, None)
     then (case parseConfigMap cml (cm_Data cm) of Returns (Inr (inst, ts)) \<Rightarrow> Some inst | _ \<Rightarrow> None)
     else None)"

lemma snapshotLoop_Cons:
  assumes "snapshotLoop cml cl (cm # cms) m = Returns (Inr insts)"
  obtains (skipped) "contributes cml cl cm = None" "snapshotLoop cml cl cms m = Returns (Inr insts)"
  | (added) inst where "contributes cml cl cm = Some inst"
      "snapshotLoop cml cl cms (gm_put (cmObjectKey cm) inst m) = Returns (Inr insts)"
proof (cases "hasSelectorAnnotation cml (cm_Meta cm)")
  case False
  with assms show ?thesis by (intro skipped) (simp_all add: contributes_def)
next
  case True
  obtain el e where s: "stateNodeEligible cml cl cm = (el, e)" by (cases "stateNodeEligible cml cl cm")
  with assms True have e: "e = None" by (cases e) simp_all
  show ?thesis
  proof (cases "el")
    case False
    with assms True s e show ?thesis by (intro skipped) (simp_all add: contributes_def)
  next
    case el: True
    show ?thesis
    proof (cases "parseConfigMap cml (cm_Data cm)")
      case Panic
      with assms True s e el show ?thesis by simp
    next
      case (Returns x)
      show ?thesis
      proof (cases x)
        case (Inl pe)
        with assms True s e el Returns show ?thesis by (intro skipped) (simp_all add: contributes_def)
      next
        case (Inr it)
        obtain inst ts where "it = (inst, ts)" by (cases it)
        with assms True s e el Returns Inr show ?thesis by (intro added [of inst]) (simp_all add: contributes_def)
      qed
    qed
  qed
qed

lemma snapshotLoop_ok: "gm_ok m \<Longrightarrow> snapshotLoop cml cl cms m = Returns (Inr insts) \<Longrightarrow> gm_ok insts"
proof (induction cms arbitrary: m)
  case Nil
  then show ?case by simp
next
  case (Cons cm cms)
  from Cons.prems(2) show ?case
  proof (cases rule: snapshotLoop_Cons)
    case skipped
    then show ?thesis by (intro Cons.IH [OF Cons.prems(1)])
  next
    case (added inst)
    then show ?thesis by (intro Cons.IH [OF gm_ok_put [OF Cons.prems(1)]])
  qed
qed

lemma refresh_ok:
  "registry_ok reg \<Longrightarrow> refreshRegistry cml cl reg = Returns (e, reg') \<Longrightarrow> registry_ok reg'"
  using snapshotLoop_ok [of "[]" cml cl]
  by (auto simp: refreshRegistry_def reg.invar_replace split: sum.splits goRun.splits)

text \<open>A reconciliation first moves the registry, then possibly sweeps.\<close>

lemma reconcileRollouts_shape:
  assumes "reconcileRollouts lib cml ro cl r targets c st = Returns (res, st')"
  obtains (quiet) "st' = st"
  | (failed) e where "c" "refreshRegistry cml cl (cs_Registry st) = Returns (Some e, cs_Registry st')"
      "st' = st\<lparr>cs_Registry := cs_Registry st'\<rparr>"
  | (swept) reg where "if c then refreshRegistry cml cl (cs_Registry st) = Returns (None, reg) else reg = cs_Registry st"
      "st' = snd (rolloutMatching lib ro cl r targets c (st\<lparr>cs_Registry := reg\<rparr>))"
proof -
  consider "st' = st"
    | "(case (if c then refreshRegistry cml cl (cs_Registry st) else Returns (None, cs_Registry st)) of
       Panic \<Rightarrow> Panic
     | Returns (Some e, reg) \<Rightarrow> Returns ((emptyResult, Some e), st\<lparr>cs_Registry := reg\<rparr>)
     | Returns (None, reg) \<Rightarrow>
        (let (e, st) = rolloutMatching lib ro cl r targets c (st\<lparr>cs_Registry := reg\<rparr>)
         in if e \<noteq> None \<and> c then Returns ((emptyResult, e), st) else Returns ((emptyResult, None), st))) = Returns (res, st')"
    using assms unfolding reconcileRollouts_def by (auto simp del: Let_def split: if_splits)
  then show ?thesis
  proof cases
    case 1
    then show ?thesis by (rule quiet)
  next
    case 2
    show ?thesis
    proof (cases "if c then refreshRegistry cml cl (cs_Registry st) else Returns (None, cs_Registry st)")
      case Panic
      with 2 show ?thesis by simp
    next
      case (Returns x)
      obtain e reg where x: "x = (e, reg)" by (cases x)
      show ?thesis
      proof (cases e)
        case None
        have "if c then refreshRegistry cml cl (cs_Registry st) = Returns (None, reg) else reg = cs_Registry st"
          using Returns x None by (auto split: if_splits)
        moreover have "st' = snd (rolloutMatching lib ro cl r targets c (st\<lparr>cs_Registry := reg\<rparr>))"
          using 2 by (simp add: Returns x None Let_def case_prod_unfold split: if_splits)
        ultimately show ?thesis by (rule swept)
      next
        case (Some m)
        then have "c" "refreshRegistry cml cl (cs_Registry st) = Returns (Some m, reg)"
          using Returns x by (auto split: if_splits)
        moreover have "st' = st\<lparr>cs_Registry := reg\<rparr>" using 2 by (simp add: Returns x Some)
        ultimately show ?thesis by (intro failed [of m]) simp_all
      qed
    qed
  qed
qed

section \<open>How the registry follows the ConfigMaps\<close>

definition ownContribution :: "'sel cmLib \<Rightarrow> cluster \<Rightarrow> string \<Rightarrow> string \<Rightarrow> 'sel instrumentation option" where
  "ownContribution cml cl ns name =
    (case cl_getConfigMap cl ns name of Found cm \<Rightarrow> keepLive (contributes cml cl cm) | _ \<Rightarrow> None)"

lemma lookup_forget:
  "registry_ok reg \<Longrightarrow> lookupInst (RegistryDelete k reg) = (lookupInst reg)(k := None) \<and> registry_ok (RegistryDelete k reg)"
  by (auto simp: reg.lookup_del reg.invar_del fun_eq_iff)

lemma lookup_insert:
  "registry_ok reg \<Longrightarrow> lookupInst (RegistrySet k i reg) = (lookupInst reg)(k := keepLive (Some i)) \<and> registry_ok (RegistrySet k i reg)"
  by (auto simp: reg.lookup_set reg.invar_set fun_eq_iff keepLive_def)

definition followedBy :: "'sel controllerState \<Rightarrow> 'sel controllerState \<Rightarrow> bool" where
  "followedBy st st' = (cs_Patches st' = cs_Patches st \<and> cs_Metrics st' = cs_Metrics st \<and> registry_ok (cs_Registry st'))"

lemma Reconcile_shape:
  assumes "Reconcile lib cml ro cl r ns name st = Returns (res, st')" "registry_ok (cs_Registry st)"
    "\<And>e. cl_getConfigMap cl ns name \<noteq> GetErr e"
  obtains (moved) st1 where "followedBy st st1"
      "lookupInst (cs_Registry st1) = (lookupInst (cs_Registry st))(nsName ns name := ownContribution cml cl ns name)"
      "st' = st1 \<or> (\<exists>targets c. reconcileRollouts lib cml ro cl r targets c st1 = Returns (res, st'))"
proof (cases "cl_getConfigMap cl ns name")
  case NotFound
  then show ?thesis
    using assms(1,2) lookup_forget [OF assms(2), of "nsName ns name"]
    by (intro moved [of "forget (nsName ns name) st"])
      (auto simp: Reconcile_def ownContribution_def forget_def followedBy_def)
next
  case (GetErr e)
  with assms(3) [of e] show ?thesis by simp
next
  case (Found cm)
  have gone: ?thesis if "contributes cml cl cm = None" "st' = forget (nsName ns name) st"
    using that lookup_forget [OF assms(2), of "nsName ns name"]
    by (intro moved [of "forget (nsName ns name) st"])
      (auto simp: ownContribution_def Found forget_def followedBy_def keepLive_def)
  show ?thesis
  proof (cases "hasSelectorAnnotation cml (cm_Meta cm) \<and> stateNodeEligible cml cl cm = (True, None)")
    case False
    then show ?thesis
      using assms(1) by (intro gone) (auto simp: Reconcile_def Found contributes_def Let_def split: if_splits prod.splits)
  next
    case True
    show ?thesis
    proof (cases "parseConfigMap cml (cm_Data cm)")
      case Panic
      with assms(1) True show ?thesis by (simp add: Reconcile_def Found)
    next
      case (Returns x)
      show ?thesis
      proof (cases x)
        case (Inl e)
        with assms(1) True Returns show ?thesis
          by (intro gone) (simp_all add: Reconcile_def Found contributes_def)
      next
        case (Inr it)
        obtain inst ts where it: "it = (inst, ts)" by (cases it)
        let ?st1 = "st\<lparr>cs_Registry := RegistrySet (nsName ns name) inst (cs_Registry st)\<rparr>"
        have "st' = ?st1 \<or> (\<exists>targets c. reconcileRollouts lib cml ro cl r targets c ?st1 = Returns (res, st'))"
          using assms(1) True Returns Inr it
          by (auto simp: Reconcile_def Found Let_def simp del: length_greater_0_conv split: if_splits)
        moreover have "contributes cml cl cm = Some inst"
          using True Returns Inr it by (simp add: contributes_def)
        ultimately show ?thesis
          using lookup_insert [OF assms(2), of "nsName ns name" inst]
          by (intro moved [of ?st1]) (simp_all add: ownContribution_def Found followedBy_def)
      qed
    qed
  qed
qed

lemma Reconcile_GetErr:
  "cl_getConfigMap cl ns name = GetErr e \<Longrightarrow>
    Reconcile lib cml ro cl r ns name st = Returns ((emptyResult, Some e), st)"
  by (simp add: Reconcile_def)

lemma reconcileRollouts_safe:
  assumes "range_ok ro" "lists_ok cl" "registry_ok (cs_Registry st)"
    "reconcileRollouts lib cml ro cl r targets c st = Returns (res, st')"
  shows "registry_ok (cs_Registry st') \<and> (\<exists>keys. distinct keys \<and> (\<forall>k\<in>set keys. safeKey k)
    \<and> cs_Patches st' = cs_Patches st @ map (\<lambda>k. (k, restartPatch (cl_now cl))) keys)"
  using assms(4)
proof (cases rule: reconcileRollouts_shape)
  case quiet
  with assms(3) show ?thesis by (intro conjI exI [of _ "[]"]) simp_all
next
  case (failed e)
  then have "registry_ok (cs_Registry st')" using refresh_ok [OF assms(3)] by blast
  moreover have "cs_Patches st' = cs_Patches st" using failed(3) by (metis controllerState.select_convs(3) controllerState.surjective controllerState.update_convs(1))
  ultimately show ?thesis by (intro conjI exI [of _ "[]"]) simp_all
next
  case (swept reg)
  have ok: "registry_ok reg"
    using swept(1) assms(3) refresh_ok [OF assms(3)] by (cases c) auto
  obtain keys where "sentFor cl (st\<lparr>cs_Registry := reg\<rparr>) st' keys" "\<forall>k\<in>set keys. safeKey k"
    using rollout_safe [OF assms(1,2), of "st\<lparr>cs_Registry := reg\<rparr>" lib r targets c] swept(2) by blast
  with ok show ?thesis by (intro conjI exI [of _ keys]) (simp_all add: sentFor_def)
qed

section \<open>Runs\<close>

text \<open>
  The reconciler runs one pass at a time (\<open>MaxConcurrentReconciles\<close> is 1). Between passes the
  cluster, the clock and the order of Go's maps are whatever they are.
\<close>

inductive controllerStep :: "'sel beylaLib \<Rightarrow> 'sel cmLib \<Rightarrow> 'sel controllerState \<Rightarrow> 'sel controllerState \<Rightarrow> bool"
  for lib cml where
  pass: "range_ok ro \<Longrightarrow> lists_ok cl \<Longrightarrow> Reconcile lib cml ro cl r ns name st = Returns (res, st')
    \<Longrightarrow> controllerStep lib cml st st'"

inductive controllerReaches :: "'sel beylaLib \<Rightarrow> 'sel cmLib \<Rightarrow> 'sel controllerState \<Rightarrow> bool"
  for lib cml where
  start: "controllerReaches lib cml \<lparr>cs_Registry = RegistryNew, cs_Metrics = NewSDKInjectionMetrics, cs_Patches = []\<rparr>"
| more: "controllerReaches lib cml st \<Longrightarrow> controllerStep lib cml st st' \<Longrightarrow> controllerReaches lib cml st'"

inductive_cases controllerStepE: "controllerStep lib cml st st'"

lemma step_safe:
  assumes "controllerStep lib cml st st'" "registry_ok (cs_Registry st)"
  shows "registry_ok (cs_Registry st') \<and> (\<exists>marker keys. distinct keys \<and> (\<forall>k\<in>set keys. safeKey k)
    \<and> cs_Patches st' = cs_Patches st @ map (\<lambda>k. (k, restartPatch marker)) keys)"
  using assms(1)
proof (rule controllerStepE)
  fix ro cl r ns name res
  assume ok: "range_ok ro" "lists_ok cl" and rec: "Reconcile lib cml ro cl r ns name st = Returns (res, st')"
  show ?thesis
  proof (cases "\<exists>e. cl_getConfigMap cl ns name = GetErr e")
    case True
    then have "st' = st" using rec by (auto simp: Reconcile_GetErr)
    with assms(2) show ?thesis by (intro conjI exI [of _ "''''"] exI [of _ "[]"]) simp_all
  next
    case False
    then have ne: "\<And>e. cl_getConfigMap cl ns name \<noteq> GetErr e" by blast
    from rec assms(2) ne show ?thesis
    proof (cases rule: Reconcile_shape)
      case (moved st1)
      then have st1: "registry_ok (cs_Registry st1)" "cs_Patches st1 = cs_Patches st" by (simp_all add: followedBy_def)
      from moved(3) show ?thesis
      proof
        assume "st' = st1"
        with st1 show ?thesis by (intro conjI exI [of _ "''''"] exI [of _ "[]"]) simp_all
      next
        assume "\<exists>targets c. reconcileRollouts lib cml ro cl r targets c st1 = Returns (res, st')"
        then obtain targets c where "reconcileRollouts lib cml ro cl r targets c st1 = Returns (res, st')" by blast
        from reconcileRollouts_safe [OF ok st1(1) this] obtain keys where "registry_ok (cs_Registry st')"
          "distinct keys" "\<forall>k\<in>set keys. safeKey k"
          "cs_Patches st' = cs_Patches st1 @ map (\<lambda>k. (k, restartPatch (cl_now cl))) keys" by blast
        with st1(2) show ?thesis by (intro conjI exI [of _ "cl_now cl"] exI [of _ keys]) simp_all
      qed
    qed
  qed
qed

section \<open>Properties\<close>

text \<open>
  C13. Safety of every run: in every state the controller can reach, through any sequence of
  reconciliations of any ConfigMaps against any answers of the cluster, the registry's
  invariant holds and every patch it ever sent went to a Deployment, StatefulSet or
  DaemonSet outside the protected namespaces.
\<close>

theorem controller_runs_are_safe:
  assumes "controllerReaches lib cml st"
  shows "registry_ok (cs_Registry st)
    \<and> (\<forall>(k, patch)\<in>set (cs_Patches st). wk_Kind k \<in> {kindDeployment, kindStatefulSet, kindDaemonSet}
        \<and> wk_Namespace k \<notin> set protectedNamespaces)"
  using assms
proof (induction rule: controllerReaches.induct)
  case start
  then show ?case by (simp add: reg.invar_empty)
next
  case (more st st')
  then have ih: "registry_ok (cs_Registry st)" by blast
  from step_safe [OF more.hyps(2) ih] obtain marker keys where
    "registry_ok (cs_Registry st')" "\<forall>k\<in>set keys. safeKey k"
    "cs_Patches st' = cs_Patches st @ map (\<lambda>k. (k, restartPatch marker)) keys" by blast
  with more.IH show ?case by (auto simp: safeKey_def rollableKind_def)
qed


text \<open>
  C2. The targeted sweep is exact. When its lists can be read, it patches each workload at most
  once, and precisely the workloads of those live pods that a restart target names and for
  which the webhook would now decide differently from what the pod carries: a pod to be
  injected, or an instrumented pod that no rule selects any more. The registry is untouched.
\<close>

theorem targeted_sweep_exact:
  assumes "range_ok ro"
    "\<forall>t\<in>set targets. tc_Namespace t \<notin> set protectedNamespaces \<longrightarrow> (\<exists>items. cl_listPodsIn cl (tc_Namespace t) = Inr items)"
  shows "\<exists>keys. distinct keys \<and> set keys = targetedWorkloads lib (cs_Registry st) cl (cr_DefaultSDKConfig r) targets
    \<and> cs_Patches (snd (rolloutMatching lib ro cl r targets False st))
      = cs_Patches st @ map (\<lambda>k. (k, restartPatch (cl_now cl))) keys
    \<and> cs_Registry (snd (rolloutMatching lib ro cl r targets False st)) = cs_Registry st"
  using targeted_sweep [OF assms, where st = st and lib = lib and r = r] unfolding sentFor_def by blast

text \<open>A cluster with one pod of a StatefulSet, for the witnesses.\<close>

definition ownedPod :: pod where
  "ownedPod = samplePod\<lparr>pod_Meta := (pod_Meta samplePod)\<lparr>om_OwnerReferences := [\<lparr>or_APIVersion = ''apps/v1'',
     or_Kind = ''StatefulSet'', or_Name = ''db'', or_UID = ''u'', or_Controller = Some True\<rparr>]\<rparr>\<rparr>"

definition sampleCluster :: cluster where
  "sampleCluster = \<lparr>cl_getConfigMap = (\<lambda>_ _. NotFound), cl_getNode = (\<lambda>_. NotFound), cl_listConfigMaps = Inr [],
     cl_listPods = Inr [ownedPod], cl_listPodsIn = (\<lambda>ns. Inr (if ns = ''apps'' then [ownedPod] else [])),
     cl_reader = noReader, cl_dial = (\<lambda>_. Inr ()), cl_now = ''now'', cl_patch = (\<lambda>_ _. None)\<rparr>"

definition sampleOrder :: rangeOrder where
  "sampleOrder = \<lparr>ro_namespaces = rev, ro_workloads = rev\<rparr>"

definition sampleReconciler :: configMapReconciler where
  "sampleReconciler = \<lparr>cr_WebhookReady = None, cr_WebhookServiceAddr = '''', cr_DefaultSDKConfig = sampleSDK ''1''\<rparr>"

definition sampleState :: "string controllerState" where
  "sampleState = \<lparr>cs_Registry = sampleRegistry, cs_Metrics = NewSDKInjectionMetrics, cs_Patches = []\<rparr>"

lemma sampleOrder_ok: "range_ok sampleOrder"
  by (simp add: range_ok_def sampleOrder_def)

theorem targeted_sweep_exact_witness:
  "\<exists>keys. distinct keys \<and> cs_Registry (snd (rolloutMatching sampleLib sampleOrder sampleCluster sampleReconciler
      [\<lparr>tc_Namespace = ''apps'', tc_Kind = ''StatefulSet'', tc_Name = '''', tc_Language = ''''\<rparr>] False sampleState)) = sampleRegistry
    \<and> set keys = targetedWorkloads sampleLib sampleRegistry sampleCluster (sampleSDK ''1'')
      [\<lparr>tc_Namespace = ''apps'', tc_Kind = ''StatefulSet'', tc_Name = '''', tc_Language = ''''\<rparr>]"
  using targeted_sweep_exact [OF sampleOrder_ok, of "[\<lparr>tc_Namespace = ''apps'', tc_Kind = ''StatefulSet'',
      tc_Name = '''', tc_Language = ''''\<rparr>]" sampleCluster sampleLib sampleState sampleReconciler]
  by (simp add: sampleCluster_def sampleState_def sampleReconciler_def) blast

text \<open>
  The cleanup sweep only removes: whatever targets the ConfigMap names, it patches precisely
  the workloads of live instrumented pods outside the protected namespaces that no rule of
  the registry selects. A pod that any ConfigMap still selects is left running.
\<close>

theorem cleanup_sweep_exact:
  assumes "range_ok ro" "cl_listPods cl = Inr items"
  shows "\<exists>keys. distinct keys \<and> set keys = cleanupWorkloads lib (cs_Registry st) cl items
    \<and> cs_Patches (snd (rolloutMatching lib ro cl r targets True st))
      = cs_Patches st @ map (\<lambda>k. (k, restartPatch (cl_now cl))) keys
    \<and> cs_Registry (snd (rolloutMatching lib ro cl r targets True st)) = cs_Registry st"
  using cleanup_sweep [OF assms, where st = st and lib = lib and r = r and targets = targets]
  unfolding sentFor_def by blast

theorem cleanup_sweep_exact_witness:
  "\<exists>keys. set keys = cleanupWorkloads sampleLib sampleRegistry sampleCluster [ownedPod]
    \<and> cs_Patches (snd (rolloutMatching sampleLib sampleOrder sampleCluster sampleReconciler [] True sampleState))
      = map (\<lambda>k. (k, restartPatch ''now'')) keys"
proof -
  have "cl_listPods sampleCluster = Inr [ownedPod]" by (simp add: sampleCluster_def)
  from cleanup_sweep_exact [OF sampleOrder_ok this, of sampleLib sampleState sampleReconciler "[]"]
  obtain keys where "set keys = cleanupWorkloads sampleLib (cs_Registry sampleState) sampleCluster [ownedPod]"
    "cs_Patches (snd (rolloutMatching sampleLib sampleOrder sampleCluster sampleReconciler [] True sampleState))
      = cs_Patches sampleState @ map (\<lambda>k. (k, restartPatch (cl_now sampleCluster))) keys" by blast
  moreover have "cl_now sampleCluster = ''now''" by (simp add: sampleCluster_def)
  moreover have "cs_Registry sampleState = sampleRegistry" "cs_Patches sampleState = []" by (simp_all add: sampleState_def)
  ultimately show ?thesis by (intro exI [of _ keys]) simp
qed

definition sampleCml :: "string cmLib" where
  "sampleCml = \<lparr>cml_SelectorAnnotation = ''beyla.grafana.com/node'', cml_KeyInstrumentation = ''instrumentation.yaml'',
     cml_KeyEligibleForRestart = ''eligible_for_restart.yaml'',
     cml_yamlInject = (\<lambda>raw. Inr (InjectConfig (sampleInst raw ''apps''))),
     cml_yamlEligible = (\<lambda>raw. Inr [Some \<lparr>ed_Namespace = ''b'', ed_Kind = ''Deployment'', ed_Name = ''x'', ed_Language = ''''\<rparr>, None]),
     cml_sortTies = rev\<rparr>"

definition selectorCM :: configMap where
  "selectorCM = \<lparr>cm_Meta = emptyMeta\<lparr>om_Name := ''a'', om_Namespace := ''obs'', om_Annotations := [(''beyla.grafana.com/node'', '''')]\<rparr>,
     cm_Data = [(''instrumentation.yaml'', ''7'')]\<rparr>"

lemma selectorCM_contributes: "contributes sampleCml cl selectorCM = Some (sampleInst ''7'' ''apps'')"
  by (simp add: contributes_def hasSelectorAnnotation_def stateNodeEligible_def parseConfigMap_def sampleCml_def
      selectorCM_def gm_str_def sampleInst_def)

text \<open>The cluster once the ConfigMap exists.\<close>

definition cmCluster :: cluster where
  "cmCluster = sampleCluster\<lparr>cl_getConfigMap := (\<lambda>_ _. Found selectorCM), cl_listConfigMaps := Inr [selectorCM]\<rparr>"

lemma cmCluster_lists: "lists_ok cmCluster"
  by (simp add: lists_ok_def cmCluster_def sampleCluster_def ownedPod_def samplePod_def)

lemma sampleRegistry_ok: "registry_ok sampleRegistry"
  by (simp add: registry_ok_def lookupInst_def sampleRegistry_def gm_ok_def hasRules_def instRules_def sampleInst_def)

lemma sample_pass: "Reconcile sampleLib sampleCml sampleOrder cmCluster sampleReconciler ''obs'' ''a'' sampleState
    = Returns ((emptyResult, None), sampleState\<lparr>cs_Registry := RegistrySet (nsName ''obs'' ''a'') (sampleInst ''7'' ''apps'') sampleRegistry\<rparr>)"
proof -
  have a: "hasSelectorAnnotation sampleCml (cm_Meta selectorCM)"
    by (simp add: hasSelectorAnnotation_def sampleCml_def selectorCM_def)
  have n: "stateNodeEligible sampleCml cmCluster selectorCM = (True, None)"
    by (simp add: stateNodeEligible_def sampleCml_def selectorCM_def gm_str_def)
  have p: "parseConfigMap sampleCml (cm_Data selectorCM) = Returns (Inr (sampleInst ''7'' ''apps'', []))"
    by (simp add: parseConfigMap_def sampleCml_def selectorCM_def sampleInst_def)
  have g: "cl_getConfigMap cmCluster ''obs'' ''a'' = Found selectorCM" by (simp add: cmCluster_def)
  have "list_ex (\<lambda>rule. rc_Mode (rule_Config rule) \<noteq> ModeSkip) (ic_Rules (InjectConfig (sampleInst ''7'' ''apps'')))"
    by (simp add: sampleInst_def ModeSkip_def)
  then show ?thesis
    by (simp add: Reconcile_def g a n p Let_def) (simp add: sampleState_def)
qed

text \<open>A ConfigMap was deleted and an instrumented pod of a StatefulSet is left over: it is restarted.\<close>

definition leftoverPod :: pod where
  "leftoverPod = ownedPod\<lparr>pod_Meta := (pod_Meta ownedPod)\<lparr>om_Annotations := [(InjectedAnnotation, ''old'')]\<rparr>\<rparr>"

definition goneCluster :: cluster where
  "goneCluster = sampleCluster\<lparr>cl_listPods := Inr [leftoverPod]\<rparr>"

definition startState :: "string controllerState" where
  "startState = \<lparr>cs_Registry = RegistryNew, cs_Metrics = NewSDKInjectionMetrics, cs_Patches = []\<rparr>"

lemma leftover_workload: "cleanupWorkloads sampleLib RegistryNew goneCluster [leftoverPod] =
    {\<lparr>wk_Namespace = ''apps'', wk_Kind = ''StatefulSet'', wk_Name = ''db''\<rparr>}"
proof -
  have m: "om_Namespace (pod_Meta leftoverPod) = ''apps''" "om_DeletionTimestamp (pod_Meta leftoverPod) = None"
    "om_OwnerReferences (pod_Meta leftoverPod) = [\<lparr>or_APIVersion = ''apps/v1'', or_Kind = ''StatefulSet'',
       or_Name = ''db'', or_UID = ''u'', or_Controller = Some True\<rparr>]" "IsInstrumented (pod_Meta leftoverPod)"
    by (simp_all add: leftoverPod_def ownedPod_def samplePod_def emptyMeta_def IsInstrumented_def)
  have c: "pi_OwnerChain (Resolve rd leftoverPod) = [\<lparr>ow_Kind = ''Pod'', ow_Name = om_Name (pod_Meta leftoverPod)\<rparr>,
      \<lparr>ow_Kind = ''StatefulSet'', ow_Name = ''db''\<rparr>]" for rd
    by (simp add: Resolve_def m controllerRef_def Let_def)
  have "Match (bl_match sampleLib) (RegistryNew :: string registry) i = None" for i
    by (simp add: Match_def generateMatchInputUnlocked_def RegistryNew_def)
  moreover have "resolveWorkload (Resolve rd leftoverPod) = \<lparr>wk_Namespace = ''apps'', wk_Kind = ''StatefulSet'', wk_Name = ''db''\<rparr>" for rd
    by (simp add: resolveWorkload_def c m rollableKind_def kind_defs)
  moreover have "rollable rd leftoverPod" for rd
    by (simp add: rollable_def c m rollableKind_def kind_defs)
  ultimately show ?thesis by (auto simp: cleanupWorkloads_def m protectedNamespaces_def)
qed

lemma cleanup_pass:
  assumes "\<not> sd_NoAutoRestart (cr_DefaultSDKConfig r)" "\<And>e. cr_WebhookReady r \<noteq> Some (Some e)"
  shows "\<exists>res st'. Reconcile sampleLib sampleCml sampleOrder goneCluster r ''obs'' ''a'' startState = Returns (res, st') \<and> cs_Patches st' \<noteq> []"
proof -
  let ?st = "startState\<lparr>cs_Registry := RegistryReplace [] (RegistryDelete ''obs/a'' RegistryNew)\<rparr>"
  let ?st' = "snd (rolloutMatching sampleLib sampleOrder goneCluster r [] True ?st)"
  have l: "cl_listPods goneCluster = Inr [leftoverPod]" by (simp add: goneCluster_def)
  have reg: "cs_Registry (startState\<lparr>cs_Registry := RegistryReplace [] r\<rparr>) = RegistryNew" for r
    by (simp add: RegistryReplace_def RegistryNew_def)
  from cleanup_sweep [OF sampleOrder_ok l, of ?st sampleLib r "[]"]
  obtain keys where keys: "sentFor goneCluster ?st ?st' keys"
    "set keys = {\<lparr>wk_Namespace = ''apps'', wk_Kind = ''StatefulSet'', wk_Name = ''db''\<rparr>}"
    unfolding reg leftover_workload by blast
  have "\<exists>res. Reconcile sampleLib sampleCml sampleOrder goneCluster r ''obs'' ''a'' startState = Returns (res, ?st')"
  proof -
    have c: "cl_getConfigMap goneCluster ''obs'' ''a'' = NotFound" "cl_listConfigMaps goneCluster = Inr []"
        "dialWebhookService goneCluster addr = None" for addr
      by (simp_all add: goneCluster_def sampleCluster_def dialWebhookService_def)
    have g: "\<not> (case cr_WebhookReady r of Some (Some e) \<Rightarrow> True | _ \<Rightarrow> False)"
      using assms(2) by (auto split: option.split)
    have s: "cs_Registry startState = RegistryNew" "nsName ''obs'' ''a'' = ''obs/a''"
      by (simp_all add: startState_def nsName_def)
    show ?thesis
      by (simp add: Reconcile_def c reconcileRollouts_def assms(1) g refreshRegistry_def forget_def s case_prod_unfold Let_def)
  qed
  moreover have "cs_Patches ?st' \<noteq> []"
  proof -
    have "keys \<noteq> []" using keys(2) by (metis insert_not_empty list.set(1))
    with keys(1) show ?thesis by (simp only: sentFor_def) simp
  qed
  ultimately show ?thesis by blast
qed

lemma goneCluster_lists: "lists_ok goneCluster"
  by (simp add: lists_ok_def goneCluster_def sampleCluster_def ownedPod_def samplePod_def)

lemma cleanup_run: "\<exists>st. controllerReaches sampleLib sampleCml st \<and> cs_Patches st \<noteq> []"
proof -
  have "\<exists>res st'. Reconcile sampleLib sampleCml sampleOrder goneCluster sampleReconciler ''obs'' ''a'' startState = Returns (res, st')
      \<and> cs_Patches st' \<noteq> []"
    by (rule cleanup_pass) (simp_all add: sampleReconciler_def sampleSDK_def)
  then obtain res st' where st': "Reconcile sampleLib sampleCml sampleOrder goneCluster sampleReconciler ''obs'' ''a'' startState = Returns (res, st')"
    "cs_Patches st' \<noteq> []" by blast
  have "controllerReaches sampleLib sampleCml startState"
    unfolding startState_def by (rule controllerReaches.start)
  from controllerReaches.more [OF this controllerStep.pass [OF sampleOrder_ok goneCluster_lists st'(1)]] st'(2) show ?thesis by blast
qed

theorem controller_runs_are_safe_witness:
  "\<exists>st. controllerReaches sampleLib sampleCml st \<and> cs_Patches st \<noteq> [] \<and> registry_ok (cs_Registry st)
    \<and> (\<forall>(k, patch)\<in>set (cs_Patches st). wk_Kind k \<in> {kindDeployment, kindStatefulSet, kindDaemonSet}
        \<and> wk_Namespace k \<notin> set protectedNamespaces)"
proof -
  obtain st :: "string controllerState" where st: "controllerReaches sampleLib sampleCml st" "cs_Patches st \<noteq> []"
    using cleanup_run by blast
  from controller_runs_are_safe [OF st(1)] st show ?thesis by blast
qed

lemma Reconcile_registry:
  assumes "Reconcile lib cml ro cl r ns name st = Returns (res, st')" "registry_ok (cs_Registry st)" "range_ok ro" "lists_ok cl"
    "\<forall>e. cl_getConfigMap cl ns name \<noteq> GetErr e"
  shows "\<exists>reg1. lookupInst reg1 = (lookupInst (cs_Registry st))(nsName ns name := ownContribution cml cl ns name)
    \<and> (cs_Registry st' = reg1 \<or> (\<exists>e. refreshRegistry cml cl reg1 = Returns (e, cs_Registry st')))"
proof -
  have ne: "\<And>e. cl_getConfigMap cl ns name \<noteq> GetErr e" using assms(5) by blast
  from assms(1,2) ne show ?thesis
  proof (cases rule: Reconcile_shape)
    case (moved st1)
    have "cs_Registry st' = cs_Registry st1 \<or> (\<exists>e. refreshRegistry cml cl (cs_Registry st1) = Returns (e, cs_Registry st'))"
      using moved(3)
    proof
      assume "\<exists>targets c. reconcileRollouts lib cml ro cl r targets c st1 = Returns (res, st')"
      then obtain targets c where rr: "reconcileRollouts lib cml ro cl r targets c st1 = Returns (res, st')" by blast
      from rr show ?thesis
      proof (cases rule: reconcileRollouts_shape)
        case (swept reg)
        obtain keys where "sentFor cl (st1\<lparr>cs_Registry := reg\<rparr>) st' keys"
          using rollout_safe [OF assms(3,4), of "st1\<lparr>cs_Registry := reg\<rparr>" lib r targets c] swept(2) by blast
        then have "cs_Registry st' = reg" by (simp add: sentFor_def)
        with swept(1) show ?thesis by (cases c) auto
      qed auto
    qed simp
    with moved(2) show ?thesis by blast
  qed
qed

text \<open>
  C18. The registry follows the ConfigMap: a reconciliation that can read the ConfigMap first
  moves the registry to a state that differs from the old one at the ConfigMap's own key
  only, where it holds the ConfigMap's contribution if it is annotated, belongs to a live
  node (or to none), parses and has rules, and nothing otherwise. After that the registry
  stays, or is replaced as a whole by the snapshot that precedes a cleanup.
\<close>

theorem Reconcile_tracks_ConfigMap:
  assumes "Reconcile lib cml ro cl r ns name st = Returns (res, st')" "registry_ok (cs_Registry st)" "range_ok ro" "lists_ok cl"
    "\<forall>e. cl_getConfigMap cl ns name \<noteq> GetErr e"
  shows "\<exists>reg1. lookupInst reg1 = (lookupInst (cs_Registry st))(nsName ns name := ownContribution cml cl ns name)
    \<and> (cs_Registry st' = reg1 \<or> (\<exists>e. refreshRegistry cml cl reg1 = Returns (e, cs_Registry st')))"
  by (rule Reconcile_registry [OF assms])

text \<open>A pass that reads a ConfigMap of version 7 over an entry that has none.\<close>

theorem Reconcile_tracks_ConfigMap_witness:
  "\<exists>res st' reg1. Reconcile sampleLib sampleCml sampleOrder cmCluster sampleReconciler ''obs'' ''a'' sampleState = Returns (res, st')
    \<and> registry_ok (cs_Registry sampleState) \<and> range_ok sampleOrder \<and> lists_ok cmCluster
    \<and> (\<forall>e. cl_getConfigMap cmCluster ''obs'' ''a'' \<noteq> GetErr e)
    \<and> lookupInst (cs_Registry sampleState) ''obs/a'' = Some (sampleInst '''' ''apps'')
    \<and> lookupInst reg1 = (lookupInst (cs_Registry sampleState))(''obs/a'' := Some (sampleInst ''7'' ''apps''))
    \<and> (cs_Registry st' = reg1 \<or> (\<exists>e. refreshRegistry sampleCml cmCluster reg1 = Returns (e, cs_Registry st')))"
proof -
  have g: "\<forall>e. cl_getConfigMap cmCluster ''obs'' ''a'' \<noteq> GetErr e" by (simp add: cmCluster_def)
  have r: "registry_ok (cs_Registry sampleState)" by (simp add: sampleState_def sampleRegistry_ok)
  have own: "ownContribution sampleCml cmCluster ''obs'' ''a'' = Some (sampleInst ''7'' ''apps'')"
    by (simp add: ownContribution_def cmCluster_def selectorCM_contributes keepLive_def)
      (simp add: hasRules_def instRules_def sampleInst_def)
  have key: "nsName ''obs'' ''a'' = ''obs/a''" by (simp add: nsName_def)
  have old: "lookupInst (cs_Registry sampleState) ''obs/a'' = Some (sampleInst '''' ''apps'')"
    by (simp add: lookupInst_def sampleState_def sampleRegistry_def)
  let ?st' = "sampleState\<lparr>cs_Registry := RegistrySet ''obs/a'' (sampleInst ''7'' ''apps'') sampleRegistry\<rparr>"
  have run: "Reconcile sampleLib sampleCml sampleOrder cmCluster sampleReconciler ''obs'' ''a'' sampleState = Returns ((emptyResult, None), ?st')"
    using sample_pass unfolding key .
  obtain reg1 where "lookupInst reg1 = (lookupInst (cs_Registry sampleState))(''obs/a'' := Some (sampleInst ''7'' ''apps''))"
    "cs_Registry ?st' = reg1 \<or> (\<exists>e. refreshRegistry sampleCml cmCluster reg1 = Returns (e, cs_Registry ?st'))"
    using Reconcile_tracks_ConfigMap [OF run r sampleOrder_ok cmCluster_lists g] unfolding own key by blast
  with run r sampleOrder_ok cmCluster_lists g old
  have "Reconcile sampleLib sampleCml sampleOrder cmCluster sampleReconciler ''obs'' ''a'' sampleState = Returns ((emptyResult, None), ?st')
    \<and> registry_ok (cs_Registry sampleState) \<and> range_ok sampleOrder \<and> lists_ok cmCluster
    \<and> (\<forall>e. cl_getConfigMap cmCluster ''obs'' ''a'' \<noteq> GetErr e)
    \<and> lookupInst (cs_Registry sampleState) ''obs/a'' = Some (sampleInst '''' ''apps'')
    \<and> lookupInst reg1 = (lookupInst (cs_Registry sampleState))(''obs/a'' := Some (sampleInst ''7'' ''apps''))
    \<and> (cs_Registry ?st' = reg1 \<or> (\<exists>e. refreshRegistry sampleCml cmCluster reg1 = Returns (e, cs_Registry ?st')))"
    by (intro conjI)
  then show ?thesis by (intro exI)
qed

lemma snapshotLoop_get:
  assumes "snapshotLoop cml cl cms m = Returns (Inr insts)" "distinct (map cmObjectKey cms)" "gm_ok m"
    "\<forall>cm\<in>set cms. gm_get m (cmObjectKey cm) = None"
  shows "gm_get insts k = Some i \<longleftrightarrow> gm_get m k = Some i \<or> (\<exists>cm\<in>set cms. cmObjectKey cm = k \<and> contributes cml cl cm = Some i)"
  using assms
proof (induction cms arbitrary: m)
  case Nil
  then show ?case by simp
next
  case (Cons cm cms)
  from Cons.prems(1) show ?case
  proof (cases rule: snapshotLoop_Cons)
    case skipped
    with Cons show ?thesis by auto
  next
    case (added inst)
    have "gm_get insts k = Some i \<longleftrightarrow> gm_get (gm_put (cmObjectKey cm) inst m) k = Some i
        \<or> (\<exists>cm\<in>set cms. cmObjectKey cm = k \<and> contributes cml cl cm = Some i)"
      by (rule Cons.IH [OF added(2)]) (use Cons.prems in \<open>auto simp: gomap_simps gm_ok_put rev_image_eqI\<close>)
    with added Cons.prems(4) show ?thesis by (auto simp: gomap_simps)
  qed
qed

lemma refresh_snapshot:
  assumes "refreshRegistry cml cl reg = Returns (None, reg')" "cl_listConfigMaps cl = Inr cms" "distinct (map cmObjectKey cms)"
  shows "lookupInst reg' k = Some i \<longleftrightarrow> hasRules i \<and> (\<exists>cm\<in>set cms. cmObjectKey cm = k \<and> contributes cml cl cm = Some i)"
proof -
  obtain insts where loop: "snapshotLoop cml cl cms [] = Returns (Inr insts)" and reg': "reg' = RegistryReplace insts reg"
    using assms(1,2) by (auto simp: refreshRegistry_def split: goRun.splits sum.splits)
  have "gm_ok insts" by (rule snapshotLoop_ok [OF gm_ok_Nil loop])
  then have "lookupInst reg' k = Some i \<longleftrightarrow> gm_get insts k = Some i \<and> hasRules i"
    by (auto simp: reg' reg.lookup_replace split: option.splits)
  then show ?thesis
    using snapshotLoop_get [OF loop assms(3) gm_ok_Nil] by auto
qed

text \<open>Without any assumption on the list: an entry comes from a ConfigMap of the list or was there.\<close>

lemma snapshotLoop_source:
  assumes "snapshotLoop cml cl cms m = Returns (Inr insts)" "gm_get insts k = Some i"
  shows "gm_get m k = Some i \<or> (\<exists>cm\<in>set cms. cmObjectKey cm = k \<and> contributes cml cl cm = Some i)"
  using assms
proof (induction cms arbitrary: m)
  case (Cons cm cms)
  from Cons.prems(1) show ?case
  proof (cases rule: snapshotLoop_Cons)
    case skipped
    with Cons.IH Cons.prems(2) show ?thesis by fastforce
  next
    case (added inst)
    from Cons.IH [OF added(2) Cons.prems(2)] added(1) show ?thesis by (auto simp: gomap_simps split: if_split_asm)
  qed
qed simp

lemma refresh_source:
  assumes "refreshRegistry cml cl reg = Returns (e, reg')" "lookupInst reg' k = Some i"
  shows "lookupInst reg k = Some i
    \<or> (\<exists>cms. cl_listConfigMaps cl = Inr cms \<and> (\<exists>cm\<in>set cms. cmObjectKey cm = k \<and> contributes cml cl cm = Some i))"
proof (cases "reg' = reg")
  case False
  then obtain cms insts where l: "cl_listConfigMaps cl = Inr cms" "snapshotLoop cml cl cms [] = Returns (Inr insts)"
      "reg' = RegistryReplace insts reg"
    using assms(1) by (auto simp: refreshRegistry_def split: goRun.split_asm sum.split_asm)
  then have "gm_get insts k = Some i"
    using assms(2) snapshotLoop_ok [OF gm_ok_Nil l(2)] by (auto simp: reg.lookup_replace split: option.split_asm if_split_asm)
  with snapshotLoop_source [OF l(2)] l(1) show ?thesis by (fastforce simp: gomap_simps)
qed (use assms(2) in simp)

text \<open>
  The snapshot before a cleanup is complete and exact: a contribution is in the registry
  afterwards if and only if a listed ConfigMap with that key makes it and it has rules,
  whatever the registry held before.
\<close>

theorem refresh_is_snapshot:
  assumes "refreshRegistry cml cl reg = Returns (None, reg')" "cl_listConfigMaps cl = Inr cms" "distinct (map cmObjectKey cms)"
  shows "lookupInst reg' k = Some i \<longleftrightarrow> hasRules i \<and> (\<exists>cm\<in>set cms. cmObjectKey cm = k \<and> contributes cml cl cm = Some i)"
  by (rule refresh_snapshot [OF assms])

theorem refresh_is_snapshot_witness:
  "lookupInst (RegistryReplace [(''obs/a'', sampleInst ''7'' ''apps'')] sampleRegistry) ''obs/a'' = Some (sampleInst ''7'' ''apps'')"
proof -
  have cm: "hasSelectorAnnotation sampleCml (cm_Meta selectorCM)"
    "stateNodeEligible sampleCml cmCluster selectorCM = (True, None)"
    "parseConfigMap sampleCml (cm_Data selectorCM) = Returns (Inr (sampleInst ''7'' ''apps'', []))"
    "cmObjectKey selectorCM = ''obs/a''"
    by (simp_all add: hasSelectorAnnotation_def stateNodeEligible_def parseConfigMap_def sampleCml_def selectorCM_def
        gm_str_def sampleInst_def cmObjectKey_def nsName_def)
  have l: "cl_listConfigMaps cmCluster = Inr [selectorCM]" by (simp add: cmCluster_def)
  have "refreshRegistry sampleCml cmCluster sampleRegistry
      = Returns (None, RegistryReplace [(''obs/a'', sampleInst ''7'' ''apps'')] sampleRegistry)"
    by (simp add: refreshRegistry_def l cm)
  from refresh_is_snapshot [OF this l, of "''obs/a''" "sampleInst ''7'' ''apps''"] show ?thesis
    by (simp add: cm selectorCM_contributes) (simp add: hasRules_def instRules_def sampleInst_def)
qed

text \<open>
  The gates before a sweep: with restarts disabled nothing is patched, refreshed or
  requeued; while the webhook is not ready or its Service cannot be dialled nothing is
  patched or refreshed either, and the pass asks to be run again after two seconds.
\<close>

theorem sweep_gates:
  assumes "sd_NoAutoRestart (cr_DefaultSDKConfig r) \<or> (\<exists>e. cr_WebhookReady r = Some (Some e))
    \<or> (cr_WebhookServiceAddr r \<noteq> '''' \<and> dialWebhookService cl (cr_WebhookServiceAddr r) \<noteq> None)"
  shows "reconcileRollouts lib cml ro cl r targets c st = Returns
    ((\<lparr>rr_RequeueAfter = (if sd_NoAutoRestart (cr_DefaultSDKConfig r) then 0 else 2)\<rparr>, None), st)"
  using assms by (auto simp: reconcileRollouts_def emptyResult_def split: option.splits)

theorem sweep_gates_witness:
  "reconcileRollouts sampleLib sampleCml sampleOrder sampleCluster (sampleReconciler\<lparr>cr_WebhookReady := Some (Some ''not started'')\<rparr>)
      [] True sampleState = Returns ((\<lparr>rr_RequeueAfter = 2\<rparr>, None), sampleState)"
  using sweep_gates [of "sampleReconciler\<lparr>cr_WebhookReady := Some (Some ''not started'')\<rparr>"]
  by (simp add: sampleReconciler_def sampleSDK_def)

lemma eligibleTargets_set: "set (eligibleTargets es) =
    {\<lparr>tc_Namespace = ed_Namespace c, tc_Kind = ed_Kind c, tc_Name = ed_Name c, tc_Language = ed_Language c\<rparr> | c.
      Some c \<in> set es \<and> ed_Namespace c \<noteq> '''' \<and> ed_Kind c \<in> set restartKinds}"
proof -
  have k: "'''' \<notin> set restartKinds" by (simp add: restartKinds_def kind_defs)
  show ?thesis using k by (induction es rule: eligibleTargets.induct) auto
qed

lemma eligibleTargets_sorted:
  "sorted (map eligibleKey es) \<Longrightarrow> sorted (map (\<lambda>t. (tc_Namespace t, tc_Name t)) (eligibleTargets es))"
proof (induction es rule: eligibleTargets.induct)
  case (3 c es)
  then have "\<forall>t\<in>set (eligibleTargets es). eligibleKey (Some c) \<le> (tc_Namespace t, tc_Name t)"
    by (auto simp: eligibleTargets_set eligibleKey_def)
  with 3 show ?case by (auto simp: eligibleKey_def)
qed simp_all

text \<open>Sorting loses and invents nothing.\<close>

definition sortTies_ok :: "'sel cmLib \<Rightarrow> bool" where
  "sortTies_ok cml = (\<forall>es. mset (cml_sortTies cml es) = mset es)"

lemma sortTies_set: "sortTies_ok cml \<Longrightarrow> set (cml_sortTies cml es) = set es"
  unfolding sortTies_ok_def by (metis set_mset_mset)

text \<open>An entry that asks for a restart, and the target it asks for.\<close>

definition validEntry :: "eligibleDeployment \<Rightarrow> bool" where
  "validEntry c = (ed_Namespace c \<noteq> '''' \<and> ed_Kind c \<in> set restartKinds)"

definition askedTarget :: "eligibleDeployment \<Rightarrow> restartCriterion" where
  "askedTarget c = \<lparr>tc_Namespace = ed_Namespace c, tc_Kind = ed_Kind c, tc_Name = ed_Name c, tc_Language = ed_Language c\<rparr>"

lemma eligibleTargets_eq:
  "eligibleTargets es = map (askedTarget \<circ> the) (filter (\<lambda>e. e \<noteq> None \<and> validEntry (the e)) es)"
proof -
  have k: "'''' \<notin> set restartKinds" by (simp add: restartKinds_def kind_defs)
  show ?thesis using k by (induction es rule: eligibleTargets.induct) (auto simp: askedTarget_def validEntry_def)
qed

lemma eligibleTargets_sort:
  assumes "sortTies_ok cml"
  shows "mset (eligibleTargets (sort_key eligibleKey (cml_sortTies cml es))) = mset (eligibleTargets es)"
  using assms by (simp add: eligibleTargets_eq sortTies_ok_def)

text \<open>
  C37. What parsing makes of the two keys. A key whose YAML does not parse is the error of the pass,
  that of the instrumentation first. Otherwise the instrumentation is what its key holds, or
  empty without it, and the restart targets are those entries of the other key that have a
  namespace and one of the four known kinds: each as often as it is listed and no other,
  in the order of namespace and name. It panics, instead of skipping the entry as the loop
  intends, exactly on a null entry in a list of two or more.
\<close>

theorem parse_keeps_valid_targets:
  fixes cml :: "'sel cmLib"
  assumes "sortTies_ok cml"
  shows "case (case gm_get data (cml_KeyInstrumentation cml) of None \<Rightarrow> Inr emptyInjectConfig | Some raw \<Rightarrow> cml_yamlInject cml raw) of
      Inl e \<Rightarrow> parseConfigMap cml data = Returns (Inl (''parse '' @ cml_KeyInstrumentation cml @ '': '' @ e))
    | Inr cfg \<Rightarrow>
       (case (case gm_get data (cml_KeyEligibleForRestart cml) of None \<Rightarrow> Inr [] | Some raw \<Rightarrow> cml_yamlEligible cml raw) of
          Inl e \<Rightarrow> parseConfigMap cml data = Returns (Inl (''parse '' @ cml_KeyEligibleForRestart cml @ '': '' @ e))
        | Inr es \<Rightarrow>
           if length es \<ge> 2 \<and> None \<in> set es then parseConfigMap cml data = Panic
           else \<exists>ts. parseConfigMap cml data = Returns (Inr (\<lparr>InjectConfig = cfg\<rparr>, ts))
             \<and> sorted (map (\<lambda>t. (tc_Namespace t, tc_Name t)) ts)
             \<and> mset ts = image_mset (askedTarget \<circ> the) (filter_mset (\<lambda>e. e \<noteq> None \<and> validEntry (the e)) (mset es)))"
proof -
  have sorts: "sorted (map (\<lambda>t. (tc_Namespace t, tc_Name t)) (eligibleTargets (sort_key eligibleKey (cml_sortTies cml es))))" for es
    by (rule eligibleTargets_sorted) simp
  have same: "mset (eligibleTargets (sort_key eligibleKey (cml_sortTies cml es)))
      = image_mset (askedTarget \<circ> the) (filter_mset (\<lambda>e. e \<noteq> None \<and> validEntry (the e)) (mset es))" for es
    by (simp add: eligibleTargets_sort [OF assms]) (simp add: eligibleTargets_eq)
  show ?thesis
    by (simp add: parseConfigMap_def sortEligible_def sorts same split: option.split sum.split)
qed

text \<open>Three valid entries out of order, two of them the same, and one of an unknown kind.\<close>

definition manyTargets :: "eligibleDeployment option list" where
  "manyTargets = [Some \<lparr>ed_Namespace = ''b'', ed_Kind = ''Deployment'', ed_Name = ''x'', ed_Language = ''''\<rparr>,
     Some \<lparr>ed_Namespace = ''a'', ed_Kind = ''CronJob'', ed_Name = ''y'', ed_Language = ''''\<rparr>,
     Some \<lparr>ed_Namespace = ''a'', ed_Kind = ''DaemonSet'', ed_Name = ''z'', ed_Language = ''''\<rparr>,
     Some \<lparr>ed_Namespace = ''b'', ed_Kind = ''Deployment'', ed_Name = ''x'', ed_Language = ''''\<rparr>]"

theorem parse_keeps_valid_targets_witness:
  "(\<exists>ts. parseConfigMap (sampleCml\<lparr>cml_yamlEligible := \<lambda>_. Inr manyTargets\<rparr>)
        [(''instrumentation.yaml'', ''7''), (''eligible_for_restart.yaml'', '''')] = Returns (Inr (sampleInst ''7'' ''apps'', ts))
      \<and> sorted (map (\<lambda>t. (tc_Namespace t, tc_Name t)) ts)
      \<and> mset ts = {#\<lparr>tc_Namespace = ''b'', tc_Kind = ''Deployment'', tc_Name = ''x'', tc_Language = ''''\<rparr>,
          \<lparr>tc_Namespace = ''a'', tc_Kind = ''DaemonSet'', tc_Name = ''z'', tc_Language = ''''\<rparr>,
          \<lparr>tc_Namespace = ''b'', tc_Kind = ''Deployment'', tc_Name = ''x'', tc_Language = ''''\<rparr>#})
    \<and> parseConfigMap sampleCml [(''eligible_for_restart.yaml'', '''')] = Panic"
proof
  have ok: "sortTies_ok (sampleCml\<lparr>cml_yamlEligible := f\<rparr>)" "sortTies_ok sampleCml" for f
    by (simp_all add: sampleCml_def sortTies_ok_def)
  have k: "validEntry c \<longleftrightarrow> ed_Namespace c \<noteq> '''' \<and> ed_Kind c \<in> {''Deployment'', ''ReplicaSet'', ''StatefulSet'', ''DaemonSet''}" for c
    by (simp add: validEntry_def restartKinds_def kind_defs)
  show "\<exists>ts. parseConfigMap (sampleCml\<lparr>cml_yamlEligible := \<lambda>_. Inr manyTargets\<rparr>)
        [(''instrumentation.yaml'', ''7''), (''eligible_for_restart.yaml'', '''')] = Returns (Inr (sampleInst ''7'' ''apps'', ts))
      \<and> sorted (map (\<lambda>t. (tc_Namespace t, tc_Name t)) ts)
      \<and> mset ts = {#\<lparr>tc_Namespace = ''b'', tc_Kind = ''Deployment'', tc_Name = ''x'', tc_Language = ''''\<rparr>,
          \<lparr>tc_Namespace = ''a'', tc_Kind = ''DaemonSet'', tc_Name = ''z'', tc_Language = ''''\<rparr>,
          \<lparr>tc_Namespace = ''b'', tc_Kind = ''Deployment'', tc_Name = ''x'', tc_Language = ''''\<rparr>#}"
    using parse_keeps_valid_targets [OF ok(1) [of "\<lambda>_. Inr manyTargets"],
        of "[(''instrumentation.yaml'', ''7''), (''eligible_for_restart.yaml'', '''')]"]
    by (simp add: sampleCml_def manyTargets_def k askedTarget_def sampleInst_def)
  show "parseConfigMap sampleCml [(''eligible_for_restart.yaml'', '''')] = Panic"
    using parse_keeps_valid_targets [OF ok(2), of "[(''eligible_for_restart.yaml'', '''')]"]
    by (simp add: sampleCml_def)
qed

text \<open>
  A gap the model exposes: the watch looks at the new object of an update only, so removing
  the annotation from a ConfigMap triggers no reconciliation, although reconciling it would
  drop its rules. They stay in force until a cleanup or a restart.
\<close>

theorem annotation_removal_is_missed:
  assumes "hasSelectorAnnotation cml old" "\<not> hasSelectorAnnotation cml (cm_Meta cm)"
    and "cl_getConfigMap cl ns name = Found cm"
  shows "enqueued cml cl (CMUpdate old (cm_Meta cm)) = []
    \<and> Reconcile lib cml ro cl r ns name st = Returns ((emptyResult, None), forget (nsName ns name) st)"
  using assms by (simp add: ownRequest_def Reconcile_def)

theorem annotation_removal_is_missed_witness:
  "enqueued sampleCml (sampleCluster\<lparr>cl_getConfigMap := \<lambda>_ _. Found (selectorCM\<lparr>cm_Meta := emptyMeta\<rparr>)\<rparr>)
     (CMUpdate (cm_Meta selectorCM) emptyMeta) = []"
  using annotation_removal_is_missed [of sampleCml "cm_Meta selectorCM" "selectorCM\<lparr>cm_Meta := emptyMeta\<rparr>"
      "sampleCluster\<lparr>cl_getConfigMap := \<lambda>_ _. Found (selectorCM\<lparr>cm_Meta := emptyMeta\<rparr>)\<rparr>"]
  by (simp add: hasSelectorAnnotation_def sampleCml_def selectorCM_def emptyMeta_def)

end
