(* ===== verification/SweepProps.thy ===== *)
theory SweepProps
  imports ControllerProps
begin

text \<open>
  The error paths of a sweep and what it counts: a list that fails ends the sweep before any
  patch, a patch that fails does not stop the others, and the restart counter moves by one
  for each workload whose patch went through. Then the events of a node: which requests its
  departure enqueues, and what they do to the registry.
\<close>

section \<open>How a sweep ends\<close>

text \<open>The lists a sweep asks for, and that one of them fails.\<close>

definition unlistable :: "cluster \<Rightarrow> restartCriterion list \<Rightarrow> bool \<Rightarrow> bool" where
  "unlistable cl targets c =
    (if c then \<exists>e. cl_listPods cl = Inl e
     else \<exists>t\<in>set targets. tc_Namespace t \<notin> set protectedNamespaces \<and> (\<exists>e. cl_listPodsIn cl (tc_Namespace t) = Inl e))"

lemma listable:
  "\<not> unlistable cl targets True \<longleftrightarrow> (\<exists>items. cl_listPods cl = Inr items)"
  "\<not> unlistable cl targets False \<longleftrightarrow>
    (\<forall>t\<in>set targets. tc_Namespace t \<notin> set protectedNamespaces \<longrightarrow> (\<exists>items. cl_listPodsIn cl (tc_Namespace t) = Inr items))"
proof -
  have inr: "(\<nexists>e. x = Inl e) \<longleftrightarrow> (\<exists>b. x = Inr b)" for x :: "err + pod list" by (cases x) auto
  show "\<not> unlistable cl targets True \<longleftrightarrow> (\<exists>items. cl_listPods cl = Inr items)"
    unfolding unlistable_def by (simp only: if_True inr)
  show "\<not> unlistable cl targets False \<longleftrightarrow>
    (\<forall>t\<in>set targets. tc_Namespace t \<notin> set protectedNamespaces \<longrightarrow> (\<exists>items. cl_listPodsIn cl (tc_Namespace t) = Inr items))"
    unfolding unlistable_def using inr by (simp only: if_False) blast
qed

lemma collectNamespaces_listed:
  "collectNamespaces f pods_of nss acc = Inr ks \<Longrightarrow> (ns, ts) \<in> set nss \<Longrightarrow> ns \<notin> set protectedNamespaces
    \<Longrightarrow> \<exists>items. pods_of ns = Inr items"
  by (induction nss arbitrary: acc) (auto split: if_splits sum.splits)

lemma targeted_lists:
  assumes "range_ok ro"
  shows "(\<exists>ks. collectNamespaces f (cl_listPodsIn cl) (ro_namespaces ro (groupTargets targets [])) [] = Inr ks)
    \<longleftrightarrow> \<not> unlistable cl targets False"
proof -
  let ?nss = "ro_namespaces ro (groupTargets targets [])"
  have nss: "set ?nss = set (groupTargets targets [])" using range_ok_set [OF assms] by blast
  have "\<exists>items. cl_listPodsIn cl (tc_Namespace t) = Inr items"
    if "collectNamespaces f (cl_listPodsIn cl) ?nss [] = Inr ks" "t \<in> set targets" "tc_Namespace t \<notin> set protectedNamespaces" for ks t
  proof (rule collectNamespaces_listed [OF that(1) _ that(3)])
    show "(tc_Namespace t, filter (\<lambda>t'. tc_Namespace t' = tc_Namespace t) targets) \<in> set ?nss"
      unfolding nss using that(2) by (auto simp: groupTargets_mem filter_empty_conv)
  qed
  moreover have "\<exists>ks. collectNamespaces f (cl_listPodsIn cl) ?nss [] = Inr ks" if "\<not> unlistable cl targets False"
    using that unfolding listable by (intro collectNamespaces_ok) (auto simp: nss groupTargets_mem filter_empty_conv)
  ultimately show ?thesis unfolding listable by blast
qed

lemma rolloutMatching_cases:
  assumes "range_ok ro" "rolloutMatching lib ro cl r targets c st = (e, st')"
  obtains (unlisted) m where "e = Some m" "st' = st" "unlistable cl targets c"
  | (patching) ks where "distinct ks" "\<forall>k\<in>set ks. rollableKind (wk_Kind k)" "\<not> unlistable cl targets c"
      "e = errorsJoin (fst (patchLoop cl (restartPatch (cl_now cl)) (ro_workloads ro ks) st []))"
      "st' = snd (patchLoop cl (restartPatch (cl_now cl)) (ro_workloads ro ks) st [])"
proof (cases c)
  case False
  let ?ns = "collectNamespaces (podRollout lib (cr_DefaultSDKConfig r) (cs_Registry st) (cl_reader cl) False)
        (cl_listPodsIn cl) (ro_namespaces ro (groupTargets targets [])) []"
  note iff = targeted_lists [OF assms(1), of "podRollout lib (cr_DefaultSDKConfig r) (cs_Registry st) (cl_reader cl) False" cl targets]
  show ?thesis
  proof (cases ?ns)
    case (Inl m)
    with iff have "unlistable cl targets c" using False by auto
    with assms False Inl show ?thesis by (intro unlisted [of m]) (simp_all add: targeted_eq)
  next
    case (Inr ks)
    with iff have "\<not> unlistable cl targets c" using False by auto
    with assms False Inr collected_keys [OF Inr] show ?thesis
      by (intro patching [of ks]) (auto simp: targeted_eq case_prod_unfold Let_def)
  qed
next
  case True
  show ?thesis
  proof (cases "cl_listPods cl")
    case (Inl m)
    with assms True show ?thesis by (intro unlisted) (auto simp: rolloutMatching_def unlistable_def)
  next
    case items: (Inr items)
    let ?g = "groupCleanup items [] (groupTargets targets [])"
    let ?po = "\<lambda>ns. Inr (getList (fst ?g) ns) :: err + pod list"
    obtain ks where ks: "collectNamespaces (podRollout lib (cr_DefaultSDKConfig r) (cs_Registry st) (cl_reader cl) True)
        ?po (ro_namespaces ro (snd ?g)) [] = Inr ks"
      using collectNamespaces_ok [of "ro_namespaces ro (snd ?g)" ?po] by auto
    have "\<not> unlistable cl targets c" using True items by (simp add: unlistable_def)
    with assms True items ks collected_keys [OF ks] show ?thesis
      by (intro patching [of ks]) (auto simp: cleanup_eq case_prod_unfold Let_def)
  qed
qed

text \<open>The errors a sweep joins: one for each patch that failed, in the order of the patches.\<close>

definition patchError :: "cluster \<Rightarrow> string \<Rightarrow> workloadKey \<Rightarrow> err option" where
  "patchError cl patch k = (case cl_patch cl k patch of None \<Rightarrow> None
     | Some e \<Rightarrow> Some (''patch '' @ wk_Kind k @ '' '' @ wk_Namespace k @ ''/'' @ wk_Name k @ '': '' @ e))"

lemma patchLoop_errs:
  "\<forall>k\<in>set keys. rollableKind (wk_Kind k) \<Longrightarrow>
    fst (patchLoop cl patch keys st errs) = errs @ List.map_filter (patchError cl patch) keys"
  by (induction keys arbitrary: st errs) (auto simp: patchError_def List.map_filter_simps split: option.split)

lemma patchLoop_no_errs:
  assumes "\<forall>k\<in>set keys. rollableKind (wk_Kind k)"
  shows "errorsJoin (fst (patchLoop cl patch keys st [])) = None \<longleftrightarrow> (\<forall>k\<in>set keys. cl_patch cl k patch = None)"
proof -
  have "patchError cl patch k = None \<longleftrightarrow> cl_patch cl k patch = None" for k
    by (simp add: patchError_def split: option.split)
  then show ?thesis
    unfolding patchLoop_errs [OF assms] errorsJoin_def by (simp add: List.map_filter_def filter_empty_conv)
qed

lemma sweep_all_patched:
  assumes "range_ok ro" "rolloutMatching lib ro cl r targets c st = (None, st')"
    "cs_Patches st' = cs_Patches st @ map (\<lambda>k. (k, restartPatch (cl_now cl))) keys"
  shows "\<forall>k\<in>set keys. cl_patch cl k (restartPatch (cl_now cl)) = None"
  using assms(1,2)
proof (cases rule: rolloutMatching_cases)
  case (patching ks)
  have "sentFor cl st st' (ro_workloads ro ks)"
    unfolding patching(5) by (rule patchLoop_sentFor [OF assms(1) patching(1,2)])
  moreover have "\<forall>k\<in>set (ro_workloads ro ks). cl_patch cl k (restartPatch (cl_now cl)) = None"
    using patchLoop_no_errs [of "ro_workloads ro ks" cl "restartPatch (cl_now cl)" st] patching(2) patching(4) [symmetric]
      range_ok_set [OF assms(1)] by simp
  ultimately show ?thesis using sentFor_keys assms(3) by blast
qed simp

lemma cleanup_no_error:
  assumes "range_ok ro" "cl_listPods cl = Inr items" "\<And>k x. cl_patch cl k x = None"
  shows "fst (rolloutMatching lib ro cl r targets True st) = None"
proof -
  let ?g = "groupCleanup items [] (groupTargets targets [])"
  let ?po = "\<lambda>ns. Inr (getList (fst ?g) ns) :: err + pod list"
  obtain ks where ks: "collectNamespaces (podRollout lib (cr_DefaultSDKConfig r) (cs_Registry st) (cl_reader cl) True)
      ?po (ro_namespaces ro (snd ?g)) [] = Inr ks"
    using collectNamespaces_ok [of "ro_namespaces ro (snd ?g)" ?po] by auto
  then have "\<forall>k\<in>set (ro_workloads ro ks). rollableKind (wk_Kind k)"
    using collected_keys [OF ks] range_ok_set [OF assms(1)] by simp
  from patchLoop_no_errs [OF this, of cl "restartPatch (cl_now cl)" st] assms(3) show ?thesis
    by (simp add: cleanup_eq [OF assms(2)] ks case_prod_unfold Let_def)
qed

text \<open>What a sweep is to restart, read off the pods it lists.\<close>

definition wantedWorkloads :: "'sel beylaLib \<Rightarrow> 'sel registry \<Rightarrow> cluster \<Rightarrow> sdkInject \<Rightarrow> restartCriterion list \<Rightarrow> bool \<Rightarrow> workloadKey set" where
  "wantedWorkloads lib reg cl cfg targets c =
    (if c then (case cl_listPods cl of Inl e \<Rightarrow> {} | Inr items \<Rightarrow> cleanupWorkloads lib reg cl items)
     else targetedWorkloads lib reg cl cfg targets)"

lemma sweep_exact:
  assumes "range_ok ro" "\<not> unlistable cl targets c" "rolloutMatching lib ro cl r targets c st = (e, st')"
  shows "\<exists>keys. sentFor cl st st' keys
    \<and> set keys = wantedWorkloads lib (cs_Registry st) cl (cr_DefaultSDKConfig r) targets c"
proof (cases c)
  case True
  then obtain items where items: "cl_listPods cl = Inr items" using assms(2) listable(1) [of cl targets] by auto
  then show ?thesis
    using cleanup_sweep [OF assms(1) items, of st lib r targets] assms(3) True by (simp add: wantedWorkloads_def)
next
  case False
  then show ?thesis
    using targeted_sweep [OF assms(1), of targets cl st lib r] assms(2,3) listable(2) [of cl targets]
    by (simp add: wantedWorkloads_def)
qed

text \<open>
  C21. A sweep does all it is to do and reports what it did. If a list it needs fails, that of all
  pods for a cleanup, that of an unprotected target namespace otherwise, it returns an error
  and has done nothing at all. Otherwise it sends one patch to each workload that has to be
  restarted, whichever of the patches fail; its error joins the errors of exactly the failed
  ones, in the order they were sent, so that there is none exactly if all went through; and the
  restart counter of a workload moves by one if its patch succeeded in this sweep, and not
  at all otherwise.
\<close>

theorem sweep_reports_what_it_did:
  assumes "range_ok ro" "cs_Metrics st \<noteq> None" "rolloutMatching lib ro cl r targets c st = (e, st')"
  shows "if unlistable cl targets c then e \<noteq> None \<and> st' = st
    else \<exists>keys. distinct keys
      \<and> set keys = wantedWorkloads lib (cs_Registry st) cl (cr_DefaultSDKConfig r) targets c
      \<and> cs_Patches st' = cs_Patches st @ map (\<lambda>k. (k, restartPatch (cl_now cl))) keys
      \<and> cs_Registry st' = cs_Registry st
      \<and> e = errorsJoin (List.map_filter (patchError cl (restartPatch (cl_now cl))) keys)
      \<and> (e = None \<longleftrightarrow> (\<forall>k\<in>set keys. cl_patch cl k (restartPatch (cl_now cl)) = None))
      \<and> (\<forall>key. restartCount (cs_Metrics st') key = restartCount (cs_Metrics st) key
          + (if \<exists>k\<in>set keys. cl_patch cl k (restartPatch (cl_now cl)) = None \<and> key = workloadTuple k then 1 else 0))"
  using assms(1,3)
proof (cases rule: rolloutMatching_cases)
  case (patching ks)
  let ?keys = "ro_workloads ro ks"
  have keys: "distinct ?keys" "\<forall>k\<in>set ?keys. rollableKind (wk_Kind k)"
    using patching(1,2) range_ok_distinct [OF assms(1)] range_ok_set [OF assms(1)] by simp_all
  have sent: "sentFor cl st st' ?keys"
    unfolding patching(5) by (rule patchLoop_sentFor [OF assms(1) patching(1,2)])
  then have patches: "cs_Patches st' = cs_Patches st @ map (\<lambda>k. (k, restartPatch (cl_now cl))) ?keys" "cs_Registry st' = cs_Registry st"
    by (simp_all add: sentFor_def)
  have "set ?keys = wantedWorkloads lib (cs_Registry st) cl (cr_DefaultSDKConfig r) targets c"
    using sweep_exact [OF assms(1) patching(3) assms(3)] sentFor_keys [OF _ patches(1)] by blast
  moreover have "e = errorsJoin (List.map_filter (patchError cl (restartPatch (cl_now cl))) ?keys)"
    unfolding patching(4) patchLoop_errs [OF keys(2)] by simp
  moreover have "e = None \<longleftrightarrow> (\<forall>k\<in>set ?keys. cl_patch cl k (restartPatch (cl_now cl)) = None)"
    unfolding patching(4) by (rule patchLoop_no_errs [OF keys(2)])
  moreover have "\<forall>key. restartCount (cs_Metrics st') key = restartCount (cs_Metrics st) key
      + (if \<exists>k\<in>set ?keys. cl_patch cl k (restartPatch (cl_now cl)) = None \<and> key = workloadTuple k then 1 else 0)"
    unfolding patching(5) using patchLoop_restarts [OF assms(2) keys(2,1)] by blast
  moreover note keys(1) patches
  ultimately have "distinct ?keys
      \<and> set ?keys = wantedWorkloads lib (cs_Registry st) cl (cr_DefaultSDKConfig r) targets c
      \<and> cs_Patches st' = cs_Patches st @ map (\<lambda>k. (k, restartPatch (cl_now cl))) ?keys
      \<and> cs_Registry st' = cs_Registry st
      \<and> e = errorsJoin (List.map_filter (patchError cl (restartPatch (cl_now cl))) ?keys)
      \<and> (e = None \<longleftrightarrow> (\<forall>k\<in>set ?keys. cl_patch cl k (restartPatch (cl_now cl)) = None))
      \<and> (\<forall>key. restartCount (cs_Metrics st') key = restartCount (cs_Metrics st) key
          + (if \<exists>k\<in>set ?keys. cl_patch cl k (restartPatch (cl_now cl)) = None \<and> key = workloadTuple k then 1 else 0))"
    by (intro conjI)
  then show ?thesis unfolding if_not_P [OF patching(3)] by (rule exI)
qed simp

theorem sweep_reports_what_it_did_witness:
  "\<exists>e st'. rolloutMatching sampleLib sampleOrder (goneCluster\<lparr>cl_patch := \<lambda>_ _. Some ''conflict''\<rparr>) sampleReconciler [] True startState
      = (Some e, st')
    \<and> map fst (cs_Patches st') = [\<lparr>wk_Namespace = ''apps'', wk_Kind = ''StatefulSet'', wk_Name = ''db''\<rparr>]
    \<and> (\<forall>key. restartCount (cs_Metrics st') key = restartCount (cs_Metrics startState) key)"
proof -
  let ?cl = "goneCluster\<lparr>cl_patch := \<lambda>_ _. Some ''conflict''\<rparr>"
  let ?db = "\<lparr>wk_Namespace = ''apps'', wk_Kind = ''StatefulSet'', wk_Name = ''db''\<rparr>"
  obtain e st' where run: "rolloutMatching sampleLib sampleOrder ?cl sampleReconciler [] True startState = (e, st')"
    by fastforce
  have l: "cl_listPods ?cl = Inr [leftoverPod]" by (simp add: goneCluster_def)
  have "\<not> unlistable ?cl [] True" by (simp add: unlistable_def l)
  moreover have "wantedWorkloads sampleLib (cs_Registry startState) ?cl (cr_DefaultSDKConfig sampleReconciler) [] True = {?db}"
    using leftover_workload by (simp add: wantedWorkloads_def l cleanupWorkloads_def startState_def)
  moreover have m: "cs_Metrics startState \<noteq> None" by (simp add: startState_def NewSDKInjectionMetrics_def)
  ultimately obtain keys where k: "distinct keys" "set keys = {?db}"
    "cs_Patches st' = cs_Patches startState @ map (\<lambda>k. (k, restartPatch (cl_now ?cl))) keys"
    "e = None \<longleftrightarrow> keys = []" "\<And>key. restartCount (cs_Metrics st') key = restartCount (cs_Metrics startState) key"
    using sweep_reports_what_it_did [OF sampleOrder_ok m run] by auto
  have "length keys = 1" using distinct_card [OF k(1)] by (simp add: k(2))
  with k(2) have "keys = [?db]" by (cases keys) auto
  with k(3,4) obtain m where "map fst (cs_Patches st') = [?db]" "e = Some m" by (auto simp: startState_def)
  with run k(5) show ?thesis by (intro exI [of _ m] exI [of _ st']) simp
qed

section \<open>A node departs\<close>

text \<open>The two events by which a node leaves: it starts terminating, and it is gone.\<close>

definition departure :: "objectMeta \<Rightarrow> watchEvent \<Rightarrow> bool" where
  "departure m ev = (ev = NodeDelete m \<or> (\<exists>old. ev = NodeUpdate old m \<and> om_Name old = om_Name m
     \<and> om_DeletionTimestamp old = None \<and> om_DeletionTimestamp m \<noteq> None))"

text \<open>The work queue hands the requests out one after the other.\<close>

fun drain :: "'sel beylaLib \<Rightarrow> 'sel cmLib \<Rightarrow> rangeOrder \<Rightarrow> cluster \<Rightarrow> configMapReconciler \<Rightarrow> (string \<times> string) list
    \<Rightarrow> 'sel controllerState \<Rightarrow> 'sel controllerState goRun" where
  "drain lib cml ro cl r [] st = Returns st"
| "drain lib cml ro cl r ((ns, name) # reqs) st = (case Reconcile lib cml ro cl r ns name st of
     Panic \<Rightarrow> Panic | Returns (res, st') \<Rightarrow> drain lib cml ro cl r reqs st')"

definition ofNode :: "'sel cmLib \<Rightarrow> string \<Rightarrow> configMap \<Rightarrow> bool" where
  "ofNode cml nodeName cm = (gm_str (om_Annotations (cm_Meta cm)) (cml_SelectorAnnotation cml) = nodeName)"

definition requestOf :: "configMap \<Rightarrow> string \<times> string" where
  "requestOf cm = (om_Namespace (cm_Meta cm), om_Name (cm_Meta cm))"

lemma departure_enqueues:
  assumes "departure m ev" "cl_listConfigMaps cl = Inr cms"
  shows "set (enqueued cml cl ev) = requestOf ` {cm \<in> set cms. ofNode cml (om_Name m) cm}"
  using assms by (auto simp: departure_def configMapsForNode_def nodeUpdateFunc_def requestOf_def ofNode_def)

definition nodeGone :: "cluster \<Rightarrow> string \<Rightarrow> bool" where
  "nodeGone cl n = (case cl_getNode cl n of NotFound \<Rightarrow> True | Found x \<Rightarrow> om_DeletionTimestamp (node_Meta x) \<noteq> None | GetErr e \<Rightarrow> False)"

lemma Reconcile_gone:
  assumes "cl_getConfigMap cl ns name = Found cm" "ofNode cml n cm" "n \<noteq> ''''" "nodeGone cl n"
  shows "Reconcile lib cml ro cl r ns name st = Returns ((emptyResult, None), forget (nsName ns name) st)"
proof -
  have "hasSelectorAnnotation cml (cm_Meta cm)"
    using assms(2,3) by (auto simp: ofNode_def gm_str_def hasSelectorAnnotation_def split: option.splits)
  moreover have "stateNodeEligible cml cl cm = (False, None)"
    using assms(2-4) by (auto simp: stateNodeEligible_def ofNode_def nodeGone_def Let_def split: getResult.split)
  ultimately show ?thesis by (simp add: Reconcile_def assms(1))
qed

lemma drain_gone:
  assumes "n \<noteq> ''''" "nodeGone cl n"
    "\<forall>(ns, name)\<in>set reqs. \<exists>cm. cl_getConfigMap cl ns name = Found cm \<and> ofNode cml n cm"
  shows "drain lib cml ro cl r reqs st = Returns (fold (\<lambda>(ns, name). forget (nsName ns name)) reqs st)"
  using assms(3)
proof (induction reqs arbitrary: st)
  case (Cons q reqs)
  obtain ns name where q: "q = (ns, name)" by (cases q)
  with Cons.prems obtain cm where "cl_getConfigMap cl ns name = Found cm" "ofNode cml n cm" by auto
  from Reconcile_gone [OF this assms(1,2)] Cons q show ?case by simp
qed simp

lemma forget_all:
  "registry_ok (cs_Registry st) \<Longrightarrow> (let st' = fold (\<lambda>(ns, name). forget (nsName ns name)) reqs st in
    registry_ok (cs_Registry st') \<and> cs_Patches st' = cs_Patches st \<and> cs_Metrics st' = cs_Metrics st
    \<and> lookupInst (cs_Registry st') k = (if k \<in> (\<lambda>(ns, name). nsName ns name) ` set reqs then None else lookupInst (cs_Registry st) k))"
proof (induction reqs arbitrary: st)
  case (Cons q reqs)
  obtain ns name where q: "q = (ns, name)" by (cases q)
  from Cons.prems have "registry_ok (cs_Registry (forget (nsName ns name) st))" by (simp add: forget_def reg.invar_del)
  from Cons.IH [OF this] Cons.prems show ?case by (auto simp: q Let_def forget_def reg.lookup_del)
qed simp

text \<open>
  A departed node takes its rules with it: the event enqueues exactly the ConfigMaps whose
  annotation names the node, and once the queue has handed them to the reconciler, the
  registry holds nothing under their keys and everything else as before. It is bookkeeping
  only: no pod is restarted for it.
\<close>

theorem departed_node_is_forgotten:
  assumes "departure m ev" "om_Name m \<noteq> ''''" "nodeGone cl (om_Name m)" "registry_ok (cs_Registry st)"
    and "cl_listConfigMaps cl = Inr cms" "\<forall>cm\<in>set cms. case requestOf cm of (ns, name) \<Rightarrow> cl_getConfigMap cl ns name = Found cm"
  shows "\<exists>st'. drain lib cml ro cl r (enqueued cml cl ev) st = Returns st'
    \<and> cs_Patches st' = cs_Patches st \<and> cs_Metrics st' = cs_Metrics st
    \<and> (\<forall>k. lookupInst (cs_Registry st') k =
        (if \<exists>cm\<in>set cms. ofNode cml (om_Name m) cm \<and> cmObjectKey cm = k then None else lookupInst (cs_Registry st) k))"
proof -
  let ?reqs = "enqueued cml cl ev"
  note reqs = departure_enqueues [OF assms(1,5), of cml]
  have "\<forall>(ns, name)\<in>set ?reqs. \<exists>cm. cl_getConfigMap cl ns name = Found cm \<and> ofNode cml (om_Name m) cm"
    unfolding reqs using assms(6) by auto
  from drain_gone [OF assms(2,3) this, of lib ro r st]
  have run: "drain lib cml ro cl r ?reqs st = Returns (fold (\<lambda>(ns, name). forget (nsName ns name)) ?reqs st)" .
  have "k \<in> (\<lambda>(ns, name). nsName ns name) ` set ?reqs \<longleftrightarrow> (\<exists>cm\<in>set cms. ofNode cml (om_Name m) cm \<and> cmObjectKey cm = k)" for k
    unfolding reqs by (auto simp: requestOf_def cmObjectKey_def)
  with run forget_all [OF assms(4), of ?reqs] show ?thesis by (simp add: Let_def)
qed

theorem departed_node_is_forgotten_witness:
  "\<exists>st'. drain sampleLib sampleCml sampleOrder
      (cmCluster\<lparr>cl_listConfigMaps := Inr [selectorCM\<lparr>cm_Meta := (cm_Meta selectorCM)\<lparr>om_Annotations := [(''beyla.grafana.com/node'', ''n1'')]\<rparr>\<rparr>],
        cl_getConfigMap := \<lambda>_ _. Found (selectorCM\<lparr>cm_Meta := (cm_Meta selectorCM)\<lparr>om_Annotations := [(''beyla.grafana.com/node'', ''n1'')]\<rparr>\<rparr>)\<rparr>)
      sampleReconciler [(''obs'', ''a'')] sampleState = Returns st' \<and> lookupInst (cs_Registry st') ''obs/a'' = None"
proof -
  let ?cm = "selectorCM\<lparr>cm_Meta := (cm_Meta selectorCM)\<lparr>om_Annotations := [(''beyla.grafana.com/node'', ''n1'')]\<rparr>\<rparr>"
  let ?cl = "cmCluster\<lparr>cl_listConfigMaps := Inr [?cm], cl_getConfigMap := \<lambda>_ _. Found ?cm\<rparr>"
  let ?m = "emptyMeta\<lparr>om_Name := ''n1''\<rparr>"
  have d: "departure ?m (NodeDelete ?m)" by (simp add: departure_def)
  have n: "nodeGone ?cl (om_Name ?m)" by (simp add: nodeGone_def cmCluster_def sampleCluster_def)
  have r: "registry_ok (cs_Registry sampleState)" by (simp add: sampleState_def sampleRegistry_ok)
  have o: "ofNode sampleCml ''n1'' ?cm" by (simp add: ofNode_def sampleCml_def gm_str_def)
  have k: "cmObjectKey ?cm = ''obs/a''" by (simp add: cmObjectKey_def selectorCM_def nsName_def)
  have q: "enqueued sampleCml ?cl (NodeDelete ?m) = [(''obs'', ''a'')]"
    by (simp add: configMapsForNode_def) (simp add: sampleCml_def gm_str_def selectorCM_def)
  from departed_node_is_forgotten [OF d _ n r, of "[?cm]" sampleLib sampleCml sampleOrder sampleReconciler] o k
  show ?thesis unfolding q by (auto simp: requestOf_def)
qed

end
