(* ===== verification/Requeue.thy ===== *)
theory Requeue
  imports SweepProps
begin

text \<open>
  A request in the work queue. Controller-runtime's contract for the result of \<open>Reconcile\<close> is
  that an error or a positive \<open>RequeueAfter\<close> puts the request back, to be processed again
  later, and that anything else finishes it. Each processing is a pass at some instant, with
  the answers of the cluster, the state of the webhook server and the map orders of that
  instant. The loop may run forever, so it is a partial function whose value \<open>None\<close> is "does
  not return"; with the state it returns the number of the pass that finished the request.

  \<open>intentOf\<close> is the specification of a pass before the gates: what the ConfigMap asks for, as
  a function of the cluster alone.
\<close>

section \<open>What a ConfigMap asks for\<close>

datatype 'sel intent = Unread err | Crash | Finish "'sel regOp" "err option"
  | Sweep "'sel regOp" "restartCriterion list" bool

definition isCleanup :: "'sel cmLib \<Rightarrow> configMap \<Rightarrow> 'sel instrumentation \<Rightarrow> bool" where
  "isCleanup cml cm inst = (gm_get (cm_Data cm) (cml_KeyInstrumentation cml) \<noteq> None
     \<and> (\<forall>ru\<in>set (instRules inst). isSkip ru))"

definition intentOf :: "'sel cmLib \<Rightarrow> cluster \<Rightarrow> string \<Rightarrow> string \<Rightarrow> 'sel intent" where
  "intentOf cml cl ns name =
    (case cl_getConfigMap cl ns name of
       GetErr e \<Rightarrow> Unread e
     | NotFound \<Rightarrow> Sweep (OpDelete (nsName ns name)) [] True
     | Found cm \<Rightarrow>
        (if \<not> hasSelectorAnnotation cml (cm_Meta cm) then Finish (OpDelete (nsName ns name)) None
         else if stateNodeEligible cml cl cm \<noteq> (True, None)
         then Finish (OpDelete (nsName ns name)) (snd (stateNodeEligible cml cl cm))
         else (case parseConfigMap cml (cm_Data cm) of
             Panic \<Rightarrow> Crash
           | Returns (Inl e) \<Rightarrow> Finish (OpDelete (nsName ns name)) None
           | Returns (Inr (inst, targets)) \<Rightarrow>
              (if \<not> isCleanup cml cm inst \<and> targets = [] then Finish (OpSet (nsName ns name) inst) None
               else Sweep (OpSet (nsName ns name) inst) targets (isCleanup cml cm inst)))))"

definition track :: "'sel regOp \<Rightarrow> 'sel controllerState \<Rightarrow> 'sel controllerState" where
  "track oper st = st\<lparr>cs_Registry := regApply oper (cs_Registry st)\<rparr>"

lemma forget_track: "forget k st = track (OpDelete k) st"
  by (simp add: forget_def track_def)

lemma stateNodeEligible_cases:
  "stateNodeEligible cml cl cm = (True, None) \<or> fst (stateNodeEligible cml cl cm) = False"
  by (auto simp: stateNodeEligible_def Let_def split: getResult.split)

lemma Reconcile_intent:
  "Reconcile lib cml ro cl r ns name st = (case intentOf cml cl ns name of
     Unread e \<Rightarrow> Returns ((emptyResult, Some e), st)
   | Crash \<Rightarrow> Panic
   | Finish oper e \<Rightarrow> Returns ((emptyResult, e), track oper st)
   | Sweep oper targets c \<Rightarrow> reconcileRollouts lib cml ro cl r targets c (track oper st))"
proof (cases "cl_getConfigMap cl ns name")
  case (Found cm)
  show ?thesis
  proof (cases "hasSelectorAnnotation cml (cm_Meta cm) \<and> stateNodeEligible cml cl cm = (True, None)")
    case False
    then show ?thesis
      using stateNodeEligible_cases [of cml cl cm]
      by (cases "stateNodeEligible cml cl cm") (auto simp: Reconcile_def intentOf_def Found forget_track)
  next
    case True
    show ?thesis
    proof (cases "parseConfigMap cml (cm_Data cm)")
      case Panic
      with True Found show ?thesis by (simp add: Reconcile_def intentOf_def)
    next
      case (Returns x)
      show ?thesis
      proof (cases x)
        case (Inl e)
        with True Found Returns show ?thesis by (simp add: Reconcile_def intentOf_def forget_track)
      next
        case (Inr it)
        obtain inst ts where it: "it = (inst, ts)" by (cases it)
        have c: "(gm_get (cm_Data cm) (cml_KeyInstrumentation cml) \<noteq> None
            \<and> \<not> list_ex (\<lambda>rule. rc_Mode (rule_Config rule) \<noteq> ModeSkip) (ic_Rules (InjectConfig inst)))
            = isCleanup cml cm inst"
          by (simp add: isCleanup_def isSkip_def instRules_def list_ex_iff)
        show ?thesis
          unfolding Reconcile_def intentOf_def Found getResult.case Let_def Returns Inr it
          using True by (simp only: goRun.case sum.case prod.case c) (simp add: track_def)
      qed
    qed
  qed
qed (simp_all add: Reconcile_def intentOf_def forget_track)

section \<open>The gates\<close>

definition gateClosed :: "configMapReconciler \<Rightarrow> cluster \<Rightarrow> bool" where
  "gateClosed r cl = ((\<exists>e. cr_WebhookReady r = Some (Some e))
     \<or> (cr_WebhookServiceAddr r \<noteq> '''' \<and> dialWebhookService cl (cr_WebhookServiceAddr r) \<noteq> None))"

lemma gate_defers:
  "gateClosed r cl \<Longrightarrow> \<not> sd_NoAutoRestart (cr_DefaultSDKConfig r) \<Longrightarrow>
    reconcileRollouts lib cml ro cl r targets c st = Returns ((\<lparr>rr_RequeueAfter = 2\<rparr>, None), st)"
  by (auto simp: gateClosed_def reconcileRollouts_def split: option.splits)

lemma gate_passes:
  assumes "\<not> gateClosed r cl" "reconcileRollouts lib cml ro cl r targets c st = Returns ((res, e), st')"
  shows "res = emptyResult"
  using assms unfolding reconcileRollouts_def
  by (auto simp: gateClosed_def Let_def split: if_split_asm option.split_asm goRun.split_asm prod.split_asm)

section \<open>Processing a request until it is finished\<close>

record instant =
  in_Order :: rangeOrder
  in_Cluster :: cluster
  in_Reconciler :: configMapReconciler

definition passAt :: "'sel beylaLib \<Rightarrow> 'sel cmLib \<Rightarrow> instant \<Rightarrow> string \<Rightarrow> string \<Rightarrow> 'sel controllerState
    \<Rightarrow> ((ctrlResult \<times> err option) \<times> 'sel controllerState) goRun" where
  "passAt lib cml i ns name st = Reconcile lib cml (in_Order i) (in_Cluster i) (in_Reconciler i) ns name st"

partial_function (option) processRequest :: "'sel beylaLib \<Rightarrow> 'sel cmLib \<Rightarrow> (nat \<Rightarrow> instant) \<Rightarrow> string \<Rightarrow> string
    \<Rightarrow> nat \<Rightarrow> 'sel controllerState \<Rightarrow> (nat \<times> 'sel controllerState goRun) option" where
  "processRequest lib cml at ns name n st =
    (case passAt lib cml (at n) ns name st of
       Panic \<Rightarrow> Some (n, Panic)
     | Returns ((res, e), st') \<Rightarrow>
        (if e \<noteq> None \<or> rr_RequeueAfter res > 0 then processRequest lib cml at ns name (Suc n) st'
         else Some (n, Returns st')))"

lemma regApply_twice: "regApply oper (regApply oper r) = regApply oper r" if "\<And>m. oper \<noteq> OpReplace m"
proof -
  have "gm_put k i (gm_put k i m) = gm_put k i m" for k i and m :: "'a instrumentation gomap"
    by (induction m) auto
  with that show ?thesis by (cases oper) (auto simp: RegistrySet_def RegistryDelete_def delete_idem)
qed

lemma intent_no_replace: "intentOf cml cl ns name = Sweep oper targets c \<Longrightarrow> \<forall>m. oper \<noteq> OpReplace m"
  by (auto simp: intentOf_def split: getResult.splits goRun.splits sum.splits if_splits)

lemma track_twice: "intentOf cml cl ns name = Sweep oper targets c \<Longrightarrow> track oper (track oper st) = track oper st"
  by (drule intent_no_replace) (simp add: track_def regApply_twice)

text \<open>An instant at which the request is put back without an effect of its own.\<close>

definition deferring :: "'sel cmLib \<Rightarrow> 'sel intent \<Rightarrow> string \<Rightarrow> string \<Rightarrow> instant \<Rightarrow> bool" where
  "deferring cml i ns name t = (\<not> sd_NoAutoRestart (cr_DefaultSDKConfig (in_Reconciler t))
     \<and> ((\<exists>e. intentOf cml (in_Cluster t) ns name = Unread e)
       \<or> (intentOf cml (in_Cluster t) ns name = i \<and> gateClosed (in_Reconciler t) (in_Cluster t))))"

lemma deferring_pass:
  assumes "deferring cml (Sweep oper targets c) ns name t" "st \<in> {st0, track oper st0}"
  obtains res e st' where "passAt lib cml t ns name st = Returns ((res, e), st')"
    "e \<noteq> None \<or> rr_RequeueAfter res > 0" "st' \<in> {st0, track oper st0}"
proof -
  from assms(1) consider (unread) e where "intentOf cml (in_Cluster t) ns name = Unread e"
    | (closed) "intentOf cml (in_Cluster t) ns name = Sweep oper targets c" "gateClosed (in_Reconciler t) (in_Cluster t)"
        "\<not> sd_NoAutoRestart (cr_DefaultSDKConfig (in_Reconciler t))"
    by (auto simp: deferring_def)
  then show ?thesis
  proof cases
    case unread
    then have "passAt lib cml t ns name st = Returns ((emptyResult, Some e), st)"
      by (simp add: passAt_def Reconcile_intent)
    then show ?thesis using that assms(2) by blast
  next
    case closed
    then have "track oper st = track oper st0" using assms(2) track_twice [OF closed(1)] by auto
    then have "passAt lib cml t ns name st = Returns ((\<lparr>rr_RequeueAfter = 2\<rparr>, None), track oper st0)"
      by (simp add: passAt_def Reconcile_intent closed(1) gate_defers [OF closed(2,3)])
    then show ?thesis using that [of "\<lparr>rr_RequeueAfter = 2\<rparr>" None "track oper st0"] by simp
  qed
qed

lemma deferring_step:
  assumes "deferring cml (Sweep oper targets c) ns name (at n)" "st \<in> {st0, track oper st0}"
  shows "\<exists>st'\<in>{st0, track oper st0}. processRequest lib cml at ns name n st = processRequest lib cml at ns name (Suc n) st'"
proof -
  from deferring_pass [OF assms, of lib] obtain res e st' where
    "passAt lib cml (at n) ns name st = Returns ((res, e), st')" "e \<noteq> None \<or> rr_RequeueAfter res > 0"
    "st' \<in> {st0, track oper st0}" .
  then show ?thesis by (subst processRequest.simps) auto
qed

lemma deferring_run:
  assumes "\<forall>i<k. deferring cml (Sweep oper targets c) ns name (at i)"
  shows "\<exists>st'\<in>{st0, track oper st0}. processRequest lib cml at ns name 0 st0 = processRequest lib cml at ns name k st'"
  using assms
proof (induction k)
  case (Suc k)
  then obtain st' where st': "st' \<in> {st0, track oper st0}"
    "processRequest lib cml at ns name 0 st0 = processRequest lib cml at ns name k st'" by auto
  from deferring_step [where at = at and n = k, OF _ st'(1)] Suc.prems st'(2) show ?case by fastforce
qed simp

section \<open>Properties\<close>

text \<open>
  C19. No sweep is lost: however often a request is put back because the ConfigMap could not be
  read or the webhook was not reachable, the first instant at which both work finishes it,
  with the result one single pass at that instant would have had; nothing that happened in
  the deferred passes shows.
\<close>

theorem deferred_sweep_runs:
  assumes "\<forall>i<k. deferring cml (Sweep oper targets c) ns name (at i)"
    and "intentOf cml (in_Cluster (at k)) ns name = Sweep oper targets c"
    and "\<not> gateClosed (in_Reconciler (at k)) (in_Cluster (at k))"
    and "passAt lib cml (at k) ns name st = Returns ((res, None), st')"
  shows "processRequest lib cml at ns name 0 st = Some (k, Returns st')"
proof -
  obtain st1 where st1: "st1 \<in> {st, track oper st}"
    "processRequest lib cml at ns name 0 st = processRequest lib cml at ns name k st1"
    using deferring_run [OF assms(1), of st lib] by blast
  have "passAt lib cml (at k) ns name st1 = passAt lib cml (at k) ns name st"
    using st1(1) track_twice [OF assms(2)] by (auto simp: passAt_def Reconcile_intent assms(2))
  moreover have "res = emptyResult"
    using gate_passes [OF assms(3)] assms(4) by (auto simp: passAt_def Reconcile_intent assms(2))
  ultimately show ?thesis
    unfolding st1(2) by (subst processRequest.simps) (simp add: assms(4) emptyResult_def)
qed

text \<open>While every instant defers, no unfolding of the loop ever returns.\<close>

lemma deferring_never:
  assumes "processRequest lib cml at ns name n st1 = Some y"
  shows "(\<forall>i. deferring cml (Sweep oper targets c) ns name (at i)) \<and> st1 \<in> {st, track oper st} \<longrightarrow> False"
proof (rule processRequest.raw_induct [where P = "\<lambda>lib cml at ns name n st1 y.
    (\<forall>i. deferring cml (Sweep oper targets c) ns name (at i)) \<and> st1 \<in> {st, track oper st} \<longrightarrow> False", OF _ assms], rule impI, elim conjE)
  fix proc lib cml at ns name n st1 y
  assume IH: "\<And>lib cml at ns name n st1 y. proc lib cml at ns name n st1 = Some y \<Longrightarrow>
      (\<forall>i. deferring cml (Sweep oper targets c) ns name (at i)) \<and> st1 \<in> {st, track oper st} \<longrightarrow> False"
    and run: "(case passAt lib cml (at n) ns name st1 of Panic \<Rightarrow> Some (n, Panic)
      | Returns ((res, e), st') \<Rightarrow> if e \<noteq> None \<or> rr_RequeueAfter res > 0 then proc lib cml at ns name (Suc n) st'
          else Some (n, Returns st')) = Some y"
    and all: "\<forall>i. deferring cml (Sweep oper targets c) ns name (at i)" and st1: "st1 \<in> {st, track oper st}"
  from all have "deferring cml (Sweep oper targets c) ns name (at n)" ..
  then obtain res e st' where p: "passAt lib cml (at n) ns name st1 = Returns ((res, e), st')"
    "e \<noteq> None \<or> rr_RequeueAfter res > 0" and st': "st' \<in> {st, track oper st}"
    using st1 by (rule deferring_pass)
  then have "proc lib cml at ns name (Suc n) st' = Some y" using run by (simp add: p)
  from IH [OF this] all st' show False by blast
qed

text \<open>
  The price of the gate: if the webhook server never becomes ready, a request that wants a
  sweep is put back forever; it is never finished and never sweeps. (This is why a start
  with the webhooks disabled must not set the gate, see \<open>startup_never_blocks_sweeps\<close>.)
\<close>

theorem unready_webhook_blocks_forever:
  assumes "\<forall>i. deferring cml (Sweep oper targets c) ns name (at i)"
  shows "processRequest lib cml at ns name 0 st = None"
  using deferring_never [of lib cml at ns name 0 st _ oper targets c st] assms
  by (cases "processRequest lib cml at ns name 0 st") auto


theorem unready_webhook_blocks_forever_witness:
  "processRequest sampleLib sampleCml (\<lambda>_. \<lparr>in_Order = sampleOrder, in_Cluster = goneCluster,
      in_Reconciler = sampleReconciler\<lparr>cr_WebhookReady := Some (Some ''not started'')\<rparr>\<rparr>) ''obs'' ''a'' 0 startState = None"
proof -
  have "intentOf sampleCml goneCluster ''obs'' ''a'' = Sweep (OpDelete (nsName ''obs'' ''a'')) [] True"
    by (simp add: intentOf_def goneCluster_def sampleCluster_def)
  then have "deferring sampleCml (Sweep (OpDelete (nsName ''obs'' ''a'')) [] True) ''obs'' ''a''
      \<lparr>in_Order = sampleOrder, in_Cluster = goneCluster,
        in_Reconciler = sampleReconciler\<lparr>cr_WebhookReady := Some (Some ''not started'')\<rparr>\<rparr>"
    by (simp add: deferring_def gateClosed_def sampleReconciler_def sampleSDK_def)
  then show ?thesis by (intro unready_webhook_blocks_forever) blast
qed

text \<open>The webhook server comes up after the first pass.\<close>

definition laterReady :: "nat \<Rightarrow> instant" where
  "laterReady n = \<lparr>in_Order = sampleOrder, in_Cluster = goneCluster, in_Reconciler =
     sampleReconciler\<lparr>cr_WebhookReady := Some (if n = 0 then Some ''not started'' else None)\<rparr>\<rparr>"

theorem deferred_sweep_runs_witness:
  "\<exists>st'. processRequest sampleLib sampleCml laterReady ''obs'' ''a'' 0 startState = Some (1, Returns st') \<and> cs_Patches st' \<noteq> []"
proof -
  let ?i = "Sweep (OpDelete (nsName ''obs'' ''a'')) [] True :: string intent"
  let ?st = "track (OpDelete (nsName ''obs'' ''a'')) startState"
  let ?st1 = "?st\<lparr>cs_Registry := RegistryNew\<rparr>"
  let ?r = "sampleReconciler\<lparr>cr_WebhookReady := Some None\<rparr>"
  have i: "intentOf sampleCml (in_Cluster (laterReady n)) ''obs'' ''a'' = ?i" for n
    by (simp add: laterReady_def intentOf_def goneCluster_def sampleCluster_def)
  have d: "\<forall>n<1. deferring sampleCml ?i ''obs'' ''a'' (laterReady n)"
    by (simp add: deferring_def i) (simp add: gateClosed_def laterReady_def sampleReconciler_def sampleSDK_def)
  have g: "\<not> gateClosed (in_Reconciler (laterReady 1)) (in_Cluster (laterReady 1))"
    by (simp add: gateClosed_def laterReady_def sampleReconciler_def)
  have l: "cl_listPods goneCluster = Inr [leftoverPod]" "cl_listConfigMaps goneCluster = Inr []"
    "\<And>k x. cl_patch goneCluster k x = None" by (simp_all add: goneCluster_def sampleCluster_def)
  obtain st' where run: "rolloutMatching sampleLib sampleOrder goneCluster ?r [] True ?st1 = (None, st')"
    using cleanup_no_error [OF sampleOrder_ok l(1,3), of sampleLib ?r "[]" ?st1]
    by (cases "rolloutMatching sampleLib sampleOrder goneCluster ?r [] True ?st1") auto
  have reg: "RegistryReplace [] x = RegistryNew" for x :: "string registry"
    by (simp add: RegistryReplace_def RegistryNew_def)
  have "passAt sampleLib sampleCml (laterReady 1) ''obs'' ''a'' startState = Returns ((emptyResult, None), st')"
    unfolding passAt_def Reconcile_intent i
    using run by (simp add: reconcileRollouts_def laterReady_def refreshRegistry_def l reg sampleReconciler_def sampleSDK_def)
  from deferred_sweep_runs [OF d i g this] have "processRequest sampleLib sampleCml laterReady ''obs'' ''a'' 0 startState
      = Some (1, Returns st')" .
  moreover have "cs_Patches st' \<noteq> []"
  proof -
    from cleanup_sweep [OF sampleOrder_ok l(1), of ?st1 sampleLib ?r "[]"] obtain keys where
      k: "sentFor goneCluster ?st1 st' keys" "set keys = cleanupWorkloads sampleLib (cs_Registry ?st1) goneCluster [leftoverPod]"
      unfolding run snd_conv by blast
    have "cs_Registry ?st1 = RegistryNew" by simp
    then have "keys \<noteq> []" using k(2) leftover_workload by (metis empty_iff empty_set insertI1)
    with k(1) show ?thesis by (simp only: sentFor_def) simp
  qed
  ultimately show ?thesis by blast
qed

end
