(* ===== verification/Rollout.thy ===== *)
theory Rollout
  imports ControllerProps
begin

text \<open>
  What becomes of a sweep: the patched workloads replace their pods through the admission
  webhook. The workload controllers of Kubernetes are not part of the program; what the
  program relies on is their documented behaviour: a workload whose pod template changed
  replaces, one by one and in any order, every pod that was created from another template;
  the replacement belongs to the same workload and, coming from the template, does not carry
  the injector's annotation (\<open>recreates\<close>). The changing part of the template is the marker
  that the sweep patches into it, so a pod is remembered with the marker it was created
  under.

  The lemmas show that replacing pods comes to an end after exactly one step per outdated pod,
  that it never gets stuck, and that the sweep which caused it finds nothing more to do.
\<close>

section \<open>Pods and markers\<close>

record world =
  wd_Pods :: "(string \<times> pod) list"
  wd_Marker :: "workloadKey \<Rightarrow> string"

definition stale :: "(pod \<Rightarrow> workloadKey) \<Rightarrow> world \<Rightarrow> string \<times> pod \<Rightarrow> bool" where
  "stale workload w e = (fst e \<noteq> wd_Marker w (workload (snd e)))"

definition staleCount :: "(pod \<Rightarrow> workloadKey) \<Rightarrow> world \<Rightarrow> nat" where
  "staleCount workload w = length (filter (stale workload w) (wd_Pods w))"

lemma stale_pods: "stale workload (w\<lparr>wd_Pods := ps\<rparr>) = stale workload w"
  by (simp add: stale_def fun_eq_iff)

text \<open>One stale pod is replaced: the new one is submitted and admitted, and belongs to the current template.\<close>

inductive podReplace :: "(pod \<Rightarrow> workloadKey) \<Rightarrow> (pod \<Rightarrow> 'm \<Rightarrow> (pod \<times> 'm) goRun) \<Rightarrow> (pod \<Rightarrow> pod)
    \<Rightarrow> world \<times> 'm \<Rightarrow> world \<times> 'm \<Rightarrow> bool"
  for workload admit fresh where
  replace: "wd_Pods w = before @ e # after \<Longrightarrow> stale workload w e \<Longrightarrow> admit (fresh (snd e)) m = Returns (p', m')
    \<Longrightarrow> podReplace workload admit fresh (w, m)
      (w\<lparr>wd_Pods := before @ (wd_Marker w (workload (snd e)), p') # after\<rparr>, m')"

inductive_cases podReplaceE: "podReplace workload admit fresh (w, m) s"

section \<open>What the workload controllers rely on\<close>

text \<open>
  The contract of an admission, as those see it who submit pods: every pod is answered, it
  stays with its workload, and a raw pod comes back as one that is quiet.
\<close>

definition renews :: "(pod \<Rightarrow> workloadKey) \<Rightarrow> (pod \<Rightarrow> bool) \<Rightarrow> (pod \<Rightarrow> pod) \<Rightarrow> bool" where
  "renews workload raw fresh = (\<forall>p. workload (fresh p) = workload p \<and> raw (fresh p))"

locale pod_admission =
  fixes workload :: "pod \<Rightarrow> workloadKey"
    and admit :: "pod \<Rightarrow> 'm \<Rightarrow> (pod \<times> 'm) goRun"
    and raw :: "pod \<Rightarrow> bool"
    and quiet :: "pod \<Rightarrow> bool"
  assumes answers_all: "\<exists>p' m'. admit p m = Returns (p', m')"
    and keeps_workload: "admit p m = Returns (p', m') \<Longrightarrow> workload p' = workload p"
    and quietens: "raw p \<Longrightarrow> admit p m = Returns (p', m') \<Longrightarrow> quiet p'"
begin

text \<open>Replacing pods comes to an end, one step per stale pod, and never gets stuck.\<close>

lemma count:
  assumes "renews workload raw fresh" "podReplace workload admit fresh s s'"
  shows "staleCount workload (fst s) = Suc (staleCount workload (fst s'))"
  using assms(2)
proof cases
  case (replace w before e "after" m p' m')
  have "workload p' = workload (snd e)"
    using keeps_workload [OF replace(5)] assms(1) by (simp add: renews_def)
  with replace show ?thesis by (simp add: staleCount_def stale_pods) (simp add: stale_def)
qed

lemma progress:
  assumes "staleCount workload w > 0"
  shows "\<exists>s'. podReplace workload admit fresh (w, m) s'"
proof -
  from assms obtain e where e: "e \<in> set (wd_Pods w)" "stale workload w e"
    by (auto simp: staleCount_def filter_empty_conv)
  then obtain before "after" where split: "wd_Pods w = before @ e # after" by (meson split_list)
  obtain p' m' where "admit (fresh (snd e)) m = Returns (p', m')" using answers_all by blast
  then show ?thesis
    using podReplace.replace [where workload = workload and admit = admit and fresh = fresh, OF split e(2)] by blast
qed

lemma runs:
  assumes "renews workload raw fresh" "(podReplace workload admit fresh ^^ n) s s'"
  shows "staleCount workload (fst s) = n + staleCount workload (fst s')"
  using assms(2)
proof (induction n arbitrary: s')
  case (Suc n)
  then obtain s1 where "(podReplace workload admit fresh ^^ n) s s1" "podReplace workload admit fresh s1 s'" by auto
  with Suc.IH count [OF assms(1)] show ?case by fastforce
qed simp

lemma completes:
  assumes "renews workload raw fresh"
  shows "\<exists>s'. (podReplace workload admit fresh)\<^sup>*\<^sup>* (w, m) s' \<and> staleCount workload (fst s') = 0"
proof (induction "staleCount workload w" arbitrary: w m)
  case 0
  then show ?case by (metis fst_conv rtranclp.rtrancl_refl)
next
  case (Suc n)
  then obtain s1 where s1: "podReplace workload admit fresh (w, m) s1"
    using progress by (metis zero_less_Suc)
  obtain w1 m1 where w1: "s1 = (w1, m1)" by (cases s1)
  have "n = staleCount workload w1" using count [OF assms s1] Suc.hyps(2) by (simp add: w1)
  from Suc.hyps(1) [OF this, of m1] s1 w1 show ?case by (meson converse_rtranclp_into_rtranclp)
qed

lemma terminates:
  assumes "renews workload raw fresh"
  shows "wfp (podReplace workload admit fresh)\<inverse>\<inverse>"
proof -
  have "wfp (\<lambda>s' s. staleCount workload (fst s') < staleCount workload (fst (s :: world \<times> 'm)))"
    by (simp add: wfp_if_convertible_to_nat [where f = "\<lambda>s. staleCount workload (fst s)"])
  then show ?thesis by (rule wfp_subset) (use count [OF assms] in fastforce)
qed

lemma stuck:
  assumes "renews workload raw fresh"
  shows "(\<nexists>s'. podReplace workload admit fresh s s') \<longleftrightarrow> staleCount workload (fst s) = 0"
  using count [OF assms] progress [of "fst s" fresh "snd s"]
  by (cases s) (metis Zero_not_Suc fst_conv gr0I snd_conv)

text \<open>A pod that was replaced is quiet, and the markers stay what they were.\<close>

lemma replaced_quiet:
  assumes "renews workload raw fresh" "(podReplace workload admit fresh)\<^sup>*\<^sup>* s s'"
  shows "wd_Marker (fst s') = wd_Marker (fst s)
    \<and> (\<forall>e\<in>set (wd_Pods (fst s')). e \<in> set (wd_Pods (fst s)) \<or> quiet (snd e))"
  using assms(2)
proof (induction rule: rtranclp_induct)
  case (step s1 s2)
  from step.hyps(2) show ?case
  proof cases
    case (replace w before e "after" m p' m')
    have "raw (fresh (snd e))" using assms(1) by (simp add: renews_def)
    from quietens [OF this replace(5)] step.IH replace show ?thesis by auto
  qed
qed simp

end

section \<open>Replacing pods through the webhook\<close>

definition workloadOf :: "reader \<Rightarrow> pod \<Rightarrow> workloadKey" where
  "workloadOf rd p = resolveWorkload (Resolve rd p)"

abbreviation outdated :: "reader \<Rightarrow> world \<Rightarrow> string \<times> pod \<Rightarrow> bool" where
  "outdated rd \<equiv> stale (workloadOf rd)"

abbreviation outdatedCount :: "reader \<Rightarrow> world \<Rightarrow> nat" where
  "outdatedCount rd \<equiv> staleCount (workloadOf rd)"

abbreviation replaceStep :: "'sel beylaLib \<Rightarrow> mutatorDeps \<Rightarrow> ('sel, 'm) podCustomDefaulter \<Rightarrow> (pod \<Rightarrow> pod)
    \<Rightarrow> world \<times> 'm \<Rightarrow> world \<times> 'm \<Rightarrow> bool" where
  "replaceStep lib deps d fresh \<equiv> podReplace (workloadOf (pcd_Reader d)) (Default lib deps d) fresh"

definition recreates :: "reader \<Rightarrow> (pod \<Rightarrow> pod) \<Rightarrow> bool" where
  "recreates rd fresh = renews (workloadOf rd) (\<lambda>p. \<not> IsInstrumented (pod_Meta p)) fresh"

text \<open>The patches of one sweep change the templates they reach.\<close>

definition patched :: "cluster \<Rightarrow> workloadKey list \<Rightarrow> world \<Rightarrow> world" where
  "patched cl keys w = w\<lparr>wd_Marker := \<lambda>k. if k \<in> set keys \<and> cl_patch cl k (restartPatch (cl_now cl)) = None
     then restartPatch (cl_now cl) else wd_Marker w k\<rparr>"

text \<open>The answers of the API about such a world.\<close>

definition serves :: "reader \<Rightarrow> world \<Rightarrow> cluster \<Rightarrow> bool" where
  "serves rd w cl = (cl_reader cl = rd \<and> cl_listPods cl = Inr (map snd (wd_Pods w))
     \<and> (\<forall>ns. cl_listPodsIn cl ns = Inr (filter (\<lambda>p. om_Namespace (pod_Meta p) = ns) (map snd (wd_Pods w)))))"

section \<open>Admission keeps the workload and settles the pod\<close>

lemma workloadOf_injected: "workloadOf rd (injectedPod lib deps rule cfg skip p) = workloadOf rd p"
  by (simp add: workloadOf_def resolveWorkload_def Resolve_chain_injected injectedPod_meta split: option.split)

lemma workloadOf_admitted:
  assumes "pcd_Mutator d = Some pm" "Default lib deps d p m = Returns (p', m')"
  shows "workloadOf rd p' = workloadOf rd p"
proof -
  have "p' = carryOut lib deps (spanSkip lib d p) (decision lib (pcd_Registry d) (pcd_Reader d) (pm_Cfg pm) p) p"
    using assms(2) by (simp add: Default_decision [where lib = lib, OF assms(1)])
  then show ?thesis
    by (cases "decision lib (pcd_Registry d) (pcd_Reader d) (pm_Cfg pm) p") (simp_all add: workloadOf_injected)
qed

text \<open>A pod the sweep leaves alone, in either mode and whatever the targets.\<close>

definition settled :: "'sel beylaLib \<Rightarrow> 'sel registry \<Rightarrow> sdkInject \<Rightarrow> reader \<Rightarrow> pod \<Rightarrow> bool" where
  "settled lib reg cfg rd p = (\<forall>c ts. podRollout lib cfg reg rd c ts p = None)"

lemma admitted_pod_settled:
  fixes lib :: "'sel beylaLib" and d :: "('sel, 'm) podCustomDefaulter"
  assumes "ignoresInjected (bl_match lib)" "pcd_Mutator d = Some pm" "\<not> IsInstrumented (pod_Meta p)"
    "Default lib deps d p m = Returns (p', m')"
  shows "settled lib (pcd_Registry d) (pm_Cfg pm) (pcd_Reader d) p'"
  unfolding settled_def
proof (intro allI)
  fix c targets
  let ?dec = "decision lib (pcd_Registry d) (pcd_Reader d) (pm_Cfg pm)"
  have p': "p' = carryOut lib deps (spanSkip lib d p) (?dec p) p"
    using assms(4) Default_decision [where lib = lib, OF assms(2)] by simp
  have "\<not> needsRollout lib (pcd_Registry d) (pcd_Reader d) (pm_Cfg pm) p'
      \<and> \<not> (IsInstrumented (pod_Meta p') \<and> Match (bl_match lib) (pcd_Registry d) (Resolve (pcd_Reader d) p') = None)"
  proof (cases "?dec p")
    case (Inject ru eff)
    then have "Match (bl_match lib) (pcd_Registry d) (Resolve (pcd_Reader d) p) \<noteq> None"
      using decision_InjectD [OF Inject] by auto
    with Inject show ?thesis
      by (simp add: p' needsRollout_def decision_injected [OF assms(1)] Match_injected [OF assms(1)])
  qed (use assms(3) in \<open>simp_all add: p' needsRollout_def\<close>)
  then have "podRollout lib (pm_Cfg pm) (pcd_Registry d) (pcd_Reader d) c targets p' \<noteq> Some k" for k
    by (cases c) (auto simp: podRollout_targeted podRollout_cleanup)
  then show "podRollout lib (pm_Cfg pm) (pcd_Registry d) (pcd_Reader d) c targets p' = None"
    by (cases "podRollout lib (pm_Cfg pm) (pcd_Registry d) (pcd_Reader d) c targets p'") auto
qed

section \<open>The webhook meets the contract\<close>

lemma Default_admission:
  assumes "pcd_Mutator d = Some pm"
  shows "pod_admission (workloadOf rd) (Default lib deps d) (\<lambda>p. \<not> IsInstrumented (pod_Meta p))
    (\<lambda>p. ignoresInjected (bl_match lib) \<longrightarrow> settled lib (pcd_Registry d) (pm_Cfg pm) (pcd_Reader d) p)"
proof
  show "\<exists>p' m'. Default lib deps d p m = Returns (p', m')" for p m
    using Default_decision [where lib = lib, OF assms] by blast
qed (use workloadOf_admitted [OF assms] admitted_pod_settled [OF _ assms] in blast)+

lemmas Default_replacing = pod_admission.terminates [OF Default_admission] pod_admission.runs [OF Default_admission]
  pod_admission.stuck [OF Default_admission]

text \<open>
  Rollouts end: replacing the outdated pods of any world through the webhook, in any
  order, cannot go on forever; every run takes one step per pod it brings up to date; and it
  can only stop when no outdated pod is left, because the webhook never refuses one.
\<close>

theorem rollout_terminates:
  fixes lib :: "'sel beylaLib" and d :: "('sel, 'm) podCustomDefaulter"
  assumes "pcd_Mutator d = Some pm" "recreates (pcd_Reader d) fresh"
  shows "wfp (replaceStep lib deps d fresh)\<inverse>\<inverse>
    \<and> (\<forall>n s s'. (replaceStep lib deps d fresh ^^ n) s s' \<longrightarrow>
        outdatedCount (pcd_Reader d) (fst s) = n + outdatedCount (pcd_Reader d) (fst s'))
    \<and> (\<forall>s. (\<nexists>s'. replaceStep lib deps d fresh s s') \<longleftrightarrow> outdatedCount (pcd_Reader d) (fst s) = 0)"
  using Default_replacing [OF assms(1) assms(2) [unfolded recreates_def]] by blast

section \<open>The sweep after a rollout\<close>

lemma marker_patched: "wd_Pods (patched cl keys w) = wd_Pods w"
  by (simp add: patched_def)

lemma replaceStep_pods:
  fixes lib :: "'sel beylaLib" and d :: "('sel, 'm) podCustomDefaulter"
  assumes "ignoresInjected (bl_match lib)" "pcd_Mutator d = Some pm" "recreates (pcd_Reader d) fresh"
    "(replaceStep lib deps d fresh)\<^sup>*\<^sup>* s s'"
  shows "wd_Marker (fst s') = wd_Marker (fst s) \<and> (\<forall>e\<in>set (wd_Pods (fst s')). e \<in> set (wd_Pods (fst s))
    \<or> settled lib (pcd_Registry d) (pm_Cfg pm) (pcd_Reader d) (snd e))"
  using pod_admission.replaced_quiet [OF Default_admission [OF assms(2)] assms(3) [unfolded recreates_def] assms(4)] assms(1)
  by blast

text \<open>The workloads that a sweep over the pods of a world asks for.\<close>

definition askedIn :: "'sel beylaLib \<Rightarrow> 'sel registry \<Rightarrow> sdkInject \<Rightarrow> reader \<Rightarrow> restartCriterion list \<Rightarrow> bool \<Rightarrow> world \<Rightarrow> workloadKey set" where
  "askedIn lib reg cfg rd targets c w = {workloadOf rd p | p. p \<in> snd ` set (wd_Pods w)
     \<and> om_Namespace (pod_Meta p) \<notin> set protectedNamespaces
     \<and> (\<exists>t\<in>set targets \<union> {t. c}. (c \<or> tc_Namespace t = om_Namespace (pod_Meta p)) \<and> podRollout lib cfg reg rd c [t] p \<noteq> None)}"

lemma sweep_asked:
  assumes "range_ok ro" "serves rd w cl"
  shows "\<exists>keys. sentFor cl st (snd (rolloutMatching lib ro cl r targets c st)) keys
    \<and> set keys = askedIn lib (cs_Registry st) (cr_DefaultSDKConfig r) rd targets c w"
proof (cases c)
  case True
  have l: "cl_listPods cl = Inr (map snd (wd_Pods w))" "cl_reader cl = rd" using assms(2) by (simp_all add: serves_def)
  have "cleanupWorkloads lib (cs_Registry st) cl (map snd (wd_Pods w))
      = askedIn lib (cs_Registry st) (cr_DefaultSDKConfig r) rd targets True w"
    by (auto simp: cleanupWorkloads_def askedIn_def podRollout_cleanup workloadOf_def l)
  with cleanup_sweep [OF assms(1) l(1), of st lib r targets] True show ?thesis by simp
next
  case False
  have l: "\<And>ns. cl_listPodsIn cl ns = Inr (filter (\<lambda>p. om_Namespace (pod_Meta p) = ns) (map snd (wd_Pods w)))"
    "cl_reader cl = rd" using assms(2) by (simp_all add: serves_def)
  have "targetedWorkloads lib (cs_Registry st) cl (cr_DefaultSDKConfig r) targets
      = askedIn lib (cs_Registry st) (cr_DefaultSDKConfig r) rd targets False w"
    by (fastforce simp: targetedWorkloads_def askedIn_def podRollout_targeted matchesAnyTarget_def workloadOf_def l)
  with targeted_sweep [OF assms(1), of targets cl st lib r] l(1) False show ?thesis by simp
qed

lemma askedIn_settled:
  assumes "\<forall>e\<in>set (wd_Pods w'). e \<in> set (wd_Pods w) \<or> settled lib reg cfg rd (snd e)"
    "k \<in> askedIn lib reg cfg rd targets c w'"
  shows "\<exists>e\<in>set (wd_Pods w') \<inter> set (wd_Pods w). workloadOf rd (snd e) = k \<and> k \<in> askedIn lib reg cfg rd targets c w"
proof -
  from assms(2) obtain e t where e: "e \<in> set (wd_Pods w')" "workloadOf rd (snd e) = k"
    "om_Namespace (pod_Meta (snd e)) \<notin> set protectedNamespaces" "t \<in> set targets \<union> {t. c}"
    "c \<or> tc_Namespace t = om_Namespace (pod_Meta (snd e))" "podRollout lib cfg reg rd c [t] (snd e) \<noteq> None"
    by (auto simp: askedIn_def)
  then have "e \<in> set (wd_Pods w)" using assms(1) by (auto simp: settled_def)
  with e show ?thesis unfolding askedIn_def by blast
qed

text \<open>Once the rollout is through, a sweep asks only for workloads whose patch had failed.\<close>

lemma replaced_asks:
  fixes lib :: "'sel beylaLib" and d :: "('sel, 'm) podCustomDefaulter"
  assumes "ignoresInjected (bl_match lib)" "pcd_Mutator d = Some pm" "recreates (pcd_Reader d) fresh"
    "\<forall>e\<in>set (wd_Pods w). fst e \<noteq> restartPatch (cl_now cl)"
    and run: "(replaceStep lib deps d fresh)\<^sup>*\<^sup>* (patched cl keys w, m) (w2, m2)" "outdatedCount (pcd_Reader d) w2 = 0"
    and keys: "set keys = askedIn lib (pcd_Registry d) (pm_Cfg pm) (pcd_Reader d) targets c w"
  shows "askedIn lib (pcd_Registry d) (pm_Cfg pm) (pcd_Reader d) targets c w2
    \<subseteq> {k \<in> set keys. cl_patch cl k (restartPatch (cl_now cl)) \<noteq> None}"
proof
  fix k assume k: "k \<in> askedIn lib (pcd_Registry d) (pm_Cfg pm) (pcd_Reader d) targets c w2"
  note pods = replaceStep_pods [OF assms(1-3) run(1), unfolded fst_conv marker_patched]
  from askedIn_settled [OF conjunct2 [OF pods] k] obtain e where
    e: "e \<in> set (wd_Pods w2)" "e \<in> set (wd_Pods w)" "workloadOf (pcd_Reader d) (snd e) = k" "k \<in> set keys"
    unfolding keys by blast
  have "fst e = wd_Marker (patched cl keys w) k"
    using run(2) e(1,3) conjunct1 [OF pods] by (auto simp: staleCount_def filter_empty_conv stale_def)
  moreover have "fst e \<noteq> restartPatch (cl_now cl)" using assms(4) e(2) by blast
  ultimately show "k \<in> {k \<in> set keys. cl_patch cl k (restartPatch (cl_now cl)) \<noteq> None}"
    using e(4) by (simp add: patched_def split: if_split_asm)
qed

text \<open>
  C12. The system converges: run a sweep of either mode, let the workloads it patched replace
  their pods through the webhook until none is outdated, and sweep again on the same rules.
  The second sweep patches no workload the first one patched, and so nothing but workloads
  whose patch had failed. It relies on the marker being new to the cluster, which is why the
  code writes it with nanoseconds.
\<close>

theorem sweep_converges:
  fixes lib :: "'sel beylaLib" and d :: "('sel, 'm) podCustomDefaulter"
  assumes "ignoresInjected (bl_match lib)" "pcd_Mutator d = Some pm" "pm_Cfg pm = cr_DefaultSDKConfig r"
    "cs_Registry st = pcd_Registry d" "recreates (pcd_Reader d) fresh" "range_ok ro" "serves (pcd_Reader d) w cl"
    "\<forall>e\<in>set (wd_Pods w). fst e \<noteq> restartPatch (cl_now cl)"
    and first: "st1 = snd (rolloutMatching lib ro cl r targets c st)" "cs_Patches st1 = cs_Patches st @ map (\<lambda>k. (k, restartPatch (cl_now cl))) keys"
    and run: "(replaceStep lib deps d fresh)\<^sup>*\<^sup>* (patched cl keys w, m) (w2, m2)" "outdatedCount (pcd_Reader d) w2 = 0"
    and again: "serves (pcd_Reader d) w2 cl2" "range_ok ro2" "st2 = snd (rolloutMatching lib ro2 cl2 r targets c st1)"
  shows "\<exists>keys2. cs_Patches st2 = cs_Patches st1 @ map (\<lambda>k. (k, restartPatch (cl_now cl2))) keys2
    \<and> set keys2 \<subseteq> {k \<in> set keys. cl_patch cl k (restartPatch (cl_now cl)) \<noteq> None}"
proof -
  let ?asked = "askedIn lib (pcd_Registry d) (pm_Cfg pm) (pcd_Reader d) targets c"
  obtain keys1 where k1: "sentFor cl st st1 keys1" "set keys1 = ?asked w"
    using sweep_asked [OF assms(6,7), of st lib r targets c] by (auto simp: first(1) assms(3,4))
  have keys: "set keys = ?asked w" using sentFor_keys [OF k1(1) first(2)] k1(2) by simp
  have "cs_Registry st1 = pcd_Registry d" using k1(1) assms(4) by (simp add: sentFor_def)
  then obtain keys2 where k2: "sentFor cl2 st1 st2 keys2" "set keys2 = ?asked w2"
    using sweep_asked [OF again(2,1), of st1 lib r targets c] by (auto simp: again(3) assms(3))
  moreover have "?asked w2 \<subseteq> {k \<in> set keys. cl_patch cl k (restartPatch (cl_now cl)) \<noteq> None}"
    by (rule replaced_asks [OF assms(1,2,5,8) run keys])
  ultimately show ?thesis unfolding sentFor_def by blast
qed


text \<open>A workload controller that submits what it finds, less the injector's annotation.\<close>

definition fromTemplate :: "pod \<Rightarrow> pod" where
  "fromTemplate p = p\<lparr>pod_Meta := (pod_Meta p)\<lparr>om_Annotations := gm_del InjectedAnnotation (om_Annotations (pod_Meta p))\<rparr>\<rparr>"

lemma fromTemplate_recreates: "recreates rd fromTemplate"
proof -
  have "pi_OwnerChain (Resolve rd (fromTemplate p)) = pi_OwnerChain (Resolve rd p)" for p
    by (simp add: Resolve_def Let_def fromTemplate_def split: option.split getResult.split)
  moreover have "om_Namespace (pod_Meta (fromTemplate p)) = om_Namespace (pod_Meta p)"
    "gm_get (om_Annotations (pod_Meta (fromTemplate p))) InjectedAnnotation = None" for p
    by (simp_all add: fromTemplate_def gomap_simps)
  ultimately show ?thesis
    by (simp add: recreates_def renews_def workloadOf_def resolveWorkload_def IsInstrumented_def split: option.split)
qed

theorem rollout_terminates_witness:
  "wfp (replaceStep sampleLib sampleDeps (sampleDefaulter (Some sampleMutator)) fromTemplate)\<inverse>\<inverse>"
  using rollout_terminates [of "sampleDefaulter (Some sampleMutator)" sampleMutator fromTemplate sampleLib sampleDeps]
    fromTemplate_recreates by (simp add: sampleDefaulter_def)

definition sampleWorld :: world where
  "sampleWorld = \<lparr>wd_Pods = [(''old'', ownedPod)], wd_Marker = (\<lambda>_. ''old'')\<rparr>"

definition worldCluster :: "string \<Rightarrow> world \<Rightarrow> cluster" where
  "worldCluster now w = sampleCluster\<lparr>cl_now := now, cl_listPods := Inr (map snd (wd_Pods w)),
     cl_listPodsIn := (\<lambda>ns. Inr (filter (\<lambda>p. om_Namespace (pod_Meta p) = ns) (map snd (wd_Pods w))))\<rparr>"

lemma worldCluster_serves: "serves noReader w (worldCluster now w)"
  by (simp add: serves_def worldCluster_def sampleCluster_def)

definition dbTarget :: restartCriterion where
  "dbTarget = \<lparr>tc_Namespace = ''apps'', tc_Kind = ''StatefulSet'', tc_Name = '''', tc_Language = ''''\<rparr>"

definition dbKey :: workloadKey where
  "dbKey = \<lparr>wk_Namespace = ''apps'', wk_Kind = ''StatefulSet'', wk_Name = ''db''\<rparr>"

lemma ownedPod_chain: "pi_OwnerChain (Resolve noReader ownedPod) =
    [\<lparr>ow_Kind = ''Pod'', ow_Name = ''web''\<rparr>, \<lparr>ow_Kind = ''StatefulSet'', ow_Name = ''db''\<rparr>]"
  by (simp add: Resolve_def Let_def ownedPod_def samplePod_def controllerRef_def)

lemma ownedPod_decision: "decision sampleLib sampleRegistry noReader (sampleSDK ''1'') ownedPod = Inject sampleRule (sampleSDK ''1'')"
proof -
  have "Match (bl_match sampleLib) sampleRegistry (Resolve noReader ownedPod)
      = Some (sampleRule, InjectConfig (sampleInst '''' ''apps''))"
    by (simp add: Match_def generateMatchInputUnlocked_def sampleRegistry_def sampleLib_def sampleInst_def
      instAt_def nsSelector_def buildMatchInput_def samplePod_def ModeSkip_def sampleRule_def ownedPod_def)
  moreover have "\<not> PreloadsSomethingElse ownedPod"
    by (simp add: PreloadsSomethingElse_def samplePod_def isLDPreloadConflict_def findEnvVar_def emptyContainer_def ownedPod_def)
  moreover have "WithConfigMapOverrides (sampleSDK ''1'') (InjectConfig (sampleInst '''' ''apps'')) = sampleSDK ''1''"
    by (simp add: WithConfigMapOverrides_def sampleInst_def)
  moreover have "om_Annotations (pod_Meta ownedPod) = []" by (simp add: samplePod_def emptyMeta_def ownedPod_def)
  ultimately show ?thesis by (simp add: decision_def sampleSDK_def Let_def)
qed

lemma sampleWorld_asked: "askedIn sampleLib sampleRegistry (sampleSDK ''1'') noReader [dbTarget] False sampleWorld = {dbKey}"
proof -
  have m: "om_Namespace (pod_Meta ownedPod) = ''apps''" "om_DeletionTimestamp (pod_Meta ownedPod) = None"
    "om_OwnerReferences (pod_Meta ownedPod) \<noteq> []" "''apps'' \<notin> set protectedNamespaces"
    by (simp_all add: ownedPod_def samplePod_def emptyMeta_def protectedNamespaces_def)
  have w: "workloadOf noReader ownedPod = dbKey"
    by (simp add: workloadOf_def resolveWorkload_def ownedPod_chain rollableKind_def kind_defs m dbKey_def)
  have "podRollout sampleLib (sampleSDK ''1'') sampleRegistry noReader False [dbTarget] ownedPod = Some dbKey"
    unfolding podRollout_targeted rollable_def needsRollout_def ownedPod_decision
    by (simp add: ownedPod_chain m rollableKind_def kind_defs matchesAnyTarget_def matchesTarget_def dbTarget_def)
      (simp add: w [unfolded workloadOf_def])
  then show ?thesis by (auto simp: askedIn_def sampleWorld_def m w dbTarget_def)
qed

theorem sweep_converges_witness:
  "\<exists>w2 st1 :: string controllerState. cs_Patches st1 = [(dbKey, restartPatch ''now'')] \<and> outdatedCount noReader w2 = 0
    \<and> cs_Patches (snd (rolloutMatching sampleLib sampleOrder (worldCluster ''later'' w2) sampleReconciler [dbTarget] False st1)) = cs_Patches st1"
proof -
  let ?d = "sampleDefaulter (Some sampleMutator)"
  let ?cl = "worldCluster ''now'' sampleWorld"
  let ?st1 = "snd (rolloutMatching sampleLib sampleOrder ?cl sampleReconciler [dbTarget] False sampleState)"
  have d: "pcd_Reader ?d = noReader" "pcd_Registry ?d = sampleRegistry" "pcd_Mutator ?d = Some sampleMutator"
    by (simp_all add: sampleDefaulter_def)
  have cfg: "pm_Cfg sampleMutator = cr_DefaultSDKConfig sampleReconciler" "cr_DefaultSDKConfig sampleReconciler = sampleSDK ''1''"
    by (simp_all add: sampleMutator_def sampleReconciler_def)
  have reg: "cs_Registry sampleState = pcd_Registry ?d" by (simp add: d sampleState_def)
  have now: "cl_now ?cl = ''now''" "\<And>k x. cl_patch ?cl k x = None" by (simp_all add: worldCluster_def sampleCluster_def)
  obtain keys where k: "sentFor ?cl sampleState ?st1 keys" "set keys = {dbKey}"
    using sweep_asked [OF sampleOrder_ok worldCluster_serves [of sampleWorld "''now''"], where st = sampleState
        and lib = sampleLib and r = sampleReconciler and targets = "[dbTarget]" and c = False]
    by (auto simp: cfg(2) reg d sampleWorld_asked)
  have keys: "keys = [dbKey]"
  proof -
    have "distinct keys" using k(1) by (simp only: sentFor_def)
    with k(2) show ?thesis by (cases keys rule: remdups_adj.cases) auto
  qed
  have p1: "cs_Patches ?st1 = cs_Patches sampleState @ map (\<lambda>k. (k, restartPatch (cl_now ?cl))) keys"
    using k(1) by (simp only: sentFor_def)
  obtain s2 where run: "(replaceStep sampleLib sampleDeps ?d fromTemplate)\<^sup>*\<^sup>* (patched ?cl keys sampleWorld, ()) s2"
    "outdatedCount noReader (fst s2) = 0"
    using pod_admission.completes [OF Default_admission [OF d(3)] fromTemplate_recreates [unfolded recreates_def]] d(1) by metis
  obtain w2 where s2: "s2 = (w2, ())" by (cases s2) auto
  have fresh: "\<forall>e\<in>set (wd_Pods sampleWorld). fst e \<noteq> restartPatch (cl_now ?cl)"
    by (simp add: sampleWorld_def restartPatch_def)
  have "cs_Patches (snd (rolloutMatching sampleLib sampleOrder (worldCluster ''later'' w2) sampleReconciler [dbTarget] False ?st1))
      = cs_Patches ?st1"
    using sweep_converges [OF sample_ignores d(3) cfg(1) reg fromTemplate_recreates sampleOrder_ok
        worldCluster_serves [of sampleWorld "''now''", folded d(1)] fresh refl p1 run(1)[unfolded s2]
        _ worldCluster_serves [of w2 "''later''", folded d(1)] sampleOrder_ok refl] run(2) now(2)
    by (auto simp: s2 d(1))
  with p1 run(2) show ?thesis
    by (intro exI [of _ w2] exI [of _ ?st1]) (simp add: keys now(1) sampleState_def s2)
qed

end
