(* ===== verification/Lifecycle.thy ===== *)
theory Lifecycle
  imports Startup Requeue Rollout
begin

text \<open>
  The life of the process after \<open>main\<close> has set it up (\<open>cmd/main.go\<close>): how the parts are wired,
  and the goroutine that registers the webhooks once the certificate rotator reports its
  certificate, or gives up when the manager stops. Registering the handlers is several steps:
  the first use of the webhook server adds it to the manager, which starts it at once when it
  is running already, then the mutating handler is registered, then the validating one. Until
  the server listens, its \<open>StartedChecker\<close> is an error, and with it the readiness check and the
  gate of the sweeps. What happens in which order is up to the rotator, the manager and the
  scheduler, so the life is a step relation.
\<close>

section \<open>How the started program is wired\<close>

text \<open>The handler, the collector and the reconciler that \<open>main\<close> builds share one configuration.\<close>

definition wiredDefaulter :: "plan \<Rightarrow> 'sel registry \<Rightarrow> reader \<Rightarrow> ('sel, sdkInjectionMetrics option) podCustomDefaulter" where
  "wiredDefaulter pl reg rd = SetupPodWebhookWithManager reg rd (Some \<lparr>pm_Cfg = pl_SDKConfig pl\<rparr>) (Some RecordRequest)"

lemma wiredDefaulter_fields [simp]:
  "pcd_Registry (wiredDefaulter pl reg rd) = reg" "pcd_Reader (wiredDefaulter pl reg rd) = rd"
  "pcd_Mutator (wiredDefaulter pl reg rd) = Some \<lparr>pm_Cfg = pl_SDKConfig pl\<rparr>"
  "pcd_Metrics (wiredDefaulter pl reg rd) = Some RecordRequest"
  by (simp_all add: wiredDefaulter_def SetupPodWebhookWithManager_def)

text \<open>The webhook of the started program is one that the workload controllers can rely on.\<close>

interpretation hook: pod_admission "workloadOf rd" "Default lib deps (wiredDefaulter pl reg rd)"
    "\<lambda>p. \<not> IsInstrumented (pod_Meta p)" "\<lambda>p. ignoresInjected (bl_match lib) \<longrightarrow> settled lib reg (pl_SDKConfig pl) rd p"
  for rd :: reader and lib :: "'sel beylaLib" and deps :: mutatorDeps and pl :: plan and reg :: "'sel registry"
  using Default_admission [of "wiredDefaulter pl reg rd" "\<lparr>pm_Cfg = pl_SDKConfig pl\<rparr>" rd lib deps] by simp

definition wiredCollector :: "plan \<Rightarrow> 'sel registry \<Rightarrow> reader \<Rightarrow> 'sel podStateCollector" where
  "wiredCollector pl reg rd = NewPodStateCollector rd reg (pl_SDKConfig pl)"

definition wiredReconciler :: "plan \<Rightarrow> err option \<Rightarrow> configMapReconciler" where
  "wiredReconciler pl started = \<lparr>cr_WebhookReady = (if pl_GateOnWebhook pl then Some started else None),
     cr_WebhookServiceAddr = pl_WebhookServiceAddr pl, cr_DefaultSDKConfig = pl_SDKConfig pl\<rparr>"

lemma wiredReconciler_config [simp]: "cr_DefaultSDKConfig (wiredReconciler pl started) = pl_SDKConfig pl"
  by (simp add: wiredReconciler_def)

definition wiredValidator :: "plan \<Rightarrow> ('raw \<Rightarrow> err + configMap) \<Rightarrow> 'raw configMapValidator option" where
  "wiredValidator pl decode = (case pl_Registration pl of
     NotRegistered \<Rightarrow> None
   | Registered writers \<Rightarrow> Some (NewConfigMapValidator decode writers)
   | AfterRotation p writers \<Rightarrow> Some (NewConfigMapValidator decode writers))"

section \<open>From the start to serving\<close>

text \<open>
  How far the goroutine of the certificate rotation is: there is none, it waits, it runs
  \<open>setupWebhooks\<close>, whose mutating handler is then registered, it is done, or it gave up waiting.
\<close>

datatype rotation = NoRotation | AwaitingCert | SettingUp | MutatingDone | RotationDone | Abandoned

record lifecycle =
  lc_Rotation :: rotation
  lc_CertReady :: bool
  lc_Stopping :: bool
  lc_ServerAdded :: bool
  lc_Mutating :: bool
  lc_Writers :: "string list option"
  lc_Listening :: bool
  lc_Exit :: "exitReason option"

text \<open>
  The manager starts with \<open>startLife\<close>: without rotation \<open>setupWebhooks\<close> ran before it, so the server
  is among its runnables with both handlers. \<open>lc_Writers\<close> is the allow list of the validating
  handler once that is registered.
\<close>

definition startLife :: "plan \<Rightarrow> lifecycle" where
  "startLife pl = \<lparr>lc_Rotation = (case pl_Registration pl of AfterRotation p ws \<Rightarrow> AwaitingCert | _ \<Rightarrow> NoRotation),
     lc_CertReady = False, lc_Stopping = False,
     lc_ServerAdded = (case pl_Registration pl of Registered ws \<Rightarrow> True | _ \<Rightarrow> False),
     lc_Mutating = (case pl_Registration pl of Registered ws \<Rightarrow> True | _ \<Rightarrow> False),
     lc_Writers = (case pl_Registration pl of Registered ws \<Rightarrow> Some ws | _ \<Rightarrow> None),
     lc_Listening = False, lc_Exit = None\<rparr>"

text \<open>
  \<open>setupWebhooks\<close> in the running program. \<open>SetupPodWebhookWithManager\<close> asks the manager for its webhook
  server, which adds it, and then registers the mutating handler or fails; after it the
  validating handler is registered, which cannot fail.
\<close>

inductive setupStep :: "platform \<Rightarrow> environ \<Rightarrow> lifecycle \<Rightarrow> lifecycle \<Rightarrow> bool" for pf env where
  addServer: "lc_Rotation s = SettingUp \<Longrightarrow> setupStep pf env s (s\<lparr>lc_ServerAdded := True\<rparr>)"
| registerMutating: "lc_Rotation s = SettingUp \<Longrightarrow> lc_ServerAdded s \<Longrightarrow> pf_setupPodWebhook pf = None
    \<Longrightarrow> setupStep pf env s (s\<lparr>lc_Mutating := True, lc_Rotation := MutatingDone\<rparr>)"
| registerFails: "lc_Rotation s = SettingUp \<Longrightarrow> pf_setupPodWebhook pf = Some e
    \<Longrightarrow> setupStep pf env s (s\<lparr>lc_Exit := Some (WebhooksFailed (''setting up Pod webhook: '' @ e))\<rparr>)"
| registerValidating: "lc_Rotation s = MutatingDone
    \<Longrightarrow> setupStep pf env s (s\<lparr>lc_Writers := Some (parseAllowedWriters (env ''ALLOWED_CONFIGMAP_WRITERS'')),
      lc_Rotation := RotationDone\<rparr>)"

inductive_cases setupStepE: "setupStep pf env s s'"

text \<open>
  The goroutine's \<open>select\<close>, which takes either branch when both channels are ready, and what
  the rotator and the manager do around it. The server listens at any time after it was added,
  and no longer once a stopping manager has closed it.
\<close>

inductive lifeStep :: "platform \<Rightarrow> environ \<Rightarrow> lifecycle \<Rightarrow> lifecycle \<Rightarrow> bool" for pf env where
  certReady: "lc_Exit s = None \<Longrightarrow> lc_Rotation s \<noteq> NoRotation \<Longrightarrow> lifeStep pf env s (s\<lparr>lc_CertReady := True\<rparr>)"
| stop: "lc_Exit s = None \<Longrightarrow> lifeStep pf env s (s\<lparr>lc_Stopping := True\<rparr>)"
| beginSetup: "lc_Exit s = None \<Longrightarrow> lc_Rotation s = AwaitingCert \<Longrightarrow> lc_CertReady s
    \<Longrightarrow> lifeStep pf env s (s\<lparr>lc_Rotation := SettingUp\<rparr>)"
| setupRuns: "lc_Exit s = None \<Longrightarrow> setupStep pf env s s' \<Longrightarrow> lifeStep pf env s s'"
| abandon: "lc_Exit s = None \<Longrightarrow> lc_Rotation s = AwaitingCert \<Longrightarrow> lc_Stopping s
    \<Longrightarrow> lifeStep pf env s (s\<lparr>lc_Rotation := Abandoned\<rparr>)"
| managerFails: "lc_Exit s = None \<Longrightarrow> lifeStep pf env s (s\<lparr>lc_Exit := Some (StartFailed e)\<rparr>)"
| listen: "lc_Exit s = None \<Longrightarrow> \<not> lc_Stopping s \<Longrightarrow> lc_ServerAdded s
    \<Longrightarrow> lifeStep pf env s (s\<lparr>lc_Listening := True\<rparr>)"
| closeServer: "lc_Exit s = None \<Longrightarrow> lc_Stopping s \<Longrightarrow> lifeStep pf env s (s\<lparr>lc_Listening := False\<rparr>)"

inductive_cases lifeStepE: "lifeStep pf env s s'"

inductive lifeReaches :: "platform \<Rightarrow> environ \<Rightarrow> plan \<Rightarrow> lifecycle \<Rightarrow> bool" for pf env pl where
  start: "lifeReaches pf env pl (startLife pl)"
| more: "lifeReaches pf env pl s \<Longrightarrow> lifeStep pf env s s' \<Longrightarrow> lifeReaches pf env pl s'"

lemma lifeReaches_steps: "(lifeStep pf env)\<^sup>*\<^sup>* s s' \<Longrightarrow> lifeReaches pf env pl s \<Longrightarrow> lifeReaches pf env pl s'"
  by (induction rule: rtranclp_induct) (auto intro: lifeReaches.more)

text \<open>What the manager's checks answer; \<open>healthz\<close> and \<open>readyz\<close> always succeed.\<close>

definition startedChecker :: "err \<Rightarrow> lifecycle \<Rightarrow> err option" where
  "startedChecker notStarted s = (if lc_Listening s then None else Some notStarted)"

definition podReady :: "plan \<Rightarrow> lifecycle \<Rightarrow> bool" where
  "podReady pl s = (\<forall>c\<in>set (pl_Checks pl). c = ''webhook'' \<longrightarrow> lc_Listening s)"

section \<open>What holds along a life\<close>

definition rotates :: "plan \<Rightarrow> bool" where
  "rotates pl = (\<exists>p ws. pl_Registration pl = AfterRotation p ws)"

lemma rotates_simps [simp]:
  "pl_Registration pl = NotRegistered \<Longrightarrow> \<not> rotates pl" "pl_Registration pl = Registered ws \<Longrightarrow> \<not> rotates pl"
  "pl_Registration pl = AfterRotation p ws \<Longrightarrow> rotates pl"
  by (simp_all add: rotates_def)

definition life_ok :: "platform \<Rightarrow> environ \<Rightarrow> plan \<Rightarrow> lifecycle \<Rightarrow> bool" where
  "life_ok pf env pl s = ((\<forall>ws. lc_Writers s = Some ws \<longrightarrow> ws = parseAllowedWriters (env ''ALLOWED_CONFIGMAP_WRITERS''))
     \<and> (lc_Listening s \<longrightarrow> lc_ServerAdded s)
     \<and> (lc_Rotation s = NoRotation \<longleftrightarrow> \<not> rotates pl)
     \<and> (pl_Registration pl = NotRegistered \<longrightarrow> \<not> lc_ServerAdded s)
     \<and> (\<not> rotates pl \<and> lc_ServerAdded s \<longrightarrow> lc_Mutating s \<and> lc_Writers s \<noteq> None)
     \<and> (lc_Rotation s \<in> {AwaitingCert, Abandoned} \<longrightarrow> \<not> lc_ServerAdded s)
     \<and> (lc_Rotation s \<in> {SettingUp, MutatingDone, RotationDone} \<longrightarrow> lc_CertReady s)
     \<and> (lc_Rotation s \<in> {MutatingDone, RotationDone} \<longrightarrow> lc_Mutating s \<and> pf_setupPodWebhook pf = None)
     \<and> (lc_Rotation s = RotationDone \<longrightarrow> lc_Writers s \<noteq> None))"

lemma setupStep_ok: "setupStep pf env s s' \<Longrightarrow> life_ok pf env pl s \<Longrightarrow> life_ok pf env pl s'"
  by (erule setupStepE) (auto simp: life_ok_def)

lemma lifeStep_ok:
  assumes "lifeStep pf env s s'" "life_ok pf env pl s"
  shows "life_ok pf env pl s'"
  using assms(1)
proof (rule lifeStepE)
  assume "setupStep pf env s s'"
  then show ?thesis using assms(2) by (rule setupStep_ok)
qed (use assms(2) in \<open>auto simp: life_ok_def\<close>)

lemma startLife_ok:
  assumes "main pf env fl = Inr pl"
  shows "life_ok pf env pl (startLife pl)"
  using assms
proof (rule main_plan)
  fix raw regd
  assume reg: "registerWebhooks pf env fl (env ''ENABLE_WEBHOOKS'' \<noteq> ''false'') = Inr regd"
  assume pl: "pl = planFor env fl (resolveInjectionMode (pf_serverVersion pf) (SetDefaults (pf_parseLang pf) raw))
       (env ''ENABLE_WEBHOOKS'' \<noteq> ''false'') regd"
  have "regd = Registered ws \<Longrightarrow> ws = parseAllowedWriters (env ''ALLOWED_CONFIGMAP_WRITERS'')" for ws
    using registerWebhooks_cases [OF reg] by (cases "fl_enableCertRotation fl"; cases "env ''ENABLE_WEBHOOKS'' = ''false''") auto
  then show ?thesis by (auto simp: life_ok_def startLife_def pl planFor_def split: registration.split)
qed

lemma lifeReaches_ok:
  assumes "lifeReaches pf env pl s" "main pf env fl = Inr pl"
  shows "life_ok pf env pl s"
  using assms(1) by induction (auto intro: startLife_ok [OF assms(2)] lifeStep_ok)

lemma main_gate:
  assumes "main pf env fl = Inr pl"
  shows "pl_GateOnWebhook pl \<longleftrightarrow> env ''ENABLE_WEBHOOKS'' \<noteq> ''false''"
    "pl_Checks pl = checksFor (pl_GateOnWebhook pl)"
    "\<not> pl_GateOnWebhook pl \<Longrightarrow> pl_WebhookServiceAddr pl = ''''"
    "pl_GateOnWebhook pl \<longleftrightarrow> pl_Registration pl \<noteq> NotRegistered"
proof -
  obtain raw regd where reg: "registerWebhooks pf env fl (env ''ENABLE_WEBHOOKS'' \<noteq> ''false'') = Inr regd"
    and pl: "pl = planFor env fl (resolveInjectionMode (pf_serverVersion pf) (SetDefaults (pf_parseLang pf) raw))
       (env ''ENABLE_WEBHOOKS'' \<noteq> ''false'') regd"
    using assms by (rule main_plan)
  show "pl_GateOnWebhook pl \<longleftrightarrow> env ''ENABLE_WEBHOOKS'' \<noteq> ''false''" "pl_Checks pl = checksFor (pl_GateOnWebhook pl)"
    "\<not> pl_GateOnWebhook pl \<Longrightarrow> pl_WebhookServiceAddr pl = ''''" by (simp_all add: pl planFor_def)
  show "pl_GateOnWebhook pl \<longleftrightarrow> pl_Registration pl \<noteq> NotRegistered"
    using registerWebhooks_cases [OF reg] by (cases "fl_enableCertRotation fl") (auto simp: pl planFor_def)
qed

section \<open>Sample starts\<close>

text \<open>A plan with a fixed configuration, everything else as \<open>main\<close> leaves it by default.\<close>

definition samplePlan :: plan where
  "samplePlan = \<lparr>pl_WatchNamespace = ''obs'', pl_Webhook = webhookServerOptions defaultFlags,
     pl_Metrics = metricsServerOptions defaultFlags, pl_ProbeAddr = '':8081'', pl_LeaderElection = False, pl_LeaderElectionID = ''c3bd973a.grafana.com'',
     pl_SDKConfig = sampleSDK ''1'', pl_GateOnWebhook = True, pl_WebhookServiceAddr = '''',
     pl_Registration = Registered [''beyla''], pl_Checks = checksFor True\<rparr>"

text \<open>A start with certificate rotation.\<close>

definition rotationEnv :: environ where
  "rotationEnv k = (if k = ''POD_NAMESPACE'' then ''obs'' else if k = ''WEBHOOK_SERVICE_ADDR'' then ''hook.obs.svc:443''
     else if k = ''ALLOWED_CONFIGMAP_WRITERS'' then ''beyla'' else '''')"

definition rotationFlags :: flags where
  "rotationFlags = defaultFlags\<lparr>fl_enableCertRotation := True, fl_webhookCertSecret := ''cert'',
     fl_webhookCertPath := ''/certs'', fl_mutatingWebhookName := ''mutate'', fl_validatingWebhookName := ''validate''\<rparr>"

lemma rotation_writers: "parseAllowedWriters (rotationEnv ''ALLOWED_CONFIGMAP_WRITERS'') = [''beyla'']"
proof -
  have "trimSpace ''beyla'' = ''beyla''" by (rule trimSpace_id) simp
  then show ?thesis by (simp add: parseAllowedWriters_def rotationEnv_def)
qed

lemma rotation_certs: "\<exists>p. certRotation samplePlatform rotationEnv rotationFlags = Inr p"
proof -
  have "fst (ServiceDNSNames ''hook.obs.svc:443'') \<noteq> ''''" by code_simp
  then show ?thesis
    by (auto simp: certRotation_def rotationEnv_def rotationFlags_def samplePlatform_def split: prod.split)
qed

lemma rotation_main:
  obtains pl p ws where "main samplePlatform rotationEnv rotationFlags = Inr pl" "pl_Registration pl = AfterRotation p ws"
    "pl_SDKConfig pl = resolveInjectionMode (pf_serverVersion samplePlatform) (SetDefaults (pf_parseLang samplePlatform) zeroSDKInject)"
    "pl_WebhookServiceAddr pl = ''hook.obs.svc:443''"
proof -
  obtain p where "certRotation samplePlatform rotationEnv rotationFlags = Inr p" using rotation_certs by blast
  then have reg: "registerWebhooks samplePlatform rotationEnv rotationFlags True =
      Inr (AfterRotation p (parseAllowedWriters (rotationEnv ''ALLOWED_CONFIGMAP_WRITERS'')))"
    by (simp add: registerWebhooks_def) (simp add: rotationFlags_def)
  have pf: "pf_newManager samplePlatform = None" "pf_newClientset samplePlatform = None" "pf_setupController samplePlatform = None"
      "pf_addCheck samplePlatform c = None" for c
    by (simp_all add: samplePlatform_def)
  have off: "rotationEnv ''ENABLE_WEBHOOKS'' = ''''" "watchNamespaceOf rotationEnv = ''obs''"
      "fl_configPath rotationFlags = ''''" "rotationEnv ''WEBHOOK_SERVICE_ADDR'' = ''hook.obs.svc:443''"
    by (simp_all add: rotationEnv_def watchNamespaceOf_def rotationFlags_def defaultFlags_def)
  have "\<exists>pl. main samplePlatform rotationEnv rotationFlags = Inr pl \<and> pl_Registration pl =
      AfterRotation p (parseAllowedWriters (rotationEnv ''ALLOWED_CONFIGMAP_WRITERS''))
    \<and> pl_SDKConfig pl = resolveInjectionMode (pf_serverVersion samplePlatform) (SetDefaults (pf_parseLang samplePlatform) zeroSDKInject)
    \<and> pl_WebhookServiceAddr pl = ''hook.obs.svc:443''"
    by (simp add: main_def planFor_def off loadConfig_def reg pf checksFor_def Let_def)
  then show thesis using that by blast
qed

definition certified :: "plan \<Rightarrow> lifecycle" where
  "certified pl = (startLife pl)\<lparr>lc_CertReady := True\<rparr>"

lemma certified_reached:
  assumes "pl_Registration pl = AfterRotation p ws"
  shows "lifeReaches pf env pl (certified pl)"
  unfolding certified_def
  by (rule lifeReaches.more [OF lifeReaches.start], rule lifeStep.certReady) (simp_all add: startLife_def assms)

lemma certified_fields:
  assumes "pl_Registration pl = AfterRotation p ws"
  shows "lc_CertReady (certified pl)" "lc_Exit (certified pl) = None" "lc_Rotation (certified pl) = AwaitingCert"
    "\<not> lc_Stopping (certified pl)"
  by (simp_all add: certified_def startLife_def assms)

text \<open>
  The two ends of the set-up of the webhooks: the server listens while no handler is
  registered, and both are there.
\<close>

definition halfway :: "plan \<Rightarrow> lifecycle" where
  "halfway pl = (certified pl)\<lparr>lc_Rotation := SettingUp, lc_ServerAdded := True, lc_Listening := True\<rparr>"

definition serving :: "plan \<Rightarrow> lifecycle" where
  "serving pl = (halfway pl)\<lparr>lc_Mutating := True, lc_Writers := Some [''beyla''], lc_Rotation := RotationDone\<rparr>"

lemma halfway_reached:
  assumes "pl_Registration pl = AfterRotation p ws"
  shows "lifeReaches pf env pl (halfway pl)"
proof -
  note f = certified_fields [OF assms]
  let ?s1 = "(certified pl)\<lparr>lc_Rotation := SettingUp\<rparr>"
  let ?s2 = "?s1\<lparr>lc_ServerAdded := True\<rparr>"
  have "lifeReaches pf env pl ?s1"
    by (rule lifeReaches.more [OF certified_reached [OF assms] lifeStep.beginSetup [OF f(2,3,1)]])
  then have "lifeReaches pf env pl ?s2"
    by (rule lifeReaches.more) (rule lifeStep.setupRuns [OF _ setupStep.addServer]; simp add: f)
  then have "lifeReaches pf env pl (?s2\<lparr>lc_Listening := True\<rparr>)"
    by (rule lifeReaches.more) (rule lifeStep.listen; simp add: f)
  then show ?thesis by (simp add: halfway_def)
qed

lemma serving_reached:
  assumes "pl_Registration pl = AfterRotation p ws"
  shows "lifeReaches samplePlatform rotationEnv pl (serving pl)"
proof -
  note f = certified_fields [OF assms]
  let ?s1 = "(halfway pl)\<lparr>lc_Mutating := True, lc_Rotation := MutatingDone\<rparr>"
  have "lifeReaches samplePlatform rotationEnv pl ?s1"
    by (rule lifeReaches.more [OF halfway_reached [OF assms] lifeStep.setupRuns [OF _ setupStep.registerMutating]])
      (simp_all add: halfway_def f samplePlatform_def)
  then have "lifeReaches samplePlatform rotationEnv pl (?s1\<lparr>lc_Writers :=
      Some (parseAllowedWriters (rotationEnv ''ALLOWED_CONFIGMAP_WRITERS'')), lc_Rotation := RotationDone\<rparr>)"
    by (rule lifeReaches.more [OF _ lifeStep.setupRuns [OF _ setupStep.registerValidating]]) (simp_all add: halfway_def f)
  then show ?thesis by (simp add: serving_def rotation_writers)
qed

section \<open>Properties\<close>

lemma closed_gate_no_patch:
  assumes "gateClosed r cl" "Reconcile lib cml ro cl r ns name st = Returns (res, st')"
  shows "cs_Patches st' = cs_Patches st"
proof -
  have "reconcileRollouts lib cml ro cl r targets c st1 = Returns (res, st') \<Longrightarrow> cs_Patches st' = cs_Patches st1" for targets c st1
    using assms(1) gate_defers [OF assms(1), of lib cml ro targets c st1]
    by (cases "sd_NoAutoRestart (cr_DefaultSDKConfig r)") (auto simp: reconcileRollouts_def)
  then show ?thesis
    using assms(2) by (auto simp: Reconcile_intent track_def split: intent.splits)
qed

text \<open>
  C20. Nothing is restarted, and no traffic invited, before the webhook server listens: at any
  moment of the life of a program started with its webhooks enabled, if its pod is ready, or
  a reconciliation patches any workload, then the server was added to the manager and listens.
  Without rotation both handlers are then registered, the validating one with the allow
  list of the environment; with rotation the certificate is there, the set-up of the webhooks
  has begun, the mutating handler is registered unless that set-up has not got so far, and
  both handlers are, with that allow list, once it is over.
\<close>

theorem sweeps_only_when_serving:
  assumes "main pf env fl = Inr pl" "lifeReaches pf env pl s" "env ''ENABLE_WEBHOOKS'' \<noteq> ''false''"
    and "podReady pl s \<or> (Reconcile lib cml ro cl (wiredReconciler pl (startedChecker notStarted s)) ns name st = Returns (res, st')
      \<and> cs_Patches st' \<noteq> cs_Patches st)"
  shows "lc_Listening s \<and> lc_ServerAdded s
    \<and> (\<forall>ws. pl_Registration pl = Registered ws \<longrightarrow>
        lc_Mutating s \<and> lc_Writers s = Some (parseAllowedWriters (env ''ALLOWED_CONFIGMAP_WRITERS'')))
    \<and> (\<forall>p ws. pl_Registration pl = AfterRotation p ws \<longrightarrow>
        lc_CertReady s \<and> lc_Rotation s \<in> {SettingUp, MutatingDone, RotationDone}
        \<and> (lc_Rotation s \<noteq> SettingUp \<longrightarrow> lc_Mutating s)
        \<and> (lc_Rotation s = RotationDone \<longrightarrow> lc_Writers s = Some (parseAllowedWriters (env ''ALLOWED_CONFIGMAP_WRITERS''))))"
proof -
  note gate = main_gate [OF assms(1)]
  have on: "pl_GateOnWebhook pl" using gate(1) assms(3) by simp
  have listening: "lc_Listening s"
  proof (rule ccontr)
    assume "\<not> lc_Listening s"
    then have "gateClosed (wiredReconciler pl (startedChecker notStarted s)) cl" "\<not> podReady pl s"
      using on gate(2) by (simp_all add: gateClosed_def wiredReconciler_def startedChecker_def podReady_def checksFor_def)
    then show False using assms(4) closed_gate_no_patch by blast
  qed
  have ok: "life_ok pf env pl s" by (rule lifeReaches_ok [OF assms(2,1)])
  then have added: "lc_ServerAdded s" using listening by (simp add: life_ok_def)
  have "lc_Mutating s \<and> lc_Writers s = Some (parseAllowedWriters (env ''ALLOWED_CONFIGMAP_WRITERS''))"
    if "pl_Registration pl = Registered ws" for ws
    using ok added rotates_simps(2) [OF that] by (auto simp: life_ok_def)
  moreover have "lc_CertReady s \<and> lc_Rotation s \<in> {SettingUp, MutatingDone, RotationDone}
        \<and> (lc_Rotation s \<noteq> SettingUp \<longrightarrow> lc_Mutating s)
        \<and> (lc_Rotation s = RotationDone \<longrightarrow> lc_Writers s = Some (parseAllowedWriters (env ''ALLOWED_CONFIGMAP_WRITERS'')))"
    if "pl_Registration pl = AfterRotation p ws" for p ws
    using ok added rotates_simps(3) [OF that] by (cases "lc_Rotation s") (auto simp: life_ok_def)
  ultimately show ?thesis using listening added by blast
qed

theorem sweeps_only_when_serving_witness:
  "\<exists>pl. main samplePlatform rotationEnv rotationFlags = Inr pl \<and> rotates pl
    \<and> lifeReaches samplePlatform rotationEnv pl (serving pl) \<and> podReady pl (serving pl)
    \<and> lc_Listening (serving pl) \<and> lc_CertReady (serving pl) \<and> lc_Mutating (serving pl)
    \<and> lc_Writers (serving pl) = Some (parseAllowedWriters (rotationEnv ''ALLOWED_CONFIGMAP_WRITERS''))"
proof -
  obtain pl p ws where pl: "main samplePlatform rotationEnv rotationFlags = Inr pl" "pl_Registration pl = AfterRotation p ws"
    by (rule rotation_main)
  have on: "rotationEnv ''ENABLE_WEBHOOKS'' \<noteq> ''false''" by (simp add: rotationEnv_def)
  have ready: "podReady pl (serving pl)" by (simp add: podReady_def serving_def halfway_def)
  have "lc_Rotation (serving pl) = RotationDone" by (simp add: serving_def)
  then show ?thesis
    using sweeps_only_when_serving [OF pl(1) serving_reached [OF pl(2)] on disjI1 [OF ready]] pl ready
      serving_reached [OF pl(2)] rotates_simps(3) [OF pl(2)] by (metis rotation.distinct(21))
qed

text \<open>
  With rotation the checks do not wait for the handlers: the server may listen as soon as it is
  added, before the mutating handler is registered. The pod is then ready and the gate of
  the sweeps open, while an admission would find no handler.
\<close>

theorem ready_before_handlers:
  "\<exists>pl s. main samplePlatform rotationEnv rotationFlags = Inr pl \<and> lifeReaches samplePlatform rotationEnv pl s
    \<and> podReady pl s \<and> \<not> gateClosed (wiredReconciler pl (startedChecker notStarted s)) goneCluster
    \<and> \<not> lc_Mutating s \<and> lc_Writers s = None"
proof -
  obtain pl p ws where pl: "main samplePlatform rotationEnv rotationFlags = Inr pl" "pl_Registration pl = AfterRotation p ws"
    by (rule rotation_main)
  have "\<not> gateClosed (wiredReconciler pl (startedChecker notStarted (halfway pl))) goneCluster"
    by (simp add: gateClosed_def wiredReconciler_def startedChecker_def halfway_def dialWebhookService_def goneCluster_def sampleCluster_def)
  moreover have "podReady pl (halfway pl) \<and> \<not> lc_Mutating (halfway pl) \<and> lc_Writers (halfway pl) = None"
    by (simp add: podReady_def halfway_def certified_def startLife_def pl(2))
  ultimately show ?thesis using pl(1) halfway_reached [OF pl(2)] by blast
qed

text \<open>
  The gate opens: with the webhooks disabled, or once the server listens and its Service
  can be dialled, no reconciliation of the started program asks to be run again later. So
  \<open>unready_webhook_blocks_forever\<close> cannot happen to it for want of a webhook server that is
  never started.
\<close>

theorem startup_never_blocks_sweeps:
  assumes "main pf env fl = Inr pl"
    and "env ''ENABLE_WEBHOOKS'' = ''false'' \<or> (lc_Listening s \<and> dialWebhookService cl (pl_WebhookServiceAddr pl) = None)"
    and "Reconcile lib cml ro cl (wiredReconciler pl (startedChecker notStarted s)) ns name st = Returns ((res, e), st')"
  shows "rr_RequeueAfter res = 0"
proof -
  note gate = main_gate [OF assms(1)]
  have "\<not> gateClosed (wiredReconciler pl (startedChecker notStarted s)) cl"
    using assms(2) gate(1,3) by (auto simp: gateClosed_def wiredReconciler_def startedChecker_def)
  then have "res = emptyResult"
    using assms(3) gate_passes by (fastforce simp: Reconcile_intent split: intent.splits)
  then show ?thesis by (simp add: emptyResult_def)
qed

theorem startup_never_blocks_sweeps_witness:
  "\<exists>pl res st'. main samplePlatform rotationEnv rotationFlags = Inr pl
    \<and> Reconcile sampleLib sampleCml sampleOrder goneCluster (wiredReconciler pl (startedChecker ''not started'' (serving pl)))
        ''obs'' ''a'' startState = Returns (res, st')
    \<and> rr_RequeueAfter (fst res) = 0"
proof -
  obtain pl p ws where pl: "main samplePlatform rotationEnv rotationFlags = Inr pl"
    and cfg: "pl_SDKConfig pl = resolveInjectionMode (pf_serverVersion samplePlatform) (SetDefaults (pf_parseLang samplePlatform) zeroSDKInject)"
    by (rule rotation_main)
  let ?r = "wiredReconciler pl (startedChecker ''not started'' (serving pl))"
  have i: "intentOf sampleCml goneCluster ''obs'' ''a'' = Sweep (OpDelete (nsName ''obs'' ''a'')) [] True"
    by (simp add: intentOf_def goneCluster_def sampleCluster_def)
  have dial: "dialWebhookService goneCluster (pl_WebhookServiceAddr pl) = None"
    by (simp add: dialWebhookService_def goneCluster_def sampleCluster_def)
  have open_gate: "\<not> gateClosed ?r goneCluster"
    using dial by (simp add: gateClosed_def wiredReconciler_def startedChecker_def serving_def halfway_def)
  moreover have "refreshRegistry sampleCml goneCluster reg = Returns (None, RegistryReplace [] reg)" for reg
    by (simp add: refreshRegistry_def goneCluster_def sampleCluster_def)
  moreover have "\<exists>res st'. reconcileRollouts sampleLib sampleCml sampleOrder goneCluster ?r [] True st = Returns (res, st')" for st
    unfolding reconcileRollouts_def using calculation by (auto split: prod.split)
  then obtain res e st' where "reconcileRollouts sampleLib sampleCml sampleOrder goneCluster ?r [] True
      (track (OpDelete (nsName ''obs'' ''a'')) startState) = Returns ((res, e), st')" by (metis surj_pair)
  moreover from this have "res = emptyResult" using open_gate by (rule gate_passes [rotated])
  ultimately have run: "Reconcile sampleLib sampleCml sampleOrder goneCluster ?r ''obs'' ''a'' startState = Returns ((emptyResult, e), st')"
    by (simp add: Reconcile_intent i)
  have "rr_RequeueAfter emptyResult = 0"
    using startup_never_blocks_sweeps [OF pl _ run] dial by (simp add: serving_def halfway_def)
  with pl run show ?thesis by fastforce
qed

text \<open>
  The webhooks come up: unless the process exits or the manager stops, a program with
  certificate rotation that has its certificate can always go on to listen with both
  handlers registered; and if the mutating handler cannot be registered, the set-up of the webhooks
  never ends but in the exit of the process, which stays possible.
\<close>

theorem certificate_brings_webhooks_up:
  assumes "main pf env fl = Inr pl" "lifeReaches pf env pl s" "rotates pl"
    and "lc_CertReady s" "lc_Exit s = None" "lc_Rotation s = AwaitingCert" "\<not> lc_Stopping s"
  shows "if pf_setupPodWebhook pf = None
    then \<exists>s'. (lifeStep pf env)\<^sup>*\<^sup>* s s' \<and> lc_Listening s' \<and> podReady pl s' \<and> lc_Mutating s'
      \<and> lc_Writers s' = Some (parseAllowedWriters (env ''ALLOWED_CONFIGMAP_WRITERS''))
    else (\<exists>s' e. (lifeStep pf env)\<^sup>*\<^sup>* s s' \<and> lc_Exit s' = Some (WebhooksFailed e))
      \<and> (\<forall>s'. (lifeStep pf env)\<^sup>*\<^sup>* s s' \<longrightarrow> lc_Rotation s' \<notin> {MutatingDone, RotationDone})"
proof (cases "pf_setupPodWebhook pf")
  case None
  let ?s1 = "s\<lparr>lc_Rotation := SettingUp\<rparr>"
  let ?s2 = "?s1\<lparr>lc_ServerAdded := True\<rparr>"
  let ?s3 = "?s2\<lparr>lc_Mutating := True, lc_Rotation := MutatingDone\<rparr>"
  let ?s4 = "?s3\<lparr>lc_Writers := Some (parseAllowedWriters (env ''ALLOWED_CONFIGMAP_WRITERS'')), lc_Rotation := RotationDone\<rparr>"
  let ?s5 = "?s4\<lparr>lc_Listening := True\<rparr>"
  have "lifeStep pf env s ?s1" by (rule lifeStep.beginSetup [OF assms(5,6,4)])
  moreover have "lifeStep pf env ?s1 ?s2" by (rule lifeStep.setupRuns [OF _ setupStep.addServer]) (simp_all add: assms(5))
  moreover have "lifeStep pf env ?s2 ?s3"
    by (rule lifeStep.setupRuns [OF _ setupStep.registerMutating]) (simp_all add: assms(5) None)
  moreover have "lifeStep pf env ?s3 ?s4" by (rule lifeStep.setupRuns [OF _ setupStep.registerValidating]) (simp_all add: assms(5))
  moreover have "lifeStep pf env ?s4 ?s5" by (rule lifeStep.listen) (simp_all add: assms(5,7))
  ultimately have "(lifeStep pf env)\<^sup>*\<^sup>* s ?s5" by (meson converse_rtranclp_into_rtranclp rtranclp.rtrancl_refl)
  with None show ?thesis by (auto simp: podReady_def intro!: exI [of _ ?s5])
next
  case (Some e)
  have "lifeStep pf env s (s\<lparr>lc_Rotation := SettingUp\<rparr>)" by (rule lifeStep.beginSetup [OF assms(5,6,4)])
  moreover have "lifeStep pf env (s\<lparr>lc_Rotation := SettingUp\<rparr>)
      (s\<lparr>lc_Rotation := SettingUp, lc_Exit := Some (WebhooksFailed (''setting up Pod webhook: '' @ e))\<rparr>)"
    using lifeStep.setupRuns [OF _ setupStep.registerFails [OF _ Some], of "s\<lparr>lc_Rotation := SettingUp\<rparr>" env] assms(5) by simp
  ultimately have "(lifeStep pf env)\<^sup>*\<^sup>* s
      (s\<lparr>lc_Rotation := SettingUp, lc_Exit := Some (WebhooksFailed (''setting up Pod webhook: '' @ e))\<rparr>)"
    by (meson converse_rtranclp_into_rtranclp rtranclp.rtrancl_refl)
  moreover have "lc_Rotation s' \<notin> {MutatingDone, RotationDone}" if "(lifeStep pf env)\<^sup>*\<^sup>* s s'" for s'
    using lifeReaches_ok [OF lifeReaches_steps [OF that assms(2)] assms(1)] Some by (auto simp: life_ok_def)
  ultimately show ?thesis using Some by (auto intro!: exI)
qed

theorem certificate_brings_webhooks_up_witness:
  "\<exists>pl s'. main samplePlatform rotationEnv rotationFlags = Inr pl \<and> \<not> podReady pl (certified pl)
    \<and> (lifeStep samplePlatform rotationEnv)\<^sup>*\<^sup>* (certified pl) s' \<and> podReady pl s' \<and> lc_Mutating s'"
proof -
  obtain pl p ws where pl: "main samplePlatform rotationEnv rotationFlags = Inr pl" "pl_Registration pl = AfterRotation p ws"
    by (rule rotation_main)
  have "pl_GateOnWebhook pl" using main_gate(1) [OF pl(1)] by (simp add: rotationEnv_def)
  then have "\<not> podReady pl (certified pl)"
    using main_gate(2) [OF pl(1)] by (simp add: podReady_def checksFor_def certified_def startLife_def)
  moreover have "pf_setupPodWebhook samplePlatform = None" by (simp add: samplePlatform_def)
  ultimately show ?thesis
    using certificate_brings_webhooks_up [OF pl(1) certified_reached [OF pl(2)] rotates_simps(3) [OF pl(2)] certified_fields [OF pl(2)]] pl(1)
    by auto
qed

end
