(* ===== verification/PodValidity.thy ===== *)
theory PodValidity
  imports PodWebhook
begin

text \<open>
  Well-formed pods: the rules of the API server's validation that concern the fields the
  injector writes (names of volumes and of all containers are distinct, a container mounts
  only declared volumes and each path once, a variable has a name and not both a value and a
  source). A pod that was valid when it was submitted must still be valid after the webhook,
  or a broken injector would block pods although its failure policy is to ignore failures.
\<close>

section \<open>Validity\<close>

definition env_ok :: "envVar \<Rightarrow> bool" where
  "env_ok v = (ev_Name v \<noteq> '''' \<and> (ev_ValueFrom v \<noteq> None \<longrightarrow> ev_Value v = ''''))"

definition envs_ok :: "container \<Rightarrow> bool" where
  "envs_ok c = (\<forall>v\<in>set (ct_Env c). env_ok v)"

definition mounts_ok :: "string list \<Rightarrow> container \<Rightarrow> bool" where
  "mounts_ok vols c = (distinct (map vm_MountPath (ct_VolumeMounts c)) \<and> vm_Name ` set (ct_VolumeMounts c) \<subseteq> set vols)"

definition container_ok :: "string list \<Rightarrow> container \<Rightarrow> bool" where
  "container_ok vols c = (envs_ok c \<and> mounts_ok vols c)"

definition pod_ok :: "pod \<Rightarrow> bool" where
  "pod_ok p = (let s = pod_Spec p; vols = map vol_Name (ps_Volumes s) in
     distinct vols \<and> distinct (map ct_Name (ps_InitContainers s @ ps_Containers s))
     \<and> (\<forall>c\<in>set (ps_InitContainers s @ ps_Containers s). container_ok vols c))"

text \<open>
  The injector's own names are reserved: no application container is called like the copy
  container, and its mount path and its volume go together.
\<close>

definition reserved_ok :: "pod \<Rightarrow> bool" where
  "reserved_ok p = (injectInitContainerName \<notin> ct_Name ` set (ps_Containers (pod_Spec p))
     \<and> (\<forall>c\<in>set (ps_Containers (pod_Spec p)). \<forall>m\<in>set (ct_VolumeMounts c).
          vm_Name m = injectVolumeName \<longleftrightarrow> vm_MountPath m = internalMountPath))"

definition rules_ok :: "'sel registry \<Rightarrow> bool" where
  "rules_ok reg = (\<forall>k inst. lookupInst reg k = Some inst \<longrightarrow>
     (\<forall>ru\<in>set (instRules inst). \<forall>v\<in>set (rc_Env (rule_Config ru)). env_ok v))"

section \<open>The operations on variables keep them well-formed\<close>

named_theorems env_valid \<open>operations that keep variables well-formed\<close>

lemma envs_ok_upsert: "envs_ok c \<Longrightarrow> env_ok v \<Longrightarrow> envs_ok (c\<lparr>ct_Env := upsert ev_Name v (ct_Env c)\<rparr>)"
  using set_upsert by (fastforce simp: envs_ok_def)

lemma envs_ok_setEvenIfEmpty [env_valid]: "n \<noteq> '''' \<Longrightarrow> envs_ok c \<Longrightarrow> envs_ok (setEnvVarEvenIfEmpty c n v)"
  by (simp add: setEnvVarEvenIfEmpty_upsert envs_ok_upsert env_ok_def)

lemma envs_ok_setEnvVar [env_valid]: "n \<noteq> '''' \<Longrightarrow> envs_ok c \<Longrightarrow> envs_ok (setEnvVar c n v)"
  by (simp add: setEnvVar_def env_valid)

lemma envs_ok_apply [env_valid]: "\<forall>v\<in>set vars. env_ok v \<Longrightarrow> envs_ok c \<Longrightarrow> envs_ok (applyEnvVars c vars)"
proof -
  have "\<forall>v\<in>set vars. env_ok v \<Longrightarrow> \<forall>v\<in>set e. env_ok v \<Longrightarrow> \<forall>v\<in>set (fold (upsert ev_Name) vars e). env_ok v" for e
  proof (induction vars arbitrary: e)
    case (Cons v vars)
    have "\<forall>x\<in>set (upsert ev_Name v e). env_ok x" using Cons.prems set_upsert [of ev_Name v e] by auto
    with Cons show ?case by simp
  qed simp
  then show "\<forall>v\<in>set vars. env_ok v \<Longrightarrow> envs_ok c \<Longrightarrow> envs_ok (applyEnvVars c vars)"
    by (simp add: envs_ok_def applyEnvVars_upsert)
qed

lemma set_deleteAt: "set (deleteAt i xs) \<subseteq> set xs"
  by (auto simp: deleteAt_def dest: in_set_takeD in_set_dropD)

lemma envs_ok_fieldPath [env_valid]: "n \<noteq> '''' \<Longrightarrow> envs_ok c \<Longrightarrow> envs_ok (fst (setEnvVarFromFieldPath c n f))"
  using set_deleteAt [of _ "ct_Env c"]
  by (auto simp: setEnvVarFromFieldPath_eq envs_ok_def set_insertAt fieldBase_def env_ok_def split: option.splits)

lemma envs_ok_inject [env_valid]: "envs_ok c \<Longrightarrow> envs_ok (injectEnvVars extra c)"
proof -
  assume c: "envs_ok c"
  have plain: "envs_ok (setEnvVar c envInjectorOtelExtraResourceAttrs (renderAttrs extra))"
    by (rule envs_ok_setEnvVar [OF _ c]) (simp add: env_name_defs)
  show ?thesis
  proof (cases "findEnvVar c envInjectorOtelExtraResourceAttrs")
    case (Some pos)
    then have "pos < length (ct_Env c)" by (auto simp: findEnvVar_def dest: indexFunc_Some)
    then have "env_ok (ct_Env c ! pos)" using c by (simp add: envs_ok_def)
    then have "env_ok ((ct_Env c ! pos)\<lparr>ev_Value := w\<rparr>)" if "ev_Value (ct_Env c ! pos) \<noteq> ''''" for w
      using that by (auto simp: env_ok_def)
    then have "envs_ok (c\<lparr>ct_Env := (ct_Env c)[pos := (ct_Env c ! pos)\<lparr>ev_Value := w\<rparr>]\<rparr>)"
      if "ev_Value (ct_Env c ! pos) \<noteq> ''''" for w
      using c that by (auto simp: envs_ok_def dest!: subsetD [OF set_update_subset_insert])
    with plain c Some show ?thesis by (simp add: injectEnvVars_def Let_def)
  qed (use plain c in \<open>simp add: injectEnvVars_def\<close>)
qed

lemma envs_ok_disable [env_valid]: "envs_ok c \<Longrightarrow> envs_ok (disableUndesiredSDKs pm c)"
  by (simp add: disableUndesiredSDKs_def supportedSDKLangs_def disableSDK_def env_valid env_name_defs)

lemma envs_ok_instrument:
  assumes "\<forall>v\<in>set vs. env_ok v" "envs_ok c"
  shows "envs_ok (instrumentContainer d pm meta c vs skip)"
proof -
  have "envs_ok (addMount c)" using assms(2) by (simp add: envs_ok_def env_frame)
  then show ?thesis
    using assms(1)
    by (simp add: instrumentContainer_def addEnvVars_stages fixedStage_def fieldStage_def serviceStage_def Let_def
        env_valid env_name_defs)
qed


section \<open>Mounts, volumes and names\<close>

lemma mount_paths:
  "\<forall>m\<in>set ms. vm_Name m = injectVolumeName \<longleftrightarrow> vm_MountPath m = internalMountPath \<Longrightarrow>
    map vm_MountPath (upsert vm_Name injectMount ms) =
      (if injectVolumeName \<in> vm_Name ` set ms then map vm_MountPath ms else map vm_MountPath ms @ [internalMountPath])"
  by (induction ms) (auto simp: injectMount_def)

lemma mounts_ok_addMount:
  assumes "mounts_ok vols c" "set vols \<subseteq> set vols'" "injectVolumeName \<in> set vols'"
    "\<forall>m\<in>set (ct_VolumeMounts c). vm_Name m = injectVolumeName \<longleftrightarrow> vm_MountPath m = internalMountPath"
  shows "mounts_ok vols' (addMount c)"
proof -
  have "distinct (map vm_MountPath (upsert vm_Name injectMount (ct_VolumeMounts c)))"
  proof (cases "injectVolumeName \<in> vm_Name ` set (ct_VolumeMounts c)")
    case True
    then show ?thesis unfolding mount_paths [OF assms(4)] using assms(1) by (simp add: mounts_ok_def)
  next
    case False
    then have "internalMountPath \<notin> vm_MountPath ` set (ct_VolumeMounts c)" using assms(4) by force
    with False show ?thesis unfolding mount_paths [OF assms(4)] using assms(1) by (simp add: mounts_ok_def)
  qed
  moreover have "vm_Name ` set (upsert vm_Name injectMount (ct_VolumeMounts c)) \<subseteq> set vols'"
    using mnt.name_set [of injectMount "ct_VolumeMounts c"] assms(1-3) by (auto simp: mounts_ok_def injectMount_def)
  ultimately show ?thesis by (simp add: mounts_ok_def addMount_upsert)
qed

lemma instrument_mounts: "ct_VolumeMounts (instrumentContainer d pm meta c vs skip) = ct_VolumeMounts (addMount c)"
  by (simp add: instrumentContainer_def addEnvVars_stages env_frame serviceStage_def Let_def)

lemma mounts_ok_more: "mounts_ok vols c \<Longrightarrow> set vols \<subseteq> set vols' \<Longrightarrow> mounts_ok vols' c"
  by (auto simp: mounts_ok_def)

lemma injected_volumes:
  "map vol_Name (ps_Volumes (pod_Spec (injectedPod lib deps rule cfg skip p))) =
    (let vols = map vol_Name (ps_Volumes (pod_Spec p))
     in if injectVolumeName \<in> set vols then vols else vols @ [injectVolumeName])"
proof -
  have "vol_Name (buildVolumeDefinition \<lparr>pm_Cfg = cfg\<rparr>) = injectVolumeName"
    by (simp add: buildVolumeDefinition_def)
  then show ?thesis
    using vol.names_put [of "buildVolumeDefinition \<lparr>pm_Cfg = cfg\<rparr>" "ps_Volumes (pod_Spec p)"]
    by (simp add: injectedPod_def prepareSpec_upsert Let_def)
qed

lemma copy_ok: "injectVolumeName \<in> set vols \<Longrightarrow> container_ok vols (copyInitContainer pm)"
  by (simp add: container_ok_def envs_ok_def mounts_ok_def copyInitContainer_def)

lemma admitted_names:
  "map ct_Name (ps_InitContainers (pod_Spec (injectedPod lib deps rule cfg skip p)))
      \<in> {map ct_Name (ps_InitContainers (pod_Spec p)), map ct_Name (ps_InitContainers (pod_Spec p)) @ [injectInitContainerName]}
    \<and> (injectInitContainerName \<in> ct_Name ` set (ps_InitContainers (pod_Spec p)) \<longrightarrow>
      map ct_Name (ps_InitContainers (pod_Spec (injectedPod lib deps rule cfg skip p))) = map ct_Name (ps_InitContainers (pod_Spec p)))"
  using ctn.names_put [of "copyInitContainer \<lparr>pm_Cfg = cfg\<rparr>" "ps_InitContainers (pod_Spec p)"]
  by (auto simp: injectedPod_inits copyInitContainer_def)

lemma distinct_names:
  "ns' \<in> {ns, ns @ [n]} \<Longrightarrow> n \<in> set ns \<longrightarrow> ns' = ns \<Longrightarrow> n \<notin> set cs \<Longrightarrow> distinct (ns @ cs) \<Longrightarrow> distinct (ns' @ cs)"
  by auto

lemma injectedPod_ok:
  assumes "pod_ok p" "reserved_ok p" "\<forall>v\<in>set (rc_Env (rule_Config rule)). env_ok v"
  shows "pod_ok (injectedPod lib deps rule cfg skip p)"
proof -
  let ?p = "injectedPod lib deps rule cfg skip p"
  let ?vols = "map vol_Name (ps_Volumes (pod_Spec p))" and ?vols' = "map vol_Name (ps_Volumes (pod_Spec ?p))"
  note old = assms(1) [unfolded pod_ok_def Let_def] and res = assms(2) [unfolded reserved_ok_def]
  have vols: "set ?vols \<subseteq> set ?vols'" "injectVolumeName \<in> set ?vols'" "distinct ?vols'"
    using old unfolding injected_volumes Let_def by auto
  have "container_ok ?vols' c" if "c \<in> set (ps_Containers (pod_Spec ?p))" for c
  proof -
    from that obtain c0 where c0: "c0 \<in> set (ps_Containers (pod_Spec p))"
      "c = instrumentContainer deps \<lparr>pm_Cfg = cfg\<rparr> (pod_Meta p) c0 (rc_Env (rule_Config rule)) skip"
      by (auto simp: injectedPod_containers)
    then have ok: "envs_ok c0" "mounts_ok ?vols c0" using old by (auto simp: container_ok_def)
    have "mounts_ok ?vols' (addMount c0)"
      by (rule mounts_ok_addMount [OF ok(2) vols(1,2)]) (use res c0(1) in blast)
    then have "mounts_ok ?vols' c" by (simp add: c0(2) mounts_ok_def instrument_mounts)
    then show ?thesis using envs_ok_instrument [OF assms(3) ok(1)] by (simp add: container_ok_def c0(2))
  qed
  moreover have "container_ok ?vols' c" if "c \<in> set (ps_InitContainers (pod_Spec ?p))" for c
  proof -
    have "c = copyInitContainer \<lparr>pm_Cfg = cfg\<rparr> \<or> c \<in> set (ps_InitContainers (pod_Spec p))"
      using that set_upsert by (fastforce simp: injectedPod_inits split: if_splits)
    then show ?thesis
      using copy_ok [OF vols(2)] old mounts_ok_more [OF _ vols(1)] by (auto simp: container_ok_def)
  qed
  moreover have "distinct (map ct_Name (ps_InitContainers (pod_Spec ?p) @ ps_Containers (pod_Spec ?p)))"
  proof -
    have "map ct_Name (ps_Containers (pod_Spec ?p)) = map ct_Name (ps_Containers (pod_Spec p))"
      by (simp add: injectedPod_containers)
    moreover have "distinct (map ct_Name (ps_InitContainers (pod_Spec ?p)) @ map ct_Name (ps_Containers (pod_Spec p)))"
      by (rule distinct_names [OF conjunct1 [OF admitted_names]])
        (use admitted_names [of lib deps rule cfg skip p] res old in simp_all)
    ultimately show ?thesis by simp
  qed
  ultimately show ?thesis using vols(3) unfolding pod_ok_def Let_def by auto
qed

lemma injectedPod_reserved: "reserved_ok p \<Longrightarrow> reserved_ok (injectedPod lib deps rule cfg skip p)"
  using set_upsert [of vm_Name injectMount]
  by (fastforce simp: reserved_ok_def injectedPod_containers instrument_mounts addMount_upsert injectMount_def)

section \<open>The matched rule comes from the store\<close>

section \<open>Property\<close>

text \<open>
  C14. The webhook turns valid pods into valid pods: if a pod passes the API server's rules for
  names, volumes, mounts and variables, does not use the injector's reserved names for
  itself, and the rules in force carry well-formed variables, then the pod the webhook
  returns passes the same rules, and still keeps to the reserved names, so it can be
  admitted any number of times.
\<close>

theorem Default_preserves_validity:
  fixes lib :: "'sel beylaLib" and d :: "('sel, 'm) podCustomDefaulter"
  assumes "pcd_Mutator d = Some pm" "rules_ok (pcd_Registry d)" "pod_ok p" "reserved_ok p"
    and "Default lib deps d p m = Returns (p', m')"
  shows "pod_ok p' \<and> reserved_ok p'"
proof -
  let ?dec = "decision lib (pcd_Registry d) (pcd_Reader d) (pm_Cfg pm) p"
  have p': "p' = carryOut lib deps (spanSkip lib d p) ?dec p"
    using assms(5) by (simp add: Default_decision [where lib = lib, OF assms(1)])
  show ?thesis
  proof (cases ?dec)
    case (Inject rule eff)
    then obtain cmCfg where "Match (bl_match lib) (pcd_Registry d) (Resolve (pcd_Reader d) p) = Some (rule, cmCfg)"
      using decision_InjectD by blast
    then have "\<forall>v\<in>set (rc_Env (rule_Config rule)). env_ok v"
      using Match_source assms(2) by (fastforce simp: rules_ok_def)
    with Inject injectedPod_ok [where lib = lib and rule = rule, OF assms(3,4)] injectedPod_reserved [where lib = lib, OF assms(4)] show ?thesis by (simp add: p')
  qed (use assms(3,4) in \<open>simp_all add: p'\<close>)
qed

lemma samplePod_ok: "pod_ok samplePod" "reserved_ok samplePod"
  by (simp_all add: pod_ok_def reserved_ok_def samplePod_def container_ok_def envs_ok_def mounts_ok_def emptyContainer_def
      injectInitContainerName_def)

theorem Default_preserves_validity_witness:
  "\<exists>p'. Default sampleLib sampleDeps (sampleDefaulter (Some sampleMutator)) samplePod () = Returns (p', ())
    \<and> IsInstrumented (pod_Meta p') \<and> pod_ok p'"
proof -
  let ?d = "sampleDefaulter (Some sampleMutator)"
  have mut: "pcd_Mutator ?d = Some sampleMutator" by (simp add: sampleDefaulter_def)
  have rules: "rules_ok (pcd_Registry ?d)"
    by (auto simp: rules_ok_def sampleDefaulter_def sampleRegistry_def lookupInst_def instRules_def sampleInst_def split: if_split_asm)
  have dec: "decision sampleLib (pcd_Registry ?d) (pcd_Reader ?d) (pm_Cfg sampleMutator) samplePod = Inject sampleRule (sampleSDK ''1'')"
    by (simp add: sampleDefaulter_def sampleMutator_def sample_decision)
  have run: "Default sampleLib sampleDeps ?d samplePod ()
      = Returns (injectedPod sampleLib sampleDeps sampleRule (sampleSDK ''1'') (spanSkip sampleLib ?d samplePod) samplePod, ())"
    unfolding Default_decision [where lib = sampleLib, OF mut] dec by simp
  from Default_preserves_validity [OF mut rules samplePod_ok run] run show ?thesis
    by (auto intro: InjectedAnnotation_kept)
qed

end
