(* ===== verification/Trust.thy ===== *)
theory Trust
  imports Lifecycle PodValidity
begin

text \<open>
  Who steers the injection: the parts of the started program together, with the API server
  between them. ConfigMaps reach the API server through the validating webhook
  (\<open>internal/webhook/v1/configmap_webhook.go\<close>), unless they are of another namespace than the
  watched one or the match conditions of the webhook configuration exempt them, which is a
  parameter here (the manifests exempt the name \<open>kube-root-ca.crt\<close>); the controller reads those
  of the watched namespace, possibly stale and in any order, into the registry; pods are admitted against it. One run of the whole is a sequence of such steps.

  The lemmas follow a rule from the pod it was injected into back to the user who wrote it.
\<close>

section \<open>The system\<close>

record 'sel system =
  sy_Writes :: "(userInfo \<times> configMap) list"
  sy_Answers :: "cluster list"
  sy_Controller :: "'sel controllerState"
  sy_Admitted :: "(pod \<times> pod) list"

definition startSystem :: "'sel system" where
  "startSystem = \<lparr>sy_Writes = [], sy_Answers = [], sy_Controller = \<lparr>cs_Registry = RegistryNew, cs_Metrics = NewSDKInjectionMetrics, cs_Patches = []\<rparr>,
     sy_Admitted = []\<rparr>"

text \<open>
  What the controller reads was written at some time, under the name it is read by and in the
  namespace its cache is restricted to.
\<close>

definition sees :: "string \<Rightarrow> (userInfo \<times> configMap) list \<Rightarrow> cluster \<Rightarrow> bool" where
  "sees watch ws cl = ((\<forall>ns name cm. cl_getConfigMap cl ns name = Found cm \<longrightarrow> cm \<in> snd ` set ws \<and> cmObjectKey cm = nsName ns name
       \<and> om_Namespace (cm_Meta cm) = watch)
     \<and> (\<forall>cms. cl_listConfigMaps cl = Inr cms \<longrightarrow> set cms \<subseteq> {cm \<in> snd ` set ws. om_Namespace (cm_Meta cm) = watch}))"

inductive systemStep :: "'sel beylaLib \<Rightarrow> 'sel cmLib \<Rightarrow> mutatorDeps \<Rightarrow> plan \<Rightarrow> 'raw configMapValidator
    \<Rightarrow> (configMap \<Rightarrow> bool) \<Rightarrow> 'sel system \<Rightarrow> 'sel system \<Rightarrow> bool"
  for lib cml deps pl v exempt where
  checkedWrite: "Handle (cml_SelectorAnnotation cml) v req = Allowed msg \<Longrightarrow> cv_decoder v (ar_Object req) = Inr cm
    \<Longrightarrow> systemStep lib cml deps pl v exempt s (s\<lparr>sy_Writes := sy_Writes s @ [(ar_UserInfo req, cm)]\<rparr>)"
| exemptWrite: "exempt cm \<Longrightarrow> systemStep lib cml deps pl v exempt s (s\<lparr>sy_Writes := sy_Writes s @ [(user, cm)]\<rparr>)"
| foreignWrite: "om_Namespace (cm_Meta cm) \<noteq> pl_WatchNamespace pl
    \<Longrightarrow> systemStep lib cml deps pl v exempt s (s\<lparr>sy_Writes := sy_Writes s @ [(user, cm)]\<rparr>)"
| reconcile: "range_ok ro \<Longrightarrow> lists_ok cl \<Longrightarrow> sees (pl_WatchNamespace pl) (sy_Writes s) cl
    \<Longrightarrow> Reconcile lib cml ro cl (wiredReconciler pl started) ns name (sy_Controller s) = Returns (res, st')
    \<Longrightarrow> systemStep lib cml deps pl v exempt s (s\<lparr>sy_Answers := sy_Answers s @ [cl], sy_Controller := st'\<rparr>)"
| admit: "Default lib deps (wiredDefaulter pl (cs_Registry (sy_Controller s)) rd) p (cs_Metrics (sy_Controller s)) = Returns (p', m')
    \<Longrightarrow> systemStep lib cml deps pl v exempt s
      (s\<lparr>sy_Controller := (sy_Controller s)\<lparr>cs_Metrics := m'\<rparr>, sy_Admitted := sy_Admitted s @ [(p, p')]\<rparr>)"

inductive_cases systemStepE: "systemStep lib cml deps pl v exempt s s'"

inductive systemReaches :: "'sel beylaLib \<Rightarrow> 'sel cmLib \<Rightarrow> mutatorDeps \<Rightarrow> plan \<Rightarrow> 'raw configMapValidator
    \<Rightarrow> (configMap \<Rightarrow> bool) \<Rightarrow> 'sel system \<Rightarrow> bool"
  for lib cml deps pl v exempt where
  start: "systemReaches lib cml deps pl v exempt startSystem"
| more: "systemReaches lib cml deps pl v exempt s \<Longrightarrow> systemStep lib cml deps pl v exempt s s'
    \<Longrightarrow> systemReaches lib cml deps pl v exempt s'"

section \<open>From a rule back to its author\<close>

text \<open>The ConfigMap is annotated and its payload is this contribution.\<close>

definition publishes :: "'sel cmLib \<Rightarrow> configMap \<Rightarrow> 'sel instrumentation \<Rightarrow> bool" where
  "publishes cml cm inst = (hasSelectorAnnotation cml (cm_Meta cm)
     \<and> (\<exists>ts. parseConfigMap cml (cm_Data cm) = Returns (Inr (inst, ts))))"

definition writtenBy :: "'sel cmLib \<Rightarrow> string \<Rightarrow> (userInfo \<times> configMap) list \<Rightarrow> userInfo \<Rightarrow> configMap \<Rightarrow> 'sel instrumentation \<Rightarrow> bool" where
  "writtenBy cml watch ws user cm inst = ((user, cm) \<in> set ws \<and> om_Namespace (cm_Meta cm) = watch \<and> publishes cml cm inst)"

lemma contributes_publishes: "contributes cml cl cm = Some inst \<Longrightarrow> publishes cml cm inst"
  by (auto simp: contributes_def publishes_def split: if_split_asm goRun.split_asm sum.split_asm)

text \<open>One reconciliation adds nothing to the registry but what was written.\<close>

lemma Reconcile_source:
  assumes "Reconcile lib cml ro cl r ns name st = Returns (res, st')" "registry_ok (cs_Registry st)" "range_ok ro" "lists_ok cl"
    "sees watch ws cl" "lookupInst (cs_Registry st') k = Some i"
  shows "lookupInst (cs_Registry st) k = Some i \<or> (\<exists>user cm. cmObjectKey cm = k \<and> writtenBy cml watch ws user cm i)"
proof (cases "\<exists>e. cl_getConfigMap cl ns name = GetErr e")
  case True
  with assms(1,6) show ?thesis by (auto simp: Reconcile_GetErr)
next
  case False
  have own: "\<exists>user cm. cmObjectKey cm = nsName ns name \<and> writtenBy cml watch ws user cm i"
    if "ownContribution cml cl ns name = Some i"
  proof -
    from that obtain cm where "cl_getConfigMap cl ns name = Found cm" "contributes cml cl cm = Some i"
      by (auto simp: ownContribution_def keepLive_def split: getResult.split_asm option.split_asm if_split_asm)
    with assms(5) contributes_publishes show ?thesis by (fastforce simp: sees_def writtenBy_def)
  qed
  from Reconcile_registry [OF assms(1-4)] False obtain reg1 where
    reg1: "lookupInst reg1 = (lookupInst (cs_Registry st))(nsName ns name := ownContribution cml cl ns name)"
      "cs_Registry st' = reg1 \<or> (\<exists>e. refreshRegistry cml cl reg1 = Returns (e, cs_Registry st'))" by blast
  have "lookupInst reg1 k = Some i
      \<or> (\<exists>cms. cl_listConfigMaps cl = Inr cms \<and> (\<exists>cm\<in>set cms. cmObjectKey cm = k \<and> contributes cml cl cm = Some i))"
    using reg1(2) assms(6) refresh_source by blast
  then show ?thesis
  proof
    assume "lookupInst reg1 k = Some i"
    with own reg1(1) show ?thesis by (auto split: if_split_asm)
  next
    assume "\<exists>cms. cl_listConfigMaps cl = Inr cms \<and> (\<exists>cm\<in>set cms. cmObjectKey cm = k \<and> contributes cml cl cm = Some i)"
    then obtain cms cm where cm: "cl_listConfigMaps cl = Inr cms" "cm \<in> set cms" "cmObjectKey cm = k" "contributes cml cl cm = Some i"
      by blast
    with assms(5) obtain user where "(user, cm) \<in> set ws" "om_Namespace (cm_Meta cm) = watch"
      by (fastforce simp: sees_def)
    with cm(3) contributes_publishes [OF cm(4)] show ?thesis unfolding writtenBy_def by blast
  qed
qed

text \<open>Only a decision to inject changes a pod, and it takes rule and settings from one entry of the registry.\<close>

lemma injection_source:
  fixes lib :: "'sel beylaLib"
  assumes "Default lib deps (wiredDefaulter pl reg rd) p m = Returns (p', m')" "p' \<noteq> p"
  shows "\<exists>k inst rule skip. lookupInst reg k = Some inst \<and> rule \<in> set (instRules inst)
    \<and> p' = injectedPod lib deps rule (WithConfigMapOverrides (pl_SDKConfig pl) (InjectConfig inst)) skip p"
proof -
  have p': "p' = carryOut lib deps (spanSkip lib (wiredDefaulter pl reg rd) p) (decision lib reg rd (pl_SDKConfig pl) p) p"
    using assms(1) Default_decision [where lib = lib, OF wiredDefaulter_fields(3)] by simp
  then obtain rule eff where d: "decision lib reg rd (pl_SDKConfig pl) p = Inject rule eff"
    using assms(2) by (cases "decision lib reg rd (pl_SDKConfig pl) p") auto
  then obtain c where "Match (bl_match lib) reg (Resolve rd p) = Some (rule, c)" "eff = WithConfigMapOverrides (pl_SDKConfig pl) c"
    using decision_InjectD by blast
  with Match_source p' d show ?thesis by fastforce
qed

text \<open>A sweep restarts nothing but what it was asked for.\<close>

lemma sweep_keys:
  assumes "rolloutMatching lib ro cl r targets c st = (e, st')" "range_ok ro"
  shows "\<exists>keys. cs_Patches st' = cs_Patches st @ map (\<lambda>k. (k, restartPatch (cl_now cl))) keys
    \<and> (\<forall>k\<in>set keys. if c then \<exists>items. cl_listPods cl = Inr items \<and> k \<in> cleanupWorkloads lib (cs_Registry st) cl items
        else k \<in> targetedWorkloads lib (cs_Registry st) cl (cr_DefaultSDKConfig r) targets)"
proof (cases c)
  case True
  show ?thesis
  proof (cases "cl_listPods cl")
    case (Inl m)
    with assms(1) True show ?thesis by (intro exI [of _ "[]"]) (auto simp: rolloutMatching_def)
  next
    case (Inr items)
    from cleanup_sweep [OF assms(2) this, where st = st and lib = lib and r = r and targets = targets] obtain keys where
      "sentFor cl st st' keys" "set keys = cleanupWorkloads lib (cs_Registry st) cl items" using assms(1) True by auto
    with True Inr show ?thesis by (intro exI [of _ keys]) (simp add: sentFor_def)
  qed
next
  case False
  let ?f = "podRollout lib (cr_DefaultSDKConfig r) (cs_Registry st) (cl_reader cl) False"
  let ?nss = "ro_namespaces ro (groupTargets targets [])"
  show ?thesis
  proof (cases "collectNamespaces ?f (cl_listPodsIn cl) ?nss []")
    case (Inl m)
    with assms(1) False show ?thesis by (intro exI [of _ "[]"]) (auto simp: targeted_eq)
  next
    case (Inr ks)
    have "set ?nss = set (groupTargets targets [])" using range_ok_set [OF assms(2)] by blast
    then have "\<forall>k\<in>set ks. k \<in> targetedWorkloads lib (cs_Registry st) cl (cr_DefaultSDKConfig r) targets"
      using collectNamespaces_set [OF Inr] targeted_asked [of targets lib "cr_DefaultSDKConfig r" "cs_Registry st" cl] by simp
    moreover have "sentFor cl st st' (ro_workloads ro ks)"
      using patchLoop_sentFor [OF assms(2), of ks cl st "[]"] collected_keys [OF Inr] assms(1) False Inr
      by (simp add: targeted_eq case_prod_unfold Let_def)
    ultimately show ?thesis
      using False range_ok_set [OF assms(2)] by (intro exI [of _ "ro_workloads ro ks"]) (simp add: sentFor_def)
  qed
qed

text \<open>Some pod that the API listed called for the restart: an injected one, or one that a ConfigMap names.\<close>

definition restartCause :: "'sel cmLib \<Rightarrow> string \<Rightarrow> (userInfo \<times> configMap) list \<Rightarrow> cluster \<Rightarrow> workloadKey \<Rightarrow> bool" where
  "restartCause cml watch ws cl k = (\<exists>p. rollable (cl_reader cl) p \<and> k = resolveWorkload (Resolve (cl_reader cl) p)
     \<and> ((\<exists>items. cl_listPods cl = Inr items \<and> p \<in> set items \<and> IsInstrumented (pod_Meta p))
       \<or> (\<exists>items user cm inst ts t. (user, cm) \<in> set ws \<and> om_Namespace (cm_Meta cm) = watch
           \<and> hasSelectorAnnotation cml (cm_Meta cm) \<and> parseConfigMap cml (cm_Data cm) = Returns (Inr (inst, ts))
           \<and> t \<in> set ts \<and> cl_listPodsIn cl (tc_Namespace t) = Inr items \<and> p \<in> set items
           \<and> matchesTarget (Resolve (cl_reader cl) p) t)))"

lemma restartCause_append: "restartCause cml watch ws cl k \<Longrightarrow> restartCause cml watch (ws @ ws') cl k"
  unfolding restartCause_def by (simp only: set_append Un_iff) blast

lemma pass_causes:
  assumes "Reconcile lib cml ro cl r ns name st = Returns (res, st')" "range_ok ro" "sees watch ws cl"
  shows "\<exists>keys. cs_Patches st' = cs_Patches st @ map (\<lambda>k. (k, restartPatch (cl_now cl))) keys
    \<and> (\<forall>k\<in>set keys. restartCause cml watch ws cl k)"
proof -
  have quiet: ?thesis if "cs_Patches st' = cs_Patches st" using that by (intro exI [of _ "[]"]) simp
  show ?thesis
  proof (cases "intentOf cml cl ns name")
    case (Sweep oper targets c)
    then have rec: "reconcileRollouts lib cml ro cl r targets c (track oper st) = Returns (res, st')"
      using assms(1) by (simp add: Reconcile_intent)
    have same: "cs_Patches (track oper st) = cs_Patches st" by (simp add: track_def)
    from rec show ?thesis
    proof (cases rule: reconcileRollouts_shape)
      case (failed e)
      then have "cs_Patches st' = cs_Patches (track oper st)"
        by (metis controllerState.select_convs(3) controllerState.surjective controllerState.update_convs(1))
      with same show ?thesis by (intro quiet) simp
    next
      case (swept reg)
      obtain e where "rolloutMatching lib ro cl r targets c ((track oper st)\<lparr>cs_Registry := reg\<rparr>) = (e, st')"
        using swept(2) by (cases "rolloutMatching lib ro cl r targets c ((track oper st)\<lparr>cs_Registry := reg\<rparr>)") simp
      from sweep_keys [OF this assms(2)] same obtain keys where
        patches: "cs_Patches st' = cs_Patches st @ map (\<lambda>k. (k, restartPatch (cl_now cl))) keys"
        and why: "\<And>k. k \<in> set keys \<Longrightarrow> if c then \<exists>items. cl_listPods cl = Inr items \<and> k \<in> cleanupWorkloads lib reg cl items
          else k \<in> targetedWorkloads lib reg cl (cr_DefaultSDKConfig r) targets" by (cases c; simp; blast)
      have "restartCause cml watch ws cl k" if k: "k \<in> set keys" for k
      proof (cases c)
        case True
        with why [OF k] show ?thesis by (auto simp: cleanupWorkloads_def restartCause_def)
      next
        case False
        then obtain cm inst where cm: "cl_getConfigMap cl ns name = Found cm" "hasSelectorAnnotation cml (cm_Meta cm)"
          "parseConfigMap cml (cm_Data cm) = Returns (Inr (inst, targets))"
          using Sweep by (auto simp: intentOf_def split: getResult.split_asm if_split_asm goRun.split_asm sum.split_asm prod.split_asm)
        then obtain user where "(user, cm) \<in> set ws" "om_Namespace (cm_Meta cm) = watch"
          using assms(3) by (fastforce simp: sees_def)
        with why [OF k] False cm(2,3) show ?thesis unfolding targetedWorkloads_def restartCause_def by simp blast
      qed
      with patches show ?thesis by blast
    qed (use same in \<open>auto intro: quiet\<close>)
  qed (use assms(1) in \<open>auto simp: Reconcile_intent track_def intro: quiet\<close>)
qed

section \<open>What holds along a run\<close>

definition trusted :: "string \<Rightarrow> 'raw configMapValidator \<Rightarrow> (configMap \<Rightarrow> bool) \<Rightarrow> userInfo \<Rightarrow> configMap \<Rightarrow> bool" where
  "trusted watch v exempt user cm = (om_Namespace (cm_Meta cm) = watch \<longrightarrow> authorized v user \<or> exempt cm)"

definition registry_from :: "'sel cmLib \<Rightarrow> string \<Rightarrow> (userInfo \<times> configMap) list \<Rightarrow> 'sel registry \<Rightarrow> bool" where
  "registry_from cml watch ws reg = (\<forall>k inst. lookupInst reg k = Some inst
     \<longrightarrow> (\<exists>user cm. cmObjectKey cm = k \<and> writtenBy cml watch ws user cm inst))"

definition injected_from :: "'sel beylaLib \<Rightarrow> 'sel cmLib \<Rightarrow> mutatorDeps \<Rightarrow> plan \<Rightarrow> (userInfo \<times> configMap) list
    \<Rightarrow> pod \<Rightarrow> pod \<Rightarrow> bool" where
  "injected_from lib cml deps pl ws p p' = (\<exists>user cm inst rule skip. writtenBy cml (pl_WatchNamespace pl) ws user cm inst \<and> rule \<in> set (instRules inst)
     \<and> p' = injectedPod lib deps rule (WithConfigMapOverrides (pl_SDKConfig pl) (InjectConfig inst)) skip p)"

definition system_ok :: "'sel beylaLib \<Rightarrow> 'sel cmLib \<Rightarrow> mutatorDeps \<Rightarrow> plan \<Rightarrow> 'raw configMapValidator
    \<Rightarrow> (configMap \<Rightarrow> bool) \<Rightarrow> 'sel system \<Rightarrow> bool" where
  "system_ok lib cml deps pl v exempt s =
    (registry_ok (cs_Registry (sy_Controller s))
     \<and> (\<forall>(user, cm)\<in>set (sy_Writes s). hasSelectorAnnotation cml (cm_Meta cm) \<longrightarrow> trusted (pl_WatchNamespace pl) v exempt user cm)
     \<and> registry_from cml (pl_WatchNamespace pl) (sy_Writes s) (cs_Registry (sy_Controller s))
     \<and> (\<forall>(p, p')\<in>set (sy_Admitted s). p' \<noteq> p \<longrightarrow> injected_from lib cml deps pl (sy_Writes s) p p')
     \<and> (\<forall>k patch. (k, patch) \<in> set (cs_Patches (sy_Controller s))
         \<longrightarrow> (\<exists>cl\<in>set (sy_Answers s). restartCause cml (pl_WatchNamespace pl) (sy_Writes s) cl k)))"

lemma writtenBy_append: "writtenBy cml watch ws user cm inst \<Longrightarrow> writtenBy cml watch (ws @ ws') user cm inst"
  by (simp add: writtenBy_def)

lemma registry_from_append: "registry_from cml watch ws reg \<Longrightarrow> registry_from cml watch (ws @ ws') reg"
  unfolding registry_from_def using writtenBy_append by blast

lemma injected_from_append: "injected_from lib cml deps pl ws p p' \<Longrightarrow> injected_from lib cml deps pl (ws @ ws') p p'"
  unfolding injected_from_def using writtenBy_append by blast

lemma system_ok_write:
  assumes "system_ok lib cml deps pl v exempt s" "hasSelectorAnnotation cml (cm_Meta cm) \<Longrightarrow> trusted (pl_WatchNamespace pl) v exempt user cm"
  shows "system_ok lib cml deps pl v exempt (s\<lparr>sy_Writes := sy_Writes s @ [(user, cm)]\<rparr>)"
  using assms registry_from_append injected_from_append restartCause_append unfolding system_ok_def by fastforce

lemma Handle_trusted:
  assumes "Handle (cml_SelectorAnnotation cml) v req = Allowed msg" "cv_decoder v (ar_Object req) = Inr cm"
    "hasSelectorAnnotation cml (cm_Meta cm)"
  shows "authorized v (ar_UserInfo req)"
  using assms by (auto simp: Handle_def hasSelectorAnnotation_def split: if_split_asm)

lemma systemStep_ok:
  assumes "systemStep lib cml deps pl v exempt s s'" "system_ok lib cml deps pl v exempt s"
  shows "system_ok lib cml deps pl v exempt s'"
  using assms(1)
proof (rule systemStepE)
  fix req msg cm
  assume h: "Handle (cml_SelectorAnnotation cml) v req = Allowed msg" "cv_decoder v (ar_Object req) = Inr cm"
    and s': "s' = s\<lparr>sy_Writes := sy_Writes s @ [(ar_UserInfo req, cm)]\<rparr>"
  show ?thesis unfolding s' by (rule system_ok_write [OF assms(2)]) (simp add: trusted_def Handle_trusted [OF h])
next
  fix cm user
  assume "exempt cm" and s': "s' = s\<lparr>sy_Writes := sy_Writes s @ [(user, cm)]\<rparr>"
  then show ?thesis unfolding s' by (intro system_ok_write [OF assms(2)]) (simp add: trusted_def)
next
  fix cm user
  assume "om_Namespace (cm_Meta cm) \<noteq> pl_WatchNamespace pl" and s': "s' = s\<lparr>sy_Writes := sy_Writes s @ [(user, cm)]\<rparr>"
  then show ?thesis unfolding s' by (intro system_ok_write [OF assms(2)]) (simp add: trusted_def)
next
  fix ro cl started ns name res st'
  assume c: "range_ok ro" "lists_ok cl" "sees (pl_WatchNamespace pl) (sy_Writes s) cl"
    and rec: "Reconcile lib cml ro cl (wiredReconciler pl started) ns name (sy_Controller s) = Returns (res, st')"
    and s': "s' = s\<lparr>sy_Answers := sy_Answers s @ [cl], sy_Controller := st'\<rparr>"
  have ok: "registry_ok (cs_Registry (sy_Controller s))" "registry_from cml (pl_WatchNamespace pl) (sy_Writes s) (cs_Registry (sy_Controller s))"
    using assms(2) by (simp_all add: system_ok_def)
  have "registry_ok (cs_Registry st')"
    using step_safe [OF controllerStep.pass [OF c(1,2) rec] ok(1)] by blast
  moreover have "registry_from cml (pl_WatchNamespace pl) (sy_Writes s) (cs_Registry st')"
    using Reconcile_source [OF rec ok(1) c] ok(2) unfolding registry_from_def by blast
  moreover have "\<exists>cl\<in>set (sy_Answers s'). restartCause cml (pl_WatchNamespace pl) (sy_Writes s) cl k"
    if k: "(k, patch) \<in> set (cs_Patches st')" for k patch
  proof (cases "(k, patch) \<in> set (cs_Patches (sy_Controller s))")
    case True
    with assms(2) have "\<exists>cl\<in>set (sy_Answers s). restartCause cml (pl_WatchNamespace pl) (sy_Writes s) cl k"
      unfolding system_ok_def by blast
    then show ?thesis by (auto simp: s')
  next
    case False
    with pass_causes [OF rec c(1,3)] k show ?thesis by (auto simp: s')
  qed
  ultimately show ?thesis using assms(2) by (simp add: system_ok_def s')
next
  fix rd p p' m'
  assume adm: "Default lib deps (wiredDefaulter pl (cs_Registry (sy_Controller s)) rd) p (cs_Metrics (sy_Controller s)) = Returns (p', m')"
    and s': "s' = s\<lparr>sy_Controller := (sy_Controller s)\<lparr>cs_Metrics := m'\<rparr>, sy_Admitted := sy_Admitted s @ [(p, p')]\<rparr>"
  have "injected_from lib cml deps pl (sy_Writes s) p p'" if "p' \<noteq> p"
    using injection_source [OF adm that] assms(2) unfolding injected_from_def system_ok_def registry_from_def by blast
  with assms(2) show ?thesis by (auto simp: system_ok_def s')
qed

lemma systemReaches_ok: "systemReaches lib cml deps pl v exempt s \<Longrightarrow> system_ok lib cml deps pl v exempt s"
proof (induction rule: systemReaches.induct)
  case start
  show ?case by (simp add: system_ok_def startSystem_def registry_from_def reg.lookup_empty reg.invar_empty)
qed (rule systemStep_ok)

lemma main_validator:
  assumes "main pf env fl = Inr pl" "wiredValidator pl decode = Some v"
  shows "v = NewConfigMapValidator decode (parseAllowedWriters (env ''ALLOWED_CONFIGMAP_WRITERS''))"
proof -
  obtain regd where reg: "registerWebhooks pf env fl (env ''ENABLE_WEBHOOKS'' \<noteq> ''false'') = Inr regd"
    and "pl_Registration pl = regd"
    using assms(1) by (rule main_plan) (simp add: planFor_def)
  then show ?thesis
    using assms(2) registerWebhooks_cases [OF reg]
    by (cases "fl_enableCertRotation fl"; cases "env ''ENABLE_WEBHOOKS'' = ''false''") (auto simp: wiredValidator_def)
qed

section \<open>Properties\<close>

text \<open>
  C4. Only trusted authors steer the injection: in any run of a program started with its webhooks,
  with any reads of the API however stale and any order of writes, reconciliations and
  admissions, a pod that the webhook changed was injected with a rule, and with settings,
  that some annotated ConfigMap of the watched namespace published, and the user who wrote that
  ConfigMap is on the allow list of the environment or a member of the break-glass group,
  unless the webhook configuration exempts the ConfigMap from the check. ConfigMaps of other
  namespaces, which nobody checks, have no influence.
\<close>

theorem injections_are_authorized:
  assumes "main pf env fl = Inr pl" "wiredValidator pl decode = Some v" "systemReaches lib cml deps pl v exempt s"
    and "(p, p') \<in> set (sy_Admitted s)" "p' \<noteq> p"
  shows "\<exists>user cm inst rule skip. (user, cm) \<in> set (sy_Writes s) \<and> om_Namespace (cm_Meta cm) = pl_WatchNamespace pl
    \<and> publishes cml cm inst \<and> rule \<in> set (instRules inst)
    \<and> p' = injectedPod lib deps rule (WithConfigMapOverrides (pl_SDKConfig pl) (InjectConfig inst)) skip p
    \<and> (exempt cm \<or> breakGlassGroup \<in> set (ui_Groups user)
      \<or> ui_Username user \<in> set (parseAllowedWriters (env ''ALLOWED_CONFIGMAP_WRITERS'')))"
proof -
  note ok = systemReaches_ok [OF assms(3), unfolded system_ok_def]
  from ok assms(4,5) have "injected_from lib cml deps pl (sy_Writes s) p p'" by blast
  then obtain user cm inst rule skip where w: "writtenBy cml (pl_WatchNamespace pl) (sy_Writes s) user cm inst" "rule \<in> set (instRules inst)"
    "p' = injectedPod lib deps rule (WithConfigMapOverrides (pl_SDKConfig pl) (InjectConfig inst)) skip p"
    unfolding injected_from_def by blast
  then have "trusted (pl_WatchNamespace pl) v exempt user cm" using ok by (auto simp: writtenBy_def publishes_def)
  then have "exempt cm \<or> breakGlassGroup \<in> set (ui_Groups user)
      \<or> ui_Username user \<in> set (parseAllowedWriters (env ''ALLOWED_CONFIGMAP_WRITERS''))"
    using w(1) by (auto simp: trusted_def writtenBy_def main_validator [OF assms(1,2)] authorized_iff)
  with w show ?thesis unfolding writtenBy_def by blast
qed

text \<open>
  C10. Only trusted authors cause restarts: in any such run, every restart the controller asked for
  goes back to a live pod of that workload which the API had listed, and that pod carried the
  injector's own annotation, or some annotated ConfigMap of the watched namespace, written by a
  user on the allow list or of the break-glass group (or exempt from the check), listed a target
  that names it. Nobody else can have the workload of a pod restarted that was never injected.
\<close>

theorem restarts_are_authorized:
  assumes "main pf env fl = Inr pl" "wiredValidator pl decode = Some v" "systemReaches lib cml deps pl v exempt s"
    and "(k, patch) \<in> set (cs_Patches (sy_Controller s))"
  shows "\<exists>cl\<in>set (sy_Answers s). \<exists>p. rollable (cl_reader cl) p \<and> k = resolveWorkload (Resolve (cl_reader cl) p)
    \<and> ((\<exists>items. cl_listPods cl = Inr items \<and> p \<in> set items \<and> IsInstrumented (pod_Meta p))
      \<or> (\<exists>items user cm inst ts t. (user, cm) \<in> set (sy_Writes s) \<and> om_Namespace (cm_Meta cm) = pl_WatchNamespace pl
          \<and> parseConfigMap cml (cm_Data cm) = Returns (Inr (inst, ts)) \<and> t \<in> set ts
          \<and> cl_listPodsIn cl (tc_Namespace t) = Inr items \<and> p \<in> set items \<and> matchesTarget (Resolve (cl_reader cl) p) t
          \<and> (exempt cm \<or> breakGlassGroup \<in> set (ui_Groups user)
            \<or> ui_Username user \<in> set (parseAllowedWriters (env ''ALLOWED_CONFIGMAP_WRITERS'')))))"
proof -
  note ok = systemReaches_ok [OF assms(3), unfolded system_ok_def]
  have author: "exempt cm \<or> breakGlassGroup \<in> set (ui_Groups user)
      \<or> ui_Username user \<in> set (parseAllowedWriters (env ''ALLOWED_CONFIGMAP_WRITERS''))"
    if "(user, cm) \<in> set (sy_Writes s)" "om_Namespace (cm_Meta cm) = pl_WatchNamespace pl" "hasSelectorAnnotation cml (cm_Meta cm)" for user cm
    using ok that by (auto simp: trusted_def main_validator [OF assms(1,2)] authorized_iff)
  from ok assms(4) obtain cl where cl: "cl \<in> set (sy_Answers s)" "restartCause cml (pl_WatchNamespace pl) (sy_Writes s) cl k"
    by blast
  show ?thesis by (rule bexI [OF _ cl(1)]) (use cl(2) author in \<open>unfold restartCause_def, blast\<close>)
qed

theorem restarts_are_authorized_witness:
  "\<exists>pl s k patch. main samplePlatform rotationEnv rotationFlags = Inr pl
    \<and> systemReaches sampleLib sampleCml sampleDeps pl (NewConfigMapValidator Inr [''beyla'']) (\<lambda>_. False) s
    \<and> (k, patch) \<in> set (cs_Patches (sy_Controller s))
    \<and> (\<exists>cl\<in>set (sy_Answers s). \<exists>p. rollable (cl_reader cl) p \<and> k = resolveWorkload (Resolve (cl_reader cl) p))"
proof -
  obtain pl q ws where pl: "main samplePlatform rotationEnv rotationFlags = Inr pl" "pl_Registration pl = AfterRotation q ws"
    and cfg: "pl_SDKConfig pl = resolveInjectionMode (pf_serverVersion samplePlatform) (SetDefaults (pf_parseLang samplePlatform) zeroSDKInject)"
    by (rule rotation_main)
  let ?v = "NewConfigMapValidator Inr [''beyla''] :: configMap configMapValidator"
  let ?s0 = "startSystem :: string system"
  have v: "wiredValidator pl Inr = Some ?v"
    using main_validator [OF pl(1)] pl(2) rotation_writers by (simp add: wiredValidator_def)
  have "\<not> sd_NoAutoRestart (pl_SDKConfig pl)"
    by (simp add: cfg resolveInjectionMode_def SetDefaults_def zeroSDKInject_def samplePlatform_def)
  then have "\<exists>res st'. Reconcile sampleLib sampleCml sampleOrder goneCluster (wiredReconciler pl None) ''obs'' ''a'' startState = Returns (res, st')
      \<and> cs_Patches st' \<noteq> []"
    by (intro cleanup_pass) (simp_all add: wiredReconciler_def)
  then obtain res st' where st': "Reconcile sampleLib sampleCml sampleOrder goneCluster (wiredReconciler pl None) ''obs'' ''a'' (sy_Controller ?s0)
      = Returns (res, st')" "cs_Patches st' \<noteq> []" by (auto simp: startSystem_def startState_def)
  have "sees (pl_WatchNamespace pl) (sy_Writes ?s0) goneCluster"
    by (simp add: sees_def goneCluster_def sampleCluster_def)
  from systemReaches.more [OF systemReaches.start systemStep.reconcile [OF sampleOrder_ok goneCluster_lists this st'(1)]]
  have run: "systemReaches sampleLib sampleCml sampleDeps pl ?v (\<lambda>_. False) (?s0\<lparr>sy_Answers := sy_Answers ?s0 @ [goneCluster], sy_Controller := st'\<rparr>)" .
  obtain k patch where k: "(k, patch) \<in> set (cs_Patches st')" using st'(2) by (cases "cs_Patches st'") auto
  with restarts_are_authorized [OF pl(1) v run, of k patch] pl(1) run show ?thesis by fastforce
qed

section \<open>A run\<close>

text \<open>A ConfigMap with the given name is written, read by the controller, and a pod is admitted.\<close>

definition namedCM :: "string \<Rightarrow> configMap" where
  "namedCM n = selectorCM\<lparr>cm_Meta := (cm_Meta selectorCM)\<lparr>om_Name := n\<rparr>\<rparr>"

definition namedCluster :: "string \<Rightarrow> cluster" where
  "namedCluster n = sampleCluster\<lparr>cl_getConfigMap := (\<lambda>ns name. if ns = ''obs'' \<and> name = n then Found (namedCM n) else NotFound),
     cl_listConfigMaps := Inr [namedCM n]\<rparr>"

lemma namedCM_key: "cmObjectKey (namedCM n) = nsName ''obs'' n"
  by (simp add: cmObjectKey_def namedCM_def selectorCM_def)

lemma named_pass:
  "Reconcile sampleLib sampleCml sampleOrder (namedCluster n) r ''obs'' n st
    = Returns ((emptyResult, None), st\<lparr>cs_Registry := RegistrySet (nsName ''obs'' n) (sampleInst ''7'' ''apps'') (cs_Registry st)\<rparr>)"
proof -
  have a: "hasSelectorAnnotation sampleCml (cm_Meta (namedCM n))"
    by (simp add: hasSelectorAnnotation_def sampleCml_def namedCM_def selectorCM_def)
  have e: "stateNodeEligible sampleCml (namedCluster n) (namedCM n) = (True, None)"
    by (simp add: stateNodeEligible_def sampleCml_def namedCM_def selectorCM_def gm_str_def)
  have p: "parseConfigMap sampleCml (cm_Data (namedCM n)) = Returns (Inr (sampleInst ''7'' ''apps'', []))"
    by (simp add: parseConfigMap_def sampleCml_def namedCM_def selectorCM_def sampleInst_def)
  have g: "cl_getConfigMap (namedCluster n) ''obs'' n = Found (namedCM n)" by (simp add: namedCluster_def)
  have "list_ex (\<lambda>rule. rc_Mode (rule_Config rule) \<noteq> ModeSkip) (ic_Rules (InjectConfig (sampleInst ''7'' ''apps'')))"
    by (simp add: sampleInst_def ModeSkip_def)
  then show ?thesis by (simp add: Reconcile_def g a e p Let_def)
qed

definition namedRegistry :: "string \<Rightarrow> string registry" where
  "namedRegistry n = RegistrySet (nsName ''obs'' n) (sampleInst ''7'' ''apps'') RegistryNew"

lemma named_injects: "\<exists>rule eff. decision sampleLib (namedRegistry n) rd cfg samplePod = Inject rule eff"
proof -
  have reg: "namedRegistry n = \<lparr>instruments = [(nsName ''obs'' n, sampleInst ''7'' ''apps'')]\<rparr>"
    by (simp add: namedRegistry_def RegistrySet_def RegistryNew_def sampleInst_def)
  have "Match (bl_match sampleLib) (namedRegistry n) (Resolve rd samplePod) = Some (sampleRule, InjectConfig (sampleInst ''7'' ''apps''))"
    by (simp add: reg Match_def generateMatchInputUnlocked_def sampleLib_def sampleInst_def
        instAt_def nsSelector_def buildMatchInput_def samplePod_def ModeSkip_def sampleRule_def)
  moreover have "sd_ImageVersion (WithConfigMapOverrides cfg (InjectConfig (sampleInst ''7'' ''apps''))) \<noteq> ''''"
    by (simp add: WithConfigMapOverrides_def sampleInst_def)
  moreover have "om_Annotations (pod_Meta samplePod) = []" by (simp add: samplePod_def emptyMeta_def)
  moreover have "\<not> PreloadsSomethingElse samplePod" using decision_InjectD [OF sample_decision] by blast
  ultimately show ?thesis by (simp add: decision_def Let_def)
qed

lemma named_run:
  assumes "pl_WatchNamespace pl = ''obs''" "systemStep sampleLib sampleCml sampleDeps pl v exempt startSystem (startSystem\<lparr>sy_Writes := [(user, namedCM n)]\<rparr>)"
  shows "\<exists>s p'. systemReaches sampleLib sampleCml sampleDeps pl v exempt s \<and> sy_Writes s = [(user, namedCM n)]
    \<and> (samplePod, p') \<in> set (sy_Admitted s) \<and> IsInstrumented (pod_Meta p')"
proof -
  let ?reaches = "systemReaches sampleLib sampleCml sampleDeps pl v exempt"
  let ?s1 = "startSystem\<lparr>sy_Writes := [(user, namedCM n)]\<rparr> :: string system"
  let ?st = "(sy_Controller startSystem)\<lparr>cs_Registry := namedRegistry n\<rparr>"
  have s1: "?reaches ?s1" by (rule systemReaches.more [OF systemReaches.start assms(2)])
  have cl: "lists_ok (namedCluster n)" "sees (pl_WatchNamespace pl) (sy_Writes ?s1) (namedCluster n)"
    by (simp_all add: lists_ok_def namedCluster_def sampleCluster_def ownedPod_def samplePod_def sees_def namedCM_key assms(1))
      (simp add: namedCM_def selectorCM_def)
  have "Reconcile sampleLib sampleCml sampleOrder (namedCluster n) (wiredReconciler pl None) ''obs'' n (sy_Controller ?s1)
      = Returns ((emptyResult, None), ?st)"
    by (simp add: named_pass namedRegistry_def startSystem_def)
  let ?s2 = "?s1\<lparr>sy_Answers := sy_Answers ?s1 @ [namedCluster n], sy_Controller := ?st\<rparr>"
  from systemReaches.more [OF s1 systemStep.reconcile [OF sampleOrder_ok cl \<open>Reconcile _ _ _ _ _ _ _ _ = _\<close>]]
  have s2: "?reaches ?s2" .
  obtain rule eff where dec: "decision sampleLib (namedRegistry n) noReader (pl_SDKConfig pl) samplePod = Inject rule eff"
    using named_injects by blast
  let ?d = "wiredDefaulter pl (namedRegistry n) noReader"
  obtain m' where "Default sampleLib sampleDeps ?d samplePod (cs_Metrics ?st)
      = Returns (injectedPod sampleLib sampleDeps rule eff (spanSkip sampleLib ?d samplePod) samplePod, m')"
    using Default_decision [where lib = sampleLib, OF wiredDefaulter_fields(3)] dec by simp
  then have "Default sampleLib sampleDeps (wiredDefaulter pl (cs_Registry (sy_Controller ?s2)) noReader) samplePod
      (cs_Metrics (sy_Controller ?s2)) = Returns (injectedPod sampleLib sampleDeps rule eff (spanSkip sampleLib ?d samplePod) samplePod, m')"
    by simp
  note run = systemReaches.more [OF s2 systemStep.admit [OF this]]
  show ?thesis
    by (intro exI conjI, rule run) (simp_all add: startSystem_def, rule InjectedAnnotation_kept)
qed

theorem injections_are_authorized_witness:
  "\<exists>pl s p' user cm. main samplePlatform rotationEnv rotationFlags = Inr pl
    \<and> systemReaches sampleLib sampleCml sampleDeps pl (NewConfigMapValidator Inr [''beyla'']) (\<lambda>_. False) s
    \<and> (samplePod, p') \<in> set (sy_Admitted s) \<and> p' \<noteq> samplePod \<and> (user, cm) \<in> set (sy_Writes s)
    \<and> (breakGlassGroup \<in> set (ui_Groups user) \<or> ui_Username user = ''beyla'')"
proof -
  obtain pl q ws where pl: "main samplePlatform rotationEnv rotationFlags = Inr pl" "pl_Registration pl = AfterRotation q ws"
    by (rule rotation_main)
  have watch: "pl_WatchNamespace pl = ''obs''"
    by (rule main_plan [OF pl(1)]) (simp add: planFor_def watchNamespaceOf_def rotationEnv_def)
  let ?v = "NewConfigMapValidator Inr [''beyla''] :: configMap configMapValidator"
  let ?u = "\<lparr>ui_Username = ''beyla'', ui_Groups = []\<rparr>"
  have v: "wiredValidator pl Inr = Some ?v"
    using main_validator [OF pl(1)] pl(2) rotation_writers by (simp add: wiredValidator_def)
  let ?req = "\<lparr>ar_Object = namedCM ''a'', ar_UserInfo = ?u\<rparr>"
  have d: "cv_decoder ?v (ar_Object ?req) = Inr (namedCM ''a'')" by (simp add: NewConfigMapValidator_def)
  then have h: "Handle (cml_SelectorAnnotation sampleCml) ?v ?req = Allowed ''''"
    by (simp add: Handle_def authorized_iff)
  let ?s0 = "startSystem :: string system"
  have "systemStep sampleLib sampleCml sampleDeps pl ?v (\<lambda>_. False) ?s0
      (?s0\<lparr>sy_Writes := sy_Writes ?s0 @ [(ar_UserInfo ?req, namedCM ''a'')]\<rparr>)"
    by (rule systemStep.checkedWrite [OF h d])
  then have "systemStep sampleLib sampleCml sampleDeps pl ?v (\<lambda>_. False) startSystem (startSystem\<lparr>sy_Writes := [(?u, namedCM ''a'')]\<rparr>)"
    by (simp add: startSystem_def)
  from named_run [OF watch this] obtain s p' where s: "systemReaches sampleLib sampleCml sampleDeps pl ?v (\<lambda>_. False) s"
    "(samplePod, p') \<in> set (sy_Admitted s)" "IsInstrumented (pod_Meta p')" by blast
  have "p' \<noteq> samplePod" using s(3) by (auto simp: IsInstrumented_def samplePod_def emptyMeta_def)
  from injections_are_authorized [OF pl(1) v s(1,2) this] rotation_writers obtain user cm where
    "(user, cm) \<in> set (sy_Writes s)" "breakGlassGroup \<in> set (ui_Groups user) \<or> ui_Username user = ''beyla''" by auto
  with pl(1) s \<open>p' \<noteq> samplePod\<close> show ?thesis by blast
qed


text \<open>
  The exemption of the manifests is a hole. They keep \<open>kube-root-ca.crt\<close> from the validator, and the
  controller consumes a ConfigMap of that name like any other: whoever may write it steers the
  injection, on the allow list or not.
\<close>

theorem exempt_name_bypasses_gate:
  assumes "\<not> authorized v user" "pl_WatchNamespace pl = ''obs''"
  shows "\<exists>s p'. systemReaches sampleLib sampleCml sampleDeps pl v (\<lambda>cm. om_Name (cm_Meta cm) = ''kube-root-ca.crt'') s
    \<and> (\<forall>(u, cm)\<in>set (sy_Writes s). \<not> authorized v u) \<and> (samplePod, p') \<in> set (sy_Admitted s) \<and> IsInstrumented (pod_Meta p')"
proof -
  let ?ex = "\<lambda>cm :: configMap. om_Name (cm_Meta cm) = ''kube-root-ca.crt''"
  let ?s0 = "startSystem :: string system"
  have "systemStep sampleLib sampleCml sampleDeps pl v ?ex ?s0 (?s0\<lparr>sy_Writes := sy_Writes ?s0 @ [(user, namedCM ''kube-root-ca.crt'')]\<rparr>)"
    by (rule systemStep.exemptWrite) (simp add: namedCM_def)
  then have "systemStep sampleLib sampleCml sampleDeps pl v ?ex ?s0 (?s0\<lparr>sy_Writes := [(user, namedCM ''kube-root-ca.crt'')]\<rparr>)"
    by (simp add: startSystem_def)
  from named_run [OF assms(2) this] assms(1) show ?thesis by fastforce
qed

end
