(* ===== verification/Watches.thy ===== *)
theory Watches
  imports Requeue
begin

text \<open>
  The controller at work (\<open>SetupWithManager\<close>, \<open>configMapsForNode\<close> and \<open>Reconcile\<close> in
  \<open>internal/controller/configmap_controller.go\<close>): caches that follow the API server, watch
  events, the work queue, and one request in process at a time. What controller-runtime and
  client-go document is the frame: an informer updates its cache before it hands out the event;
  events reach their handlers later, in any order across kinds; the queue holds every request
  once, keeps one that arrives while it is being processed, and takes a request back that ended
  with an error, a delay or a panic. A pass reads the caches while they go on changing, so each
  of its answers may come from any state the caches had since the pass began.

  The lemmas show that no change gets lost on the way to the registry.
\<close>

text \<open>Requests are pairs and stay so; the end of the theory restores the default.\<close>

declare split_paired_All [simp del] split_paired_Ex [simp del]

section \<open>Caches and their changes\<close>

type_synonym request = "string \<times> string"

record caches =
  ca_ConfigMaps :: "request \<Rightarrow> configMap option"
  ca_Nodes :: "string \<Rightarrow> node option"

definition cmKeyOf :: "request \<Rightarrow> string" where
  "cmKeyOf k = nsName (fst k) (snd k)"

definition request_ok :: "request \<Rightarrow> bool" where
  "request_ok k = (CHR ''/'' \<notin> set (fst k))"

lemma cmKeyOf_inj: "cmKeyOf k = cmKeyOf k' \<Longrightarrow> request_ok k \<Longrightarrow> request_ok k' \<Longrightarrow> k = k'"
  using nsName_inj [of "fst k" "snd k" "fst k'" "snd k'"] by (simp add: cmKeyOf_def request_ok_def prod_eq_iff)

definition requestFor :: "objectMeta \<Rightarrow> request" where
  "requestFor m = (om_Namespace m, om_Name m)"

definition caches_ok :: "caches \<Rightarrow> bool" where
  "caches_ok c = (finite (dom (ca_ConfigMaps c))
     \<and> (\<forall>k cm. ca_ConfigMaps c k = Some cm \<longrightarrow> requestFor (cm_Meta cm) = k \<and> request_ok k)
     \<and> (\<forall>n node. ca_Nodes c n = Some node \<longrightarrow> om_Name (node_Meta node) = n))"

definition noCaches :: caches where
  "noCaches = \<lparr>ca_ConfigMaps = (\<lambda>_. None), ca_Nodes = (\<lambda>_. None)\<rparr>"

text \<open>A change of the caches and the event it is reported with.\<close>

inductive cacheChange :: "caches \<Rightarrow> watchEvent \<Rightarrow> caches \<Rightarrow> bool" where
  cmCreate: "ca_ConfigMaps c k = None \<Longrightarrow> requestFor (cm_Meta cm) = k \<Longrightarrow> request_ok k
    \<Longrightarrow> cacheChange c (CMCreate (cm_Meta cm)) (c\<lparr>ca_ConfigMaps := (ca_ConfigMaps c)(k \<mapsto> cm)\<rparr>)"
| cmUpdate: "ca_ConfigMaps c k = Some old \<Longrightarrow> requestFor (cm_Meta cm) = k
    \<Longrightarrow> cacheChange c (CMUpdate (cm_Meta old) (cm_Meta cm)) (c\<lparr>ca_ConfigMaps := (ca_ConfigMaps c)(k \<mapsto> cm)\<rparr>)"
| cmDelete: "ca_ConfigMaps c k = Some old
    \<Longrightarrow> cacheChange c (CMDelete (cm_Meta old)) (c\<lparr>ca_ConfigMaps := (ca_ConfigMaps c)(k := None)\<rparr>)"
| nodeCreate: "ca_Nodes c n = None \<Longrightarrow> om_Name (node_Meta node) = n
    \<Longrightarrow> cacheChange c (NodeCreate (node_Meta node)) (c\<lparr>ca_Nodes := (ca_Nodes c)(n \<mapsto> node)\<rparr>)"
| nodeUpdate: "ca_Nodes c n = Some old \<Longrightarrow> om_Name (node_Meta node) = n
    \<Longrightarrow> cacheChange c (NodeUpdate (node_Meta old) (node_Meta node)) (c\<lparr>ca_Nodes := (ca_Nodes c)(n \<mapsto> node)\<rparr>)"
| nodeDelete: "ca_Nodes c n = Some old
    \<Longrightarrow> cacheChange c (NodeDelete (node_Meta old)) (c\<lparr>ca_Nodes := (ca_Nodes c)(n := None)\<rparr>)"
| replicaSet: "cacheChange c (RSEvent m) c"

inductive_cases cacheChangeE: "cacheChange c e c'"

fun stripsAnnotation :: "'sel cmLib \<Rightarrow> watchEvent \<Rightarrow> bool" where
  "stripsAnnotation cml (CMUpdate old new) = (hasSelectorAnnotation cml old \<and> \<not> hasSelectorAnnotation cml new)"
| "stripsAnnotation cml e = False"

section \<open>What the registry should hold\<close>

text \<open>The part of the caches that one key depends on: the ConfigMap, if it is annotated, and whether its node is alive.\<close>

definition nodeOf :: "'sel cmLib \<Rightarrow> configMap \<Rightarrow> string" where
  "nodeOf cml cm = gm_str (om_Annotations (cm_Meta cm)) (cml_SelectorAnnotation cml)"

definition nodeAlive :: "caches \<Rightarrow> string \<Rightarrow> bool" where
  "nodeAlive c n = (n = '''' \<or> (case ca_Nodes c n of Some node \<Rightarrow> om_DeletionTimestamp (node_Meta node) = None | None \<Rightarrow> False))"

definition view :: "'sel cmLib \<Rightarrow> caches \<Rightarrow> request \<Rightarrow> (configMap \<times> bool) option" where
  "view cml c k = (case ca_ConfigMaps c k of
     None \<Rightarrow> None
   | Some cm \<Rightarrow> if hasSelectorAnnotation cml (cm_Meta cm) then Some (cm, nodeAlive c (nodeOf cml cm)) else None)"

text \<open>The entry a key should have: the live rules of an annotated ConfigMap of a live node that parses.\<close>

definition payload :: "'sel cmLib \<Rightarrow> configMap \<Rightarrow> 'sel instrumentation option" where
  "payload cml cm = (case parseConfigMap cml (cm_Data cm) of Returns (Inr (inst, ts)) \<Rightarrow> Some inst | _ \<Rightarrow> None)"

fun wanted :: "'sel cmLib \<Rightarrow> (configMap \<times> bool) option \<Rightarrow> 'sel instrumentation option" where
  "wanted cml (Some (cm, True)) = keepLive (payload cml cm)"
| "wanted cml _ = None"

section \<open>Answers of the API during a pass\<close>

definition listing :: "caches \<Rightarrow> configMap list \<Rightarrow> bool" where
  "listing c cms = (distinct (map cmObjectKey cms) \<and> set cms = ran (ca_ConfigMaps c))"

definition answers :: "caches set \<Rightarrow> cluster \<Rightarrow> bool" where
  "answers hist cl =
    ((\<forall>ns name. (case cl_getConfigMap cl ns name of
          Found cm \<Rightarrow> \<exists>c\<in>hist. ca_ConfigMaps c (ns, name) = Some cm
        | NotFound \<Rightarrow> \<exists>c\<in>hist. ca_ConfigMaps c (ns, name) = None
        | GetErr e \<Rightarrow> True))
     \<and> (\<forall>n. (case cl_getNode cl n of
          Found node \<Rightarrow> \<exists>c\<in>hist. ca_Nodes c n = Some node
        | NotFound \<Rightarrow> \<exists>c\<in>hist. ca_Nodes c n = None
        | GetErr e \<Rightarrow> True))
     \<and> (\<forall>cms. cl_listConfigMaps cl = Inr cms \<longrightarrow> (\<exists>c\<in>hist. listing c cms)))"

section \<open>The queue\<close>

record 'sel workQueue =
  wq_Caches :: caches
  wq_Events :: "watchEvent list"
  wq_Queue :: "request set"
  wq_Active :: "(request \<times> caches set) option"
  wq_Controller :: "'sel controllerState"

definition startQueue :: "'sel workQueue" where
  "startQueue = \<lparr>wq_Caches = noCaches, wq_Events = [], wq_Queue = {}, wq_Active = None,
     wq_Controller = \<lparr>cs_Registry = RegistryNew, cs_Metrics = NewSDKInjectionMetrics, cs_Patches = []\<rparr>\<rparr>"

text \<open>What a panicking pass leaves behind: the change of its own entry, if it came that far.\<close>

definition afterPanic :: "'sel cmLib \<Rightarrow> cluster \<Rightarrow> request \<Rightarrow> 'sel controllerState \<Rightarrow> 'sel controllerState" where
  "afterPanic cml cl k st = (case intentOf cml cl (fst k) (snd k) of Sweep oper ts c \<Rightarrow> track oper st | _ \<Rightarrow> st)"

definition comesBack :: "ctrlResult \<times> err option \<Rightarrow> bool" where
  "comesBack x = (snd x \<noteq> None \<or> rr_RequeueAfter (fst x) > 0)"

inductive queueStep :: "'sel beylaLib \<Rightarrow> 'sel cmLib \<Rightarrow> (watchEvent \<Rightarrow> bool) \<Rightarrow> 'sel workQueue \<Rightarrow> 'sel workQueue \<Rightarrow> bool"
  for lib cml happens where
  change: "cacheChange (wq_Caches s) e c' \<Longrightarrow> happens e \<Longrightarrow> queueStep lib cml happens s
    (s\<lparr>wq_Caches := c', wq_Events := wq_Events s @ [e],
       wq_Active := map_option (\<lambda>(k, hist). (k, insert c' hist)) (wq_Active s)\<rparr>)"
| deliver: "wq_Events s = before @ e # after \<Longrightarrow> answers {wq_Caches s} cl \<Longrightarrow> cl_listConfigMaps cl = Inr cms
    \<Longrightarrow> queueStep lib cml happens s
    (s\<lparr>wq_Events := before @ after, wq_Queue := wq_Queue s \<union> set (enqueued cml cl e)\<rparr>)"
| begin_pass: "wq_Active s = None \<Longrightarrow> k \<in> wq_Queue s \<Longrightarrow> queueStep lib cml happens s
    (s\<lparr>wq_Queue := wq_Queue s - {k}, wq_Active := Some (k, {wq_Caches s})\<rparr>)"
| end_pass: "wq_Active s = Some (k, hist) \<Longrightarrow> answers hist cl \<Longrightarrow> range_ok ro \<Longrightarrow> lists_ok cl
    \<Longrightarrow> Reconcile lib cml ro cl r (fst k) (snd k) (wq_Controller s) = Returns (res, st')
    \<Longrightarrow> queueStep lib cml happens s
    (s\<lparr>wq_Active := None, wq_Controller := st', wq_Queue := (if comesBack res then insert k (wq_Queue s) else wq_Queue s)\<rparr>)"
| panic_pass: "wq_Active s = Some (k, hist) \<Longrightarrow> answers hist cl
    \<Longrightarrow> Reconcile lib cml ro cl r (fst k) (snd k) (wq_Controller s) = Panic
    \<Longrightarrow> queueStep lib cml happens s
    (s\<lparr>wq_Active := None, wq_Controller := afterPanic cml cl k (wq_Controller s), wq_Queue := insert k (wq_Queue s)\<rparr>)"

inductive_cases queueStepE: "queueStep lib cml happens s s'"

inductive queueReaches :: "'sel beylaLib \<Rightarrow> 'sel cmLib \<Rightarrow> (watchEvent \<Rightarrow> bool) \<Rightarrow> 'sel workQueue \<Rightarrow> bool"
  for lib cml happens where
  start: "queueReaches lib cml happens startQueue"
| more: "queueReaches lib cml happens s \<Longrightarrow> queueStep lib cml happens s s' \<Longrightarrow> queueReaches lib cml happens s'"

definition idle :: "'sel workQueue \<Rightarrow> bool" where
  "idle s = (wq_Events s = [] \<and> wq_Queue s = {} \<and> wq_Active s = None)"


section \<open>Changes are reported\<close>

text \<open>The event, still on its way, will put the key into the queue.\<close>

definition namedBy :: "'sel cmLib \<Rightarrow> caches \<Rightarrow> string \<Rightarrow> request \<Rightarrow> bool" where
  "namedBy cml c n k = (\<exists>cm. ca_ConfigMaps c k = Some cm \<and> hasSelectorAnnotation cml (cm_Meta cm) \<and> nodeOf cml cm = n)"

fun concerns :: "'sel cmLib \<Rightarrow> caches \<Rightarrow> request \<Rightarrow> watchEvent \<Rightarrow> bool" where
  "concerns cml c k (CMCreate m) = (hasSelectorAnnotation cml m \<and> requestFor m = k)"
| "concerns cml c k (CMUpdate old new) = (hasSelectorAnnotation cml new \<and> requestFor new = k)"
| "concerns cml c k (CMDelete m) = (hasSelectorAnnotation cml m \<and> requestFor m = k)"
| "concerns cml c k (NodeCreate m) = namedBy cml c (om_Name m) k"
| "concerns cml c k (NodeDelete m) = namedBy cml c (om_Name m) k"
| "concerns cml c k (NodeUpdate old new) = (nodeUpdateFunc old new \<and> namedBy cml c (om_Name new) k)"
| "concerns cml c k (RSEvent m) = False"

lemma caches_ok_ConfigMap: "caches_ok c \<Longrightarrow> ca_ConfigMaps c k = Some cm \<Longrightarrow> requestFor (cm_Meta cm) = k \<and> request_ok k"
  by (simp add: caches_ok_def)

lemma caches_names:
  assumes "caches_ok c"
  shows "ca_ConfigMaps c k = Some cm \<Longrightarrow> requestFor (cm_Meta cm) = k" "ca_Nodes c n = Some node \<Longrightarrow> om_Name (node_Meta node) = n"
  using assms by (auto simp: caches_ok_def)

lemma cacheChange_ok: "cacheChange c e c' \<Longrightarrow> caches_ok c \<Longrightarrow> caches_ok c'"
  by (erule cacheChangeE) (auto simp: caches_ok_def)

lemma cmObjectKey_request: "cmObjectKey cm = cmKeyOf (requestFor (cm_Meta cm))"
  by (simp add: cmObjectKey_def cmKeyOf_def requestFor_def)

lemma configMapsForNode_listing:
  assumes "caches_ok c" "cl_listConfigMaps cl = Inr cms" "listing c cms" "namedBy cml c n k"
  shows "k \<in> set (configMapsForNode cml cl n)"
proof -
  obtain cm where cm: "ca_ConfigMaps c k = Some cm" "nodeOf cml cm = n" using assms(4) by (auto simp: namedBy_def)
  then have "cm \<in> set cms" using assms(3) by (auto simp: listing_def ranI)
  moreover have "requestFor (cm_Meta cm) = k" using caches_ok_ConfigMap [OF assms(1) cm(1)] by simp
  ultimately show ?thesis using assms(2) cm(2) by (force simp: configMapsForNode_def nodeOf_def requestFor_def)
qed

lemma concerns_enqueued:
  assumes "caches_ok c" "answers {c} cl" "cl_listConfigMaps cl = Inr cms" "concerns cml c k e"
  shows "k \<in> set (enqueued cml cl e)"
proof -
  have "listing c cms" using assms(2,3) by (simp add: answers_def)
  note node = configMapsForNode_listing [OF assms(1,3) this]
  show ?thesis using assms(4) by (cases e) (auto simp: ownRequest_def requestFor_def intro: node)
qed

fun event_ok :: "watchEvent \<Rightarrow> bool" where
  "event_ok (CMCreate m) = request_ok (requestFor m)"
| "event_ok (CMUpdate old m) = request_ok (requestFor m)"
| "event_ok (CMDelete m) = request_ok (requestFor m)"
| "event_ok e = True"

lemma cacheChange_event: "cacheChange c e c' \<Longrightarrow> caches_ok c \<Longrightarrow> event_ok e"
  by (erule cacheChangeE) (auto dest: caches_ok_ConfigMap)

lemma enqueued_ok:
  assumes "caches_ok c" "answers {c} cl" "k \<in> set (enqueued cml cl e)"
    "event_ok e"
  shows "request_ok k"
proof -
  have "request_ok (requestFor (cm_Meta cm))" if l: "cl_listConfigMaps cl = Inr cms" "cm \<in> set cms" for cms cm
  proof -
    have "listing c cms" using assms(2) l(1) by (simp add: answers_def)
    then obtain k' where "ca_ConfigMaps c k' = Some cm" using l(2) by (auto simp: listing_def ran_def)
    then show ?thesis using caches_ok_ConfigMap [OF assms(1)] by blast
  qed
  then have node: "request_ok k" if k: "k \<in> set (configMapsForNode cml cl n)" for n
    using k by (cases "cl_listConfigMaps cl") (auto simp: configMapsForNode_def requestFor_def)
  show ?thesis using assms(3,4)
    by (cases e) (auto simp: ownRequest_def requestFor_def noEnqueue_def dest: node split: if_split_asm)
qed

text \<open>If what a key depends on changes, then an event is on its way to it.\<close>

lemma change_reported:
  assumes "cacheChange c e c'" "caches_ok c" "\<not> stripsAnnotation cml e" "view cml c' k \<noteq> view cml c k"
  shows "concerns cml c' k e"
  using assms(1)
  by (cases rule: cacheChange.cases)
    (use assms(3,4) caches_names [OF assms(2)] in \<open>auto simp: view_def nodeAlive_def namedBy_def nodeUpdateFunc_def split: option.split_asm if_split_asm\<close>)

text \<open>An event on its way stays good for its key, or a newer one is.\<close>

lemma concern_kept:
  assumes "cacheChange c e c'" "caches_ok c" "\<not> stripsAnnotation cml e" "concerns cml c k e0"
  shows "concerns cml c' k e0 \<or> concerns cml c' k e"
proof -
  have "namedBy cml c' n k \<or> concerns cml c' k e" if n: "namedBy cml c n k" for n
    using assms(1) by (cases rule: cacheChange.cases) (use assms(3) n caches_names [OF assms(2)] in \<open>auto simp: namedBy_def split: if_split_asm\<close>)
  with assms(4) show ?thesis by (cases e0) auto
qed


section \<open>What a pass does to one entry\<close>

definition steady :: "'sel cmLib \<Rightarrow> caches set \<Rightarrow> request \<Rightarrow> (configMap \<times> bool) option \<Rightarrow> bool" where
  "steady cml hist k v = (\<forall>c\<in>hist. view cml c k = v)"

lemma node_answer:
  assumes "answers hist cl" "c \<in> hist" "\<forall>c\<in>hist. nodeAlive c (nodeOf cml cm) = b" "snd (stateNodeEligible cml cl cm) = None"
  shows "stateNodeEligible cml cl cm = (b, None)"
proof (cases "nodeOf cml cm = ''''")
  case True
  with assms(2,3) show ?thesis by (auto simp: stateNodeEligible_def nodeOf_def nodeAlive_def)
next
  case False
  have "case cl_getNode cl (nodeOf cml cm) of Found node \<Rightarrow> \<exists>c\<in>hist. ca_Nodes c (nodeOf cml cm) = Some node
      | NotFound \<Rightarrow> \<exists>c\<in>hist. ca_Nodes c (nodeOf cml cm) = None | GetErr e \<Rightarrow> True"
    using assms(1) by (simp add: answers_def)
  with False assms(3,4) show ?thesis
    by (fastforce simp: stateNodeEligible_def nodeOf_def nodeAlive_def Let_def split: getResult.split_asm if_split_asm)
qed

lemma contributes_wanted:
  assumes "answers hist cl" "steady cml hist k v" "c \<in> hist" "ca_ConfigMaps c k = Some cm"
    "hasSelectorAnnotation cml (cm_Meta cm) \<Longrightarrow> snd (stateNodeEligible cml cl cm) = None"
  shows "keepLive (contributes cml cl cm) = wanted cml v"
proof (cases "hasSelectorAnnotation cml (cm_Meta cm)")
  case False
  then have "v = None" using assms(2-4) by (auto simp: steady_def view_def)
  with False show ?thesis by (simp add: contributes_def keepLive_def)
next
  case True
  let ?b = "nodeAlive c (nodeOf cml cm)"
  have v: "v = Some (cm, ?b)" using True assms(2-4) by (auto simp: steady_def view_def)
  have "nodeAlive c' (nodeOf cml cm) = ?b" if "c' \<in> hist" for c'
    using that assms(2) v by (auto simp: steady_def view_def split: option.split_asm if_split_asm)
  then have "stateNodeEligible cml cl cm = (?b, None)" using node_answer [OF assms(1,3)] assms(5) True by blast
  with True v show ?thesis
    by (cases ?b) (simp_all add: contributes_def payload_def keepLive_def)
qed

lemma snapshotLoop_nodes_known:
  assumes "snapshotLoop cml cl cms m = Returns (Inr insts)" "cm \<in> set cms" "hasSelectorAnnotation cml (cm_Meta cm)"
  shows "snd (stateNodeEligible cml cl cm) = None"
  using assms
proof (induction cms arbitrary: m)
  case (Cons x cms)
  show ?case
  proof (cases "x = cm")
    case True
    with Cons.prems show ?thesis by (auto simp: Let_def split: prod.split_asm option.split_asm)
  next
    case False
    with Cons.prems(1) Cons.IH Cons.prems(2,3) show ?thesis by (cases rule: snapshotLoop_Cons) auto
  qed
qed simp

lemma refresh_wanted:
  assumes "refreshRegistry cml cl reg = Returns (None, reg')" "answers hist cl" "\<forall>c\<in>hist. caches_ok c"
    "steady cml hist k v" "request_ok k"
  shows "lookupInst reg' (cmKeyOf k) = wanted cml v"
proof -
  obtain cms insts where l: "cl_listConfigMaps cl = Inr cms" "snapshotLoop cml cl cms [] = Returns (Inr insts)"
    using assms(1) by (auto simp: refreshRegistry_def split: sum.split_asm goRun.split_asm)
  obtain c where c: "c \<in> hist" "listing c cms" using assms(2) l(1) by (auto simp: answers_def)
  have ok: "caches_ok c" using c(1) assms(3) by blast
  have snap: "lookupInst reg' (cmKeyOf k) = Some i \<longleftrightarrow> hasRules i \<and> (\<exists>cm\<in>set cms. cmObjectKey cm = cmKeyOf k \<and> contributes cml cl cm = Some i)" for i
    using refresh_snapshot [OF assms(1) l(1)] c(2) by (simp add: listing_def)
  have key: "cm \<in> set cms \<and> cmObjectKey cm = cmKeyOf k \<longleftrightarrow> ca_ConfigMaps c k = Some cm" for cm
  proof
    assume cm: "cm \<in> set cms \<and> cmObjectKey cm = cmKeyOf k"
    then obtain k' where k': "ca_ConfigMaps c k' = Some cm" using c(2) by (auto simp: listing_def ran_def)
    then have "cmKeyOf k' = cmKeyOf k" "request_ok k'"
      using cm caches_ok_ConfigMap [OF ok k'] by (simp_all add: cmObjectKey_request)
    with k' cmKeyOf_inj assms(5) show "ca_ConfigMaps c k = Some cm" by blast
  next
    assume cm: "ca_ConfigMaps c k = Some cm"
    then show "cm \<in> set cms \<and> cmObjectKey cm = cmKeyOf k"
      using c(2) caches_ok_ConfigMap [OF ok cm] by (simp add: listing_def ranI cmObjectKey_request)
  qed
  have look: "lookupInst reg' (cmKeyOf k) = (case ca_ConfigMaps c k of None \<Rightarrow> None | Some cm \<Rightarrow> keepLive (contributes cml cl cm))"
    (is "_ = ?rhs")
  proof -
    have "lookupInst reg' (cmKeyOf k) = Some i \<longleftrightarrow> ?rhs = Some i" for i
    proof -
      have "lookupInst reg' (cmKeyOf k) = Some i \<longleftrightarrow> hasRules i \<and> (\<exists>cm. ca_ConfigMaps c k = Some cm \<and> contributes cml cl cm = Some i)"
        unfolding snap using key by blast
      then show ?thesis by (auto simp: keepLive_def split: option.split)
    qed
    then show ?thesis by (metis option.exhaust)
  qed
  show ?thesis
  proof (cases "ca_ConfigMaps c k")
    case None
    then have "v = None" using assms(4) c(1) by (auto simp: steady_def view_def)
    with None look show ?thesis by simp
  next
    case (Some cm)
    then have "snd (stateNodeEligible cml cl cm) = None" if "hasSelectorAnnotation cml (cm_Meta cm)"
      using snapshotLoop_nodes_known [OF l(2) _ that] key by blast
    with look Some contributes_wanted [OF assms(2,4) c(1) Some] show ?thesis by simp
  qed
qed

lemma Reconcile_no_error:
  assumes "Reconcile lib cml ro cl r ns name st = Returns ((rr, None), st')"
  shows "cl_getConfigMap cl ns name \<noteq> GetErr e"
    and "cl_getConfigMap cl ns name = Found cm \<Longrightarrow> hasSelectorAnnotation cml (cm_Meta cm) \<Longrightarrow> snd (stateNodeEligible cml cl cm) = None"
  using assms by (auto simp: Reconcile_def Let_def split: prod.split_asm if_split_asm)

lemma own_wanted:
  assumes "Reconcile lib cml ro cl r (fst k) (snd k) st = Returns ((rr, None), st')" "answers hist cl" "steady cml hist k v"
  shows "ownContribution cml cl (fst k) (snd k) = wanted cml v"
proof -
  have a: "case cl_getConfigMap cl (fst k) (snd k) of Found cm \<Rightarrow> \<exists>c\<in>hist. ca_ConfigMaps c k = Some cm
      | NotFound \<Rightarrow> \<exists>c\<in>hist. ca_ConfigMaps c k = None | GetErr e \<Rightarrow> True"
    using assms(2) [unfolded answers_def, THEN conjunct1, rule_format, of "fst k" "snd k"]
    unfolding prod.collapse .
  show ?thesis
  proof (cases "cl_getConfigMap cl (fst k) (snd k)")
    case (Found cm)
    with a obtain c where "c \<in> hist" "ca_ConfigMaps c k = Some cm" by auto
    from contributes_wanted [OF assms(2,3) this] Reconcile_no_error(2) [OF assms(1) Found] Found
    show ?thesis by (simp add: ownContribution_def)
  next
    case NotFound
    with a have "v = None" using assms(3) by (auto simp: steady_def view_def)
    with NotFound show ?thesis by (simp add: ownContribution_def)
  next
    case (GetErr e)
    with Reconcile_no_error(1) [OF assms(1)] show ?thesis by blast
  qed
qed

text \<open>
  An entry on which all states of the caches during the pass agree is right afterwards, or it
  is as it was; the own entry is right, or the pass ends with an error.
\<close>

lemma pass_entry:
  assumes rec: "Reconcile lib cml ro cl r (fst k0) (snd k0) st = Returns (res, st')" and st: "registry_ok (cs_Registry st)"
    and env: "range_ok ro" "lists_ok cl" "answers hist cl" "\<forall>c\<in>hist. caches_ok c"
    and k: "request_ok k0" "request_ok k" "steady cml hist k v"
  shows "lookupInst (cs_Registry st') (cmKeyOf k) = wanted cml v
    \<or> (if k = k0 then snd res \<noteq> None
       else lookupInst (cs_Registry st') (cmKeyOf k) = lookupInst (cs_Registry st) (cmKeyOf k))"
proof (cases "\<exists>e. cl_getConfigMap cl (fst k0) (snd k0) = GetErr e")
  case True
  with rec show ?thesis by (auto simp: Reconcile_GetErr)
next
  case False
  with Reconcile_registry [OF rec st env(1,2)] obtain reg1 where
    reg1: "lookupInst reg1 = (lookupInst (cs_Registry st))(cmKeyOf k0 := ownContribution cml cl (fst k0) (snd k0))"
      "cs_Registry st' = reg1 \<or> (\<exists>e. refreshRegistry cml cl reg1 = Returns (e, cs_Registry st'))"
    unfolding cmKeyOf_def by blast
  have one: ?thesis if same: "cs_Registry st' = reg1"
  proof (cases "k = k0")
    case True
    obtain rr e where "res = (rr, e)" by (cases res)
    with True own_wanted [OF _ env(3) k(3)] rec same reg1(1) show ?thesis by (cases e) auto
  next
    case False
    then have "cmKeyOf k \<noteq> cmKeyOf k0" using cmKeyOf_inj k(1,2) by blast
    with False same reg1(1) show ?thesis by simp
  qed
  from reg1(2) show ?thesis
  proof
    assume "\<exists>e. refreshRegistry cml cl reg1 = Returns (e, cs_Registry st')"
    then obtain e where e: "refreshRegistry cml cl reg1 = Returns (e, cs_Registry st')" by blast
    show ?thesis
    proof (cases e)
      case None
      with refresh_wanted [OF _ env(3,4) k(3,2)] e show ?thesis by blast
    next
      case (Some m)
      with e have "cs_Registry st' = reg1" by (auto simp: refreshRegistry_def split: sum.split_asm goRun.split_asm)
      then show ?thesis by (rule one)
    qed
  qed (rule one)
qed


lemma pass_keys:
  assumes "Reconcile lib cml ro cl r (fst k0) (snd k0) st = Returns (res, st')" "registry_ok (cs_Registry st)"
    "range_ok ro" "lists_ok cl" "answers hist cl" "\<forall>c\<in>hist. caches_ok c" "request_ok k0"
    "lookupInst (cs_Registry st') key = Some i"
  shows "lookupInst (cs_Registry st) key = Some i \<or> (\<exists>k. request_ok k \<and> key = cmKeyOf k)"
proof (cases "\<exists>e. cl_getConfigMap cl (fst k0) (snd k0) = GetErr e")
  case True
  with assms(1,8) show ?thesis by (auto simp: Reconcile_GetErr)
next
  case False
  with Reconcile_registry [OF assms(1-4)] obtain reg1 where
    reg1: "lookupInst reg1 = (lookupInst (cs_Registry st))(cmKeyOf k0 := ownContribution cml cl (fst k0) (snd k0))"
      "cs_Registry st' = reg1 \<or> (\<exists>e. refreshRegistry cml cl reg1 = Returns (e, cs_Registry st'))"
    unfolding cmKeyOf_def by blast
  have "lookupInst reg1 key = Some i \<or> (\<exists>cms. cl_listConfigMaps cl = Inr cms \<and> (\<exists>cm\<in>set cms. cmObjectKey cm = key))"
    using reg1(2) assms(8) refresh_source by metis
  then show ?thesis
  proof
    assume "lookupInst reg1 key = Some i"
    with reg1(1) assms(7) show ?thesis by (auto split: if_split_asm)
  next
    assume "\<exists>cms. cl_listConfigMaps cl = Inr cms \<and> (\<exists>cm\<in>set cms. cmObjectKey cm = key)"
    then obtain cms cm c where "cm \<in> set cms" "cmObjectKey cm = key" "c \<in> hist" "listing c cms"
      using assms(5) by (auto simp: answers_def)
    then obtain k where "ca_ConfigMaps c k = Some cm" by (auto simp: listing_def ran_def)
    with caches_ok_ConfigMap [of c k cm] assms(6) \<open>c \<in> hist\<close> \<open>cmObjectKey cm = key\<close> show ?thesis
      by (metis cmObjectKey_request)
  qed
qed

lemma panic_entry:
  assumes "registry_ok (cs_Registry st)"
  shows "registry_ok (cs_Registry (afterPanic cml cl k st))
    \<and> (\<forall>key. key \<noteq> cmKeyOf k \<longrightarrow> lookupInst (cs_Registry (afterPanic cml cl k st)) key = lookupInst (cs_Registry st) key)"
proof (cases "intentOf cml cl (fst k) (snd k)")
  case (Sweep oper ts c)
  then have "oper = OpDelete (cmKeyOf k) \<or> (\<exists>i. oper = OpSet (cmKeyOf k) i)"
    by (auto simp: intentOf_def cmKeyOf_def split: getResult.split_asm goRun.split_asm sum.split_asm prod.split_asm if_split_asm)
  with Sweep assms show ?thesis
    by (auto simp: afterPanic_def track_def reg.invar_del reg.invar_set reg.lookup_del reg.lookup_set)
qed (use assms in \<open>simp_all add: afterPanic_def\<close>)

section \<open>What holds along a run\<close>

definition reported :: "'sel cmLib \<Rightarrow> 'sel workQueue \<Rightarrow> request \<Rightarrow> bool" where
  "reported cml s k = (k \<in> wq_Queue s \<or> (\<exists>e\<in>set (wq_Events s). concerns cml (wq_Caches s) k e))"

definition upToDate :: "'sel cmLib \<Rightarrow> 'sel workQueue \<Rightarrow> request \<Rightarrow> bool" where
  "upToDate cml s k = (lookupInst (cs_Registry (wq_Controller s)) (cmKeyOf k) = wanted cml (view cml (wq_Caches s) k))"

definition active_ok :: "'sel cmLib \<Rightarrow> 'sel workQueue \<Rightarrow> request \<Rightarrow> caches set \<Rightarrow> bool" where
  "active_ok cml s k0 hist = (request_ok k0 \<and> wq_Caches s \<in> hist \<and> (\<forall>c\<in>hist. caches_ok c)
     \<and> (\<forall>k. request_ok k \<longrightarrow> reported cml s k \<or> steady cml hist k (view cml (wq_Caches s) k)))"

definition queue_ok :: "'sel cmLib \<Rightarrow> 'sel workQueue \<Rightarrow> bool" where
  "queue_ok cml s = (caches_ok (wq_Caches s) \<and> registry_ok (cs_Registry (wq_Controller s))
     \<and> finite (wq_Queue s) \<and> (\<forall>k\<in>wq_Queue s. request_ok k) \<and> (\<forall>e\<in>set (wq_Events s). event_ok e)
     \<and> (\<forall>key i. lookupInst (cs_Registry (wq_Controller s)) key = Some i \<longrightarrow> (\<exists>k. request_ok k \<and> key = cmKeyOf k))
     \<and> (\<forall>k0 hist. wq_Active s = Some (k0, hist) \<longrightarrow> active_ok cml s k0 hist)
     \<and> (\<forall>k. request_ok k \<longrightarrow> reported cml s k \<or> (\<exists>hist. wq_Active s = Some (k, hist)) \<or> upToDate cml s k))"

lemma startQueue_ok: "queue_ok cml startQueue"
  by (simp add: queue_ok_def startQueue_def caches_ok_def noCaches_def upToDate_def view_def reg.invar_empty reg.lookup_empty)

lemma change_ok:
  assumes s: "queue_ok cml s" and ch: "cacheChange (wq_Caches s) e c'" "\<not> stripsAnnotation cml e"
  shows "queue_ok cml (s\<lparr>wq_Caches := c', wq_Events := wq_Events s @ [e],
    wq_Active := map_option (\<lambda>(k, hist). (k, insert c' hist)) (wq_Active s)\<rparr>)" (is "queue_ok cml ?s'")
proof -
  have c: "caches_ok (wq_Caches s)" using s by (simp add: queue_ok_def)
  note c' = cacheChange_ok [OF ch(1) c]
  have rep: "reported cml ?s' k" if "reported cml s k" for k
    using that concern_kept [OF ch(1) c ch(2), of k] unfolding reported_def by auto
  have same: "view cml c' k = view cml (wq_Caches s) k" if "\<not> reported cml ?s' k" for k
    using that change_reported [OF ch(1) c ch(2), of k] by (auto simp: reported_def)
  have act: "active_ok cml ?s' k0 (insert c' hist)" if "wq_Active s = Some (k0, hist)" for k0 hist
  proof -
    have a: "active_ok cml s k0 hist" using s that by (simp add: queue_ok_def)
    have "reported cml ?s' k \<or> steady cml (insert c' hist) k (view cml c' k)" if k: "request_ok k" for k
    proof (cases "reported cml ?s' k")
      case False
      then have "steady cml hist k (view cml (wq_Caches s) k)" using a k rep unfolding active_ok_def by blast
      then show ?thesis using same [OF False] by (simp add: steady_def)
    qed simp
    with a c' show ?thesis by (simp add: active_ok_def)
  qed
  have "reported cml ?s' k \<or> (\<exists>hist. wq_Active ?s' = Some (k, hist)) \<or> upToDate cml ?s' k" if "request_ok k" for k
    using s that rep [of k] same [of k] by (auto simp: queue_ok_def upToDate_def)
  then show ?thesis
    using s c' act cacheChange_event [OF ch(1) c] unfolding queue_ok_def by auto
qed

lemma deliver_ok:
  assumes s: "queue_ok cml s" and d: "wq_Events s = before @ e # after" "answers {wq_Caches s} cl" "cl_listConfigMaps cl = Inr cms"
  shows "queue_ok cml (s\<lparr>wq_Events := before @ after, wq_Queue := wq_Queue s \<union> set (enqueued cml cl e)\<rparr>)" (is "queue_ok cml ?s'")
proof -
  have c: "caches_ok (wq_Caches s)" and e: "event_ok e" using s d(1) by (simp_all add: queue_ok_def)
  have rep: "reported cml ?s' k" if "reported cml s k" for k
    using that concerns_enqueued [OF c d(2,3), of cml k] by (auto simp: reported_def d(1))
  have "\<forall>k\<in>set (enqueued cml cl e). request_ok k" using enqueued_ok [OF c d(2) _ e] by blast
  moreover have "upToDate cml ?s' k = upToDate cml s k" for k by (simp add: upToDate_def)
  moreover have "active_ok cml ?s' k0 hist" if "active_ok cml s k0 hist" for k0 hist
    using that rep by (auto simp: active_ok_def)
  ultimately show ?thesis using s rep unfolding queue_ok_def by (simp add: d(1)) blast
qed


lemma begin_ok:
  assumes s: "queue_ok cml s" and b: "wq_Active s = None" "k \<in> wq_Queue s"
  shows "queue_ok cml (s\<lparr>wq_Queue := wq_Queue s - {k}, wq_Active := Some (k, {wq_Caches s})\<rparr>)" (is "queue_ok cml ?s'")
proof -
  have "active_ok cml ?s' k {wq_Caches s}"
    using s b(2) by (auto simp: active_ok_def queue_ok_def steady_def)
  moreover have "reported cml ?s' k' \<or> k' = k" if "reported cml s k'" for k'
    using that by (auto simp: reported_def)
  moreover have "upToDate cml ?s' k' = upToDate cml s k'" for k' by (simp add: upToDate_def)
  ultimately show ?thesis using s b(1) unfolding queue_ok_def by simp blast
qed

text \<open>The end of a pass that brings its own entry up to date or puts the request back.\<close>

lemma done_ok:
  assumes s: "queue_ok cml s" and a: "wq_Active s = Some (k0, hist)"
    and reg: "registry_ok (cs_Registry st')"
      "\<And>key i. lookupInst (cs_Registry st') key = Some i \<Longrightarrow> \<exists>k. request_ok k \<and> key = cmKeyOf k"
    and entry: "\<And>k v. request_ok k \<Longrightarrow> steady cml hist k v \<Longrightarrow> lookupInst (cs_Registry st') (cmKeyOf k) = wanted cml v
      \<or> (if k = k0 then back else lookupInst (cs_Registry st') (cmKeyOf k) = lookupInst (cs_Registry (wq_Controller s)) (cmKeyOf k))"
  shows "queue_ok cml (s\<lparr>wq_Active := None, wq_Controller := st',
    wq_Queue := (if back then insert k0 (wq_Queue s) else wq_Queue s)\<rparr>)" (is "queue_ok cml ?s'")
proof -
  have act: "active_ok cml s k0 hist" using s a by (simp add: queue_ok_def)
  have mono: "reported cml ?s' k" if "reported cml s k" for k using that by (auto simp: reported_def)
  have "reported cml ?s' k \<or> upToDate cml ?s' k" if k: "request_ok k" for k
  proof (cases "reported cml s k")
    case False
    then have "steady cml hist k (view cml (wq_Caches s) k)" using act k unfolding active_ok_def by blast
    from entry [OF k this] show ?thesis
    proof (elim disjE)
      assume "if k = k0 then back else lookupInst (cs_Registry st') (cmKeyOf k) = lookupInst (cs_Registry (wq_Controller s)) (cmKeyOf k)"
      then show ?thesis
        using s a k False by (auto simp: queue_ok_def upToDate_def reported_def split: if_split_asm)
    qed (simp add: upToDate_def)
  qed (use mono in blast)
  then show ?thesis using s act reg unfolding queue_ok_def by (auto simp: active_ok_def)
qed

lemma end_pass_ok:
  assumes s: "queue_ok cml s" and a: "wq_Active s = Some (k, hist)" and env: "answers hist cl" "range_ok ro" "lists_ok cl"
    and rec: "Reconcile lib cml ro cl r (fst k) (snd k) (wq_Controller s) = Returns (res, st')"
  shows "queue_ok cml (s\<lparr>wq_Active := None, wq_Controller := st',
    wq_Queue := (if comesBack res then insert k (wq_Queue s) else wq_Queue s)\<rparr>)"
proof (rule done_ok [OF s a])
  have ok: "registry_ok (cs_Registry (wq_Controller s))" "active_ok cml s k hist"
    using s a by (simp_all add: queue_ok_def)
  then have hist: "\<forall>c\<in>hist. caches_ok c" "request_ok k" by (simp_all add: active_ok_def)
  show "registry_ok (cs_Registry st')" using step_safe [OF controllerStep.pass [OF env(2,3) rec] ok(1)] by blast
  show "\<exists>k. request_ok k \<and> key = cmKeyOf k" if "lookupInst (cs_Registry st') key = Some i" for key i
    using pass_keys [OF rec ok(1) env(2,3,1) hist that] s by (auto simp: queue_ok_def)
  show "lookupInst (cs_Registry st') (cmKeyOf k') = wanted cml v \<or> (if k' = k then comesBack res
      else lookupInst (cs_Registry st') (cmKeyOf k') = lookupInst (cs_Registry (wq_Controller s)) (cmKeyOf k'))"
    if "request_ok k'" "steady cml hist k' v" for k' v
    using pass_entry [OF rec ok(1) env(2,3,1) hist that] by (auto simp: comesBack_def)
qed

lemma panic_pass_ok:
  assumes s: "queue_ok cml s" and a: "wq_Active s = Some (k, hist)"
  shows "queue_ok cml (s\<lparr>wq_Active := None, wq_Controller := afterPanic cml cl k (wq_Controller s), wq_Queue := insert k (wq_Queue s)\<rparr>)"
proof -
  have ok: "registry_ok (cs_Registry (wq_Controller s))" "request_ok k"
    using s a by (auto simp: queue_ok_def active_ok_def)
  note p = panic_entry [OF ok(1), of cml cl k]
  have "queue_ok cml (s\<lparr>wq_Active := None, wq_Controller := afterPanic cml cl k (wq_Controller s),
      wq_Queue := (if True then insert k (wq_Queue s) else wq_Queue s)\<rparr>)"
  proof (rule done_ok [OF s a])
    show "\<exists>k. request_ok k \<and> key = cmKeyOf k" if "lookupInst (cs_Registry (afterPanic cml cl k (wq_Controller s))) key = Some i" for key i
      using p that ok(2) s by (cases "key = cmKeyOf k") (auto simp: queue_ok_def)
    show "lookupInst (cs_Registry (afterPanic cml cl k (wq_Controller s))) (cmKeyOf k') = wanted cml v \<or> (if k' = k then True
        else lookupInst (cs_Registry (afterPanic cml cl k (wq_Controller s))) (cmKeyOf k') = lookupInst (cs_Registry (wq_Controller s)) (cmKeyOf k'))"
      if k': "request_ok k'" for k' v
      using p cmKeyOf_inj [OF _ k' ok(2)] by (cases "k' = k") auto
  qed (use p in simp)
  then show ?thesis by simp
qed

lemma queueStep_ok:
  assumes "queueStep lib cml happens s s'" "queue_ok cml s" "\<And>e. happens e \<Longrightarrow> \<not> stripsAnnotation cml e"
  shows "queue_ok cml s'"
  using assms(1)
proof cases
  case (change e c')
  then show ?thesis using change_ok [OF assms(2)] assms(3) by simp
next
  case (deliver before e "after" cl cms)
  then show ?thesis using deliver_ok [OF assms(2)] by simp
next
  case (begin_pass k)
  then show ?thesis using begin_ok [OF assms(2)] by simp
next
  case (end_pass k hist cl ro r res st')
  then show ?thesis using end_pass_ok [OF assms(2)] by blast
next
  case (panic_pass k hist cl ro r)
  then show ?thesis using panic_pass_ok [OF assms(2)] by blast
qed

lemma queueReaches_ok:
  assumes "queueReaches lib cml happens s" "\<And>e. happens e \<Longrightarrow> \<not> stripsAnnotation cml e"
  shows "queue_ok cml s"
  using assms(1) by induction (auto intro: startQueue_ok queueStep_ok [OF _ _ assms(2)])


text \<open>A ConfigMap of the cache puts these rules into force under its key.\<close>

definition inForce :: "'sel cmLib \<Rightarrow> caches \<Rightarrow> string \<Rightarrow> 'sel instrumentation \<Rightarrow> bool" where
  "inForce cml c key i = (\<exists>k cm. key = cmKeyOf k \<and> ca_ConfigMaps c k = Some cm \<and> hasSelectorAnnotation cml (cm_Meta cm)
     \<and> nodeAlive c (nodeOf cml cm) \<and> payload cml cm = Some i \<and> hasRules i)"

lemma idle_registry:
  assumes "queueReaches lib cml happens s" "\<forall>e. happens e \<longrightarrow> \<not> stripsAnnotation cml e" "idle s"
  shows "lookupInst (cs_Registry (wq_Controller s)) key = Some i \<longleftrightarrow> inForce cml (wq_Caches s) key i"
proof -
  have s: "queue_ok cml s" using queueReaches_ok [OF assms(1)] assms(2) by blast
  have entry: "upToDate cml s k" if "request_ok k" for k
    using s assms(3) that by (auto simp: queue_ok_def idle_def reported_def)
  have w: "wanted cml (view cml (wq_Caches s) k) = Some i \<longleftrightarrow> (\<exists>cm. ca_ConfigMaps (wq_Caches s) k = Some cm
      \<and> hasSelectorAnnotation cml (cm_Meta cm) \<and> nodeAlive (wq_Caches s) (nodeOf cml cm) \<and> payload cml cm = Some i \<and> hasRules i)" for k
    by (cases "ca_ConfigMaps (wq_Caches s) k"; cases "nodeAlive (wq_Caches s) (nodeOf cml (the (ca_ConfigMaps (wq_Caches s) k)))")
      (auto simp: view_def keepLive_def split: option.split)
  have ok: "request_ok k" if "ca_ConfigMaps (wq_Caches s) k = Some cm" for k cm
    using s that by (auto simp: queue_ok_def dest: caches_ok_ConfigMap)
  have dom: "\<exists>k. request_ok k \<and> key = cmKeyOf k" if "lookupInst (cs_Registry (wq_Controller s)) key = Some i"
    using s that unfolding queue_ok_def by blast
  show ?thesis unfolding inForce_def
  proof
    assume l: "lookupInst (cs_Registry (wq_Controller s)) key = Some i"
    then obtain k where "request_ok k" "key = cmKeyOf k" using dom by blast
    with l entry w show "\<exists>k cm. key = cmKeyOf k \<and> ca_ConfigMaps (wq_Caches s) k = Some cm \<and> hasSelectorAnnotation cml (cm_Meta cm)
      \<and> nodeAlive (wq_Caches s) (nodeOf cml cm) \<and> payload cml cm = Some i \<and> hasRules i" unfolding upToDate_def by metis
  next
    assume "\<exists>k cm. key = cmKeyOf k \<and> ca_ConfigMaps (wq_Caches s) k = Some cm \<and> hasSelectorAnnotation cml (cm_Meta cm)
      \<and> nodeAlive (wq_Caches s) (nodeOf cml cm) \<and> payload cml cm = Some i \<and> hasRules i"
    with entry w ok show "lookupInst (cs_Registry (wq_Controller s)) key = Some i" unfolding upToDate_def by metis
  qed
qed

section \<open>Properties\<close>

text \<open>
  C5. No change gets lost: in every run in which nobody strips the annotation off a ConfigMap,
  whatever changes, is delivered, fails, panics and is retried in whatever order, and although a
  pass may read caches that change under it, the registry is exact whenever the controller is
  idle. It holds, under its own key, precisely the rules of every annotated ConfigMap in the
  cache that parses, has rules and names no node or a live one, and nothing else.
\<close>

theorem registry_eventually_consistent:
  assumes "queueReaches lib cml happens s" "\<forall>e. happens e \<longrightarrow> \<not> stripsAnnotation cml e" "idle s"
  shows "lookupInst (cs_Registry (wq_Controller s)) key = Some i \<longleftrightarrow>
    (\<exists>k cm. key = cmKeyOf k \<and> ca_ConfigMaps (wq_Caches s) k = Some cm \<and> hasSelectorAnnotation cml (cm_Meta cm)
      \<and> nodeAlive (wq_Caches s) (nodeOf cml cm) \<and> payload cml cm = Some i \<and> hasRules i)"
  using idle_registry [OF assms] by (simp add: inForce_def)

text \<open>The answers of a cluster whose caches stand still.\<close>

definition servedFrom :: "caches \<Rightarrow> configMap list \<Rightarrow> cluster" where
  "servedFrom c cms = \<lparr>cl_getConfigMap = (\<lambda>ns name. case ca_ConfigMaps c (ns, name) of Some cm \<Rightarrow> Found cm | None \<Rightarrow> NotFound),
     cl_getNode = (\<lambda>n. case ca_Nodes c n of Some node \<Rightarrow> Found node | None \<Rightarrow> NotFound), cl_listConfigMaps = Inr cms,
     cl_listPods = Inr [], cl_listPodsIn = (\<lambda>ns. Inr []), cl_reader = noReader, cl_dial = (\<lambda>a. Inr ()), cl_now = '''',
     cl_patch = (\<lambda>k p. None)\<rparr>"

lemma servedFrom_answers: "c \<in> hist \<Longrightarrow> listing c cms \<Longrightarrow> answers hist (servedFrom c cms)"
  by (auto simp: answers_def servedFrom_def split: option.split)

lemma servedFrom_lists: "lists_ok (servedFrom c cms)"
  by (simp add: lists_ok_def servedFrom_def)

lemma listing_exists:
  assumes "caches_ok c"
  shows "\<exists>cms. listing c cms"
proof -
  obtain ks where ks: "set ks = dom (ca_ConfigMaps c)" "distinct ks"
    using assms finite_distinct_list [of "dom (ca_ConfigMaps c)"] by (auto simp: caches_ok_def)
  let ?cms = "map (\<lambda>k. the (ca_ConfigMaps c k)) ks"
  have key: "cmObjectKey (the (ca_ConfigMaps c k)) = cmKeyOf k \<and> request_ok k" if "k \<in> set ks" for k
    using that ks(1) caches_ok_ConfigMap [OF assms, of k] by (auto simp: cmObjectKey_request)
  have "inj_on (\<lambda>k. cmObjectKey (the (ca_ConfigMaps c k))) (set ks)"
    using key cmKeyOf_inj unfolding inj_on_def by metis
  then have "distinct (map cmObjectKey ?cms)" using ks(2) by (simp add: distinct_map comp_def)
  moreover have "set ?cms = ran (ca_ConfigMaps c)"
    using ks(1) by (auto simp: ran_def image_iff) (metis domI option.sel)
  ultimately show ?thesis unfolding listing_def by blast
qed

section \<open>The queue drains\<close>

text \<open>Nothing changes any more, and no pass has to be repeated.\<close>

definition calmStep :: "'sel beylaLib \<Rightarrow> 'sel cmLib \<Rightarrow> 'sel workQueue \<Rightarrow> 'sel workQueue \<Rightarrow> bool" where
  "calmStep lib cml s s' = (queue_ok cml s \<and> queueStep lib cml (\<lambda>e. False) s s'
     \<and> (wq_Active s \<noteq> None \<longrightarrow> wq_Active s' = None \<longrightarrow> wq_Queue s' = wq_Queue s))"

definition backlog :: "'sel workQueue \<Rightarrow> nat" where
  "backlog s = 2 * card (wq_Queue s) + (if wq_Active s = None then 0 else 1)"

lemma calmStep_less:
  assumes "calmStep lib cml s s'"
  shows "(s', s) \<in> measures [\<lambda>s. length (wq_Events s), backlog]"
proof -
  have fin: "finite (wq_Queue s)" and st: "queueStep lib cml (\<lambda>e. False) s s'"
    and same: "wq_Active s \<noteq> None \<Longrightarrow> wq_Active s' = None \<Longrightarrow> wq_Queue s' = wq_Queue s"
    using assms by (simp_all add: calmStep_def queue_ok_def)
  from st show ?thesis
  proof (rule queueStepE)
    fix k
    assume "s' = s\<lparr>wq_Queue := wq_Queue s - {k}, wq_Active := Some (k, {wq_Caches s})\<rparr>" "wq_Active s = None" "k \<in> wq_Queue s"
    moreover have "card (wq_Queue s) > 0" using calculation(3) fin by (auto simp: card_gt_0_iff)
    ultimately show ?thesis using fin by (simp add: backlog_def)
  qed (use same in \<open>auto simp: backlog_def\<close>)
qed

definition poisoned :: "'sel cmLib \<Rightarrow> caches \<Rightarrow> request \<Rightarrow> bool" where
  "poisoned cml c k = (\<exists>cm. view cml c k = Some (cm, True) \<and> parseConfigMap cml (cm_Data cm) = Panic)"


lemma snapshotLoop_runs:
  assumes "\<forall>cm\<in>set cms. hasSelectorAnnotation cml (cm_Meta cm) \<longrightarrow> snd (stateNodeEligible cml cl cm) = None
    \<and> (fst (stateNodeEligible cml cl cm) \<longrightarrow> parseConfigMap cml (cm_Data cm) \<noteq> Panic)"
  shows "\<exists>insts. snapshotLoop cml cl cms m = Returns (Inr insts)"
  using assms
proof (induction cms arbitrary: m)
  case (Cons cm cms)
  then have IH: "\<exists>insts. snapshotLoop cml cl cms m = Returns (Inr insts)" for m by simp
  obtain el e where "stateNodeEligible cml cl cm = (el, e)" by (cases "stateNodeEligible cml cl cm")
  with Cons.prems IH show ?case by (auto split: goRun.split sum.split prod.split)
qed simp

text \<open>From a cluster that answers and whose ConfigMaps do not panic, every pass ends and is not repeated.\<close>

lemma servedFrom_node [simp]: "snd (stateNodeEligible cml (servedFrom c cms) cm) = None"
    "fst (stateNodeEligible cml (servedFrom c cms) cm) \<longleftrightarrow> nodeAlive c (nodeOf cml cm)"
  by (auto simp: stateNodeEligible_def nodeAlive_def nodeOf_def servedFrom_def Let_def split: option.split)

lemma pass_completes:
  assumes "caches_ok c" "listing c cms" "\<forall>k. \<not> poisoned cml c k"
  shows "\<exists>st'. Reconcile lib cml sampleOrder (servedFrom c cms) sampleReconciler (fst k) (snd k) st = Returns ((emptyResult, None), st')"
proof -
  let ?cl = "servedFrom c cms"
  have safe: "parseConfigMap cml (cm_Data cm) \<noteq> Panic"
    if "ca_ConfigMaps c k' = Some cm" "hasSelectorAnnotation cml (cm_Meta cm)" "fst (stateNodeEligible cml ?cl cm)" for k' cm
  proof
    assume "parseConfigMap cml (cm_Data cm) = Panic"
    moreover have "view cml c k' = Some (cm, True)" using that by (simp add: view_def)
    ultimately show False using assms(3) by (auto simp: poisoned_def)
  qed
  have "\<exists>insts. snapshotLoop cml ?cl cms [] = Returns (Inr insts)"
    by (rule snapshotLoop_runs) (use assms(2) safe in \<open>fastforce simp: listing_def ran_def\<close>)
  then have ref: "\<exists>reg'. refreshRegistry cml ?cl reg = Returns (None, reg')" for reg
    by (auto simp: refreshRegistry_def servedFrom_def)
  have r: "\<not> sd_NoAutoRestart (cr_DefaultSDKConfig sampleReconciler)" "cr_WebhookReady sampleReconciler = None"
      "cr_WebhookServiceAddr sampleReconciler = ''''"
    by (simp_all add: sampleReconciler_def sampleSDK_def)
  have sweep: "\<exists>st'. reconcileRollouts lib cml sampleOrder ?cl sampleReconciler ts cl st = Returns ((emptyResult, None), st')" for ts cl st
  proof (cases cl)
    case True
    obtain reg' where reg': "refreshRegistry cml ?cl (cs_Registry st) = Returns (None, reg')" using ref by blast
    have "fst (rolloutMatching lib sampleOrder ?cl sampleReconciler ts True (st\<lparr>cs_Registry := reg'\<rparr>)) = None"
      by (rule cleanup_no_error [OF sampleOrder_ok]) (simp_all add: servedFrom_def)
    with True show ?thesis by (simp add: reconcileRollouts_def r reg' case_prod_unfold)
  qed (simp add: reconcileRollouts_def r case_prod_unfold)
  show ?thesis
  proof (cases "intentOf cml ?cl (fst k) (snd k)")
    case (Unread e)
    then show ?thesis by (auto simp: intentOf_def servedFrom_def split: option.split_asm goRun.split_asm sum.split_asm if_split_asm prod.split_asm)
  next
    case Crash
    then obtain cm where "ca_ConfigMaps c (fst k, snd k) = Some cm" "hasSelectorAnnotation cml (cm_Meta cm)"
      "stateNodeEligible cml ?cl cm = (True, None)" "parseConfigMap cml (cm_Data cm) = Panic"
      by (auto simp: intentOf_def servedFrom_def split: option.split_asm goRun.split_asm sum.split_asm if_split_asm prod.split_asm)
    with safe show ?thesis by fastforce
  next
    case (Finish oper e)
    then have "e = None"
      using servedFrom_node(1) [of cml c cms] by (auto simp: intentOf_def split: getResult.split_asm goRun.split_asm sum.split_asm if_split_asm prod.split_asm)
    with Finish show ?thesis by (simp add: Reconcile_intent)
  next
    case (Sweep oper ts cl)
    with sweep show ?thesis by (simp add: Reconcile_intent)
  qed
qed

lemma calm_terminates: "wfp (calmStep lib (cml :: 'sel cmLib))\<inverse>\<inverse>"
proof -
  have "wfp (\<lambda>s' s :: 'sel workQueue. (s', s) \<in> measures [\<lambda>s. length (wq_Events s), backlog])"
    unfolding wfp_wf_eq by (rule wf_measures)
  then show ?thesis by (rule wfp_subset) (use calmStep_less in auto)
qed

lemma calm_run:
  assumes "(calmStep lib cml)\<^sup>*\<^sup>* s s'" "queue_ok cml s"
  shows "queue_ok cml s' \<and> wq_Caches s' = wq_Caches s"
  using assms(1)
proof (induction rule: rtranclp_induct)
  case (step s1 s2)
  then have st: "queueStep lib cml (\<lambda>e. False) s1 s2" by (simp add: calmStep_def)
  then have "wq_Caches s2 = wq_Caches s1" by (rule queueStepE) auto
  with step.IH queueStep_ok [OF st] show ?case by simp
qed (simp add: assms(2))

lemma calm_end_idle:
  fixes lib :: "'sel beylaLib" and cml :: "'sel cmLib"
  assumes "queue_ok cml s" "\<forall>k. \<not> poisoned cml (wq_Caches s) k" "\<nexists>s'. calmStep lib cml s s'"
  shows "idle s"
proof -
  let ?c = "wq_Caches s"
  have c: "caches_ok ?c" using assms(1) unfolding queue_ok_def by blast
  obtain cms where cms: "listing ?c cms" using listing_exists [OF c] by blast
  have stuck: "\<not> (queueStep lib cml (\<lambda>e. False) s s2 \<and> (wq_Active s \<noteq> None \<longrightarrow> wq_Active s2 = None \<longrightarrow> wq_Queue s2 = wq_Queue s))" for s2
    using assms(1,3) by (auto simp: calmStep_def)
  have "wq_Active s = None"
  proof (rule ccontr)
    assume "wq_Active s \<noteq> None"
    then obtain k hist where a: "wq_Active s = Some (k, hist)" by (cases "wq_Active s") auto
    then have "?c \<in> hist" using assms(1) by (auto simp: queue_ok_def active_ok_def)
    moreover obtain st' where "Reconcile lib cml sampleOrder (servedFrom ?c cms) sampleReconciler (fst k) (snd k) (wq_Controller s)
        = Returns ((emptyResult, None), st')"
      using pass_completes [OF c cms] assms(2) by metis
    ultimately have "queueStep lib cml (\<lambda>e. False) s (s\<lparr>wq_Active := None, wq_Controller := st',
        wq_Queue := (if comesBack (emptyResult, None) then insert k (wq_Queue s) else wq_Queue s)\<rparr>)"
      using cms by (intro queueStep.end_pass [OF a]) (auto simp: servedFrom_answers servedFrom_lists sampleOrder_ok)
    with stuck show False by (force simp: comesBack_def emptyResult_def)
  qed
  moreover have "wq_Events s = []"
  proof (rule ccontr)
    assume "wq_Events s \<noteq> []"
    then obtain e es where "wq_Events s = [] @ e # es" by (cases "wq_Events s") auto
    from queueStep.deliver [OF this, of "servedFrom ?c cms" cms lib cml "\<lambda>e. False"] stuck calculation show False
      using cms by (auto simp: servedFrom_answers) (simp add: servedFrom_def)
  qed
  moreover have "wq_Queue s = {}"
  proof (rule ccontr)
    assume "wq_Queue s \<noteq> {}"
    then obtain k where "k \<in> wq_Queue s" by blast
    from queueStep.begin_pass [OF calculation(1) this, of lib cml "\<lambda>e. False"] stuck calculation(1) show False by simp
  qed
  ultimately show ?thesis by (simp add: idle_def)
qed

text \<open>
  C22. The queue drains: once the caches stand still and no pass has to be repeated, the controller
  cannot go on forever, and as long as no ConfigMap makes the parser panic it can only stop
  when every event is delivered and every request done; then the registry is exact.
\<close>

theorem queue_drains:
  fixes lib :: "'sel beylaLib" and cml :: "'sel cmLib"
  assumes "queueReaches lib cml happens s" "\<forall>e. happens e \<longrightarrow> \<not> stripsAnnotation cml e" "\<forall>k. \<not> poisoned cml (wq_Caches s) k"
  shows "wfp (calmStep lib cml)\<inverse>\<inverse>
    \<and> (\<forall>s'. (calmStep lib cml)\<^sup>*\<^sup>* s s' \<and> (\<nexists>s''. calmStep lib cml s' s'') \<longrightarrow>
        idle s' \<and> (\<forall>k. request_ok k \<longrightarrow> lookupInst (cs_Registry (wq_Controller s')) (cmKeyOf k) = wanted cml (view cml (wq_Caches s) k)))"
proof (intro conjI allI impI)
  show "wfp (calmStep lib cml)\<inverse>\<inverse>" by (rule calm_terminates)
next
  fix s' assume run: "(calmStep lib cml)\<^sup>*\<^sup>* s s' \<and> (\<nexists>s''. calmStep lib cml s' s'')"
  have s': "queue_ok cml s' \<and> wq_Caches s' = wq_Caches s"
    using calm_run [OF conjunct1 [OF run]] queueReaches_ok [OF assms(1)] assms(2) by blast
  then show idle: "idle s'" using calm_end_idle [of cml s' lib] run assms(3) by auto
  show "lookupInst (cs_Registry (wq_Controller s')) (cmKeyOf k) = wanted cml (view cml (wq_Caches s) k)" if "request_ok k" for k
    using s' idle that by (auto simp: queue_ok_def idle_def reported_def upToDate_def)
qed

section \<open>One bad ConfigMap\<close>

lemma snapshotLoop_no_panic:
  assumes "snapshotLoop cml cl cms m = Returns (Inr insts)" "cm \<in> set cms" "hasSelectorAnnotation cml (cm_Meta cm)"
    "stateNodeEligible cml cl cm = (True, None)"
  shows "parseConfigMap cml (cm_Data cm) \<noteq> Panic"
  using assms
proof (induction cms arbitrary: m)
  case (Cons x cms)
  show ?case
  proof (cases "x = cm")
    case True
    with Cons.prems show ?thesis by auto
  next
    case False
    with Cons.prems(1) Cons.IH Cons.prems(2-4) show ?thesis by (cases rule: snapshotLoop_Cons) auto
  qed
qed simp

text \<open>
  C23. One bad ConfigMap blocks every cleanup: while the payload of any annotated ConfigMap of a live
  node makes the parser panic (two restart entries, one of them null, are enough), the pass for
  any deleted ConfigMap panics or fails as well, patches nothing and has to be repeated, so the
  pods of departed rules stay as they are, on all nodes.
\<close>

theorem poisoned_ConfigMap_blocks_cleanup:
  assumes "answers hist cl" "\<forall>c\<in>hist. poisoned cml c kp \<and> ca_ConfigMaps c kp = Some cm"
    and "cl_getConfigMap cl (fst k) (snd k) = NotFound" "\<not> gateClosed r cl" "\<not> sd_NoAutoRestart (cr_DefaultSDKConfig r)"
  shows "Reconcile lib cml ro cl r (fst k) (snd k) st = Panic
    \<or> (\<exists>e. Reconcile lib cml ro cl r (fst k) (snd k) st = Returns ((emptyResult, Some e), forget (cmKeyOf k) st)
        \<and> cs_Patches (forget (cmKeyOf k) st) = cs_Patches st)"
proof -
  have v: "view cml c kp = Some (cm, True)" "parseConfigMap cml (cm_Data cm) = Panic" if "c \<in> hist" for c
    using assms(2) that by (auto simp: poisoned_def view_def split: if_split_asm)
  then have alive: "hasSelectorAnnotation cml (cm_Meta cm) \<and> nodeAlive c (nodeOf cml cm)" if "c \<in> hist" for c
    using that assms(2) by (fastforce simp: view_def split: if_split_asm)
  have stuck: "snapshotLoop cml cl cms [] \<noteq> Returns (Inr insts)" if l: "cl_listConfigMaps cl = Inr cms" for cms insts
  proof
    assume loop: "snapshotLoop cml cl cms [] = Returns (Inr insts)"
    from assms(1) l obtain c where c: "c \<in> hist" "listing c cms" by (auto simp: answers_def)
    then have cm: "cm \<in> set cms" using assms(2) by (auto simp: listing_def ranI)
    have "\<forall>c\<in>hist. nodeAlive c (nodeOf cml cm) = True" using alive by blast
    then have "stateNodeEligible cml cl cm = (True, None)"
      using snapshotLoop_nodes_known [OF loop cm] alive [OF c(1)] by (intro node_answer [OF assms(1) c(1)]) auto
    with snapshotLoop_no_panic [OF loop cm] alive [OF c(1)] v(2) [OF c(1)] show False by blast
  qed
  have "refreshRegistry cml cl reg = Panic \<or> (\<exists>e. refreshRegistry cml cl reg = Returns (Some e, reg))" for reg
  proof (cases "cl_listConfigMaps cl")
    case (Inr cms)
    then show ?thesis using stuck [OF Inr]
      by (cases "snapshotLoop cml cl cms []") (auto simp: refreshRegistry_def split: sum.split)
  qed (simp add: refreshRegistry_def)
  then consider "refreshRegistry cml cl (cs_Registry (forget (cmKeyOf k) st)) = Panic"
    | e where "refreshRegistry cml cl (cs_Registry (forget (cmKeyOf k) st)) = Returns (Some e, cs_Registry (forget (cmKeyOf k) st))"
    by blast
  then show ?thesis
    using assms(3-5) by cases (auto simp: Reconcile_def reconcileRollouts_def gateClosed_def cmKeyOf_def [symmetric] forget_def split: option.split)
qed

section \<open>Runs\<close>

text \<open>A ConfigMap is created, reported and loaded.\<close>

definition loadedCaches :: caches where
  "loadedCaches = noCaches\<lparr>ca_ConfigMaps := (ca_ConfigMaps noCaches)((''obs'', ''a'') \<mapsto> selectorCM)\<rparr>"

definition loadedQueue :: "string workQueue" where
  "loadedQueue = \<lparr>wq_Caches = loadedCaches, wq_Events = [], wq_Queue = {}, wq_Active = None,
     wq_Controller = startState\<lparr>cs_Registry := RegistrySet ''obs/a'' (sampleInst ''7'' ''apps'') RegistryNew\<rparr>\<rparr>"

lemma loaded_listing: "listing loadedCaches [selectorCM]"
  by (auto simp: listing_def loadedCaches_def noCaches_def ran_def)

lemma loaded_pass: "Reconcile sampleLib sampleCml sampleOrder (servedFrom loadedCaches [selectorCM]) sampleReconciler ''obs'' ''a'' startState
    = Returns ((emptyResult, None), wq_Controller loadedQueue)"
proof -
  have a: "hasSelectorAnnotation sampleCml (cm_Meta selectorCM)"
    by (simp add: hasSelectorAnnotation_def sampleCml_def selectorCM_def)
  have n: "stateNodeEligible sampleCml cl selectorCM = (True, None)" for cl
    by (simp add: stateNodeEligible_def sampleCml_def selectorCM_def gm_str_def)
  have p: "parseConfigMap sampleCml (cm_Data selectorCM) = Returns (Inr (sampleInst ''7'' ''apps'', []))"
    by (simp add: parseConfigMap_def sampleCml_def selectorCM_def sampleInst_def)
  have g: "cl_getConfigMap (servedFrom loadedCaches [selectorCM]) ''obs'' ''a'' = Found selectorCM"
    by (simp add: servedFrom_def loadedCaches_def)
  have "list_ex (\<lambda>rule. rc_Mode (rule_Config rule) \<noteq> ModeSkip) (ic_Rules (InjectConfig (sampleInst ''7'' ''apps'')))"
    by (simp add: sampleInst_def ModeSkip_def)
  then show ?thesis
    by (simp add: Reconcile_def g a n p Let_def loadedQueue_def nsName_def) (simp add: startState_def)
qed

lemma create_queued:
  assumes "queueReaches lib cml happens s" "wq_Events s = []" "wq_Active s = None" "happens (CMCreate (cm_Meta cm))"
    "c' = (wq_Caches s)\<lparr>ca_ConfigMaps := (ca_ConfigMaps (wq_Caches s))(k \<mapsto> cm)\<rparr>" "listing c' cms"
    "ca_ConfigMaps (wq_Caches s) k = None" "requestFor (cm_Meta cm) = k" "request_ok k" "hasSelectorAnnotation cml (cm_Meta cm)"
  shows "queueReaches lib cml happens (s\<lparr>wq_Caches := c', wq_Queue := insert k (wq_Queue s)\<rparr>)"
proof -
  let ?e = "CMCreate (cm_Meta cm)"
  let ?s1 = "s\<lparr>wq_Caches := c', wq_Events := [?e]\<rparr>"
  have ch: "cacheChange (wq_Caches s) ?e c'" unfolding assms(5) by (rule cacheChange.cmCreate [OF assms(7-9)])
  have "s\<lparr>wq_Caches := c', wq_Events := wq_Events s @ [?e], wq_Active := map_option (\<lambda>(k, hist). (k, insert c' hist)) (wq_Active s)\<rparr> = ?s1"
    using assms(2,3) by (cases s) simp
  then have s1: "queueReaches lib cml happens ?s1"
    using queueReaches.more [OF assms(1) queueStep.change [of s ?e c' happens lib cml, OF ch assms(4)]] by simp
  have "enqueued cml (servedFrom c' cms) ?e = [k]" using assms(8,10) by (simp add: ownRequest_def requestFor_def)
  moreover have "answers {wq_Caches ?s1} (servedFrom c' cms)" by (rule servedFrom_answers [OF _ assms(6)]) simp
  moreover have "?s1\<lparr>wq_Events := [], wq_Queue := insert k (wq_Queue s)\<rparr> = s\<lparr>wq_Caches := c', wq_Queue := insert k (wq_Queue s)\<rparr>"
    using assms(2) by (cases s) simp
  ultimately have "queueStep lib cml happens ?s1 (s\<lparr>wq_Caches := c', wq_Queue := insert k (wq_Queue s)\<rparr>)"
    using queueStep.deliver [of ?s1 "[]" ?e "[]" "servedFrom c' cms" cms lib cml happens] by (simp add: servedFrom_def)
  with s1 show ?thesis by (rule queueReaches.more)
qed

lemma loaded_run:
  assumes "happens (CMCreate (cm_Meta selectorCM))"
  shows "queueReaches sampleLib sampleCml happens loadedQueue"
proof -
  let ?cl = "servedFrom loadedCaches [selectorCM]"
  let ?k = "(''obs'', ''a'')"
  let ?s0 = "startQueue :: string workQueue"
  let ?s1 = "?s0\<lparr>wq_Caches := loadedCaches, wq_Queue := insert ?k (wq_Queue ?s0)\<rparr>"
  let ?s2 = "?s1\<lparr>wq_Queue := wq_Queue ?s1 - {?k}, wq_Active := Some (?k, {wq_Caches ?s1})\<rparr>"
  have "hasSelectorAnnotation sampleCml (cm_Meta selectorCM)"
    by (simp add: hasSelectorAnnotation_def sampleCml_def selectorCM_def)
  then have s1: "queueReaches sampleLib sampleCml happens ?s1"
    by (intro create_queued [where happens = happens, OF queueReaches.start _ _ assms _ loaded_listing])
      (simp_all add: startQueue_def loadedCaches_def noCaches_def requestFor_def selectorCM_def request_ok_def)
  have s2: "queueReaches sampleLib sampleCml happens ?s2"
    by (rule queueReaches.more [OF s1 queueStep.begin_pass]) (simp_all add: startQueue_def)
  have "queueStep sampleLib sampleCml happens ?s2 loadedQueue"
    using queueStep.end_pass [of ?s2 ?k "{loadedCaches}" ?cl sampleOrder sampleLib sampleCml sampleReconciler
        "(emptyResult, None)" "wq_Controller loadedQueue" happens]
      servedFrom_answers [OF _ loaded_listing, of "{loadedCaches}"] servedFrom_lists sampleOrder_ok loaded_pass
    by (simp add: startQueue_def startState_def loadedQueue_def comesBack_def emptyResult_def)
  with s2 show ?thesis by (rule queueReaches.more)
qed

lemma loaded_idle: "idle loadedQueue"
  by (simp add: idle_def loadedQueue_def)

theorem registry_eventually_consistent_witness:
  "\<exists>s. queueReaches sampleLib sampleCml (\<lambda>e. \<not> stripsAnnotation sampleCml e) s \<and> idle s
    \<and> lookupInst (cs_Registry (wq_Controller s)) ''obs/a'' = Some (sampleInst ''7'' ''apps'')"
proof -
  have run: "queueReaches sampleLib sampleCml (\<lambda>e. \<not> stripsAnnotation sampleCml e) loadedQueue"
    by (rule loaded_run) simp
  have "\<exists>k cm. ''obs/a'' = cmKeyOf k \<and> ca_ConfigMaps (wq_Caches loadedQueue) k = Some cm
      \<and> hasSelectorAnnotation sampleCml (cm_Meta cm) \<and> nodeAlive (wq_Caches loadedQueue) (nodeOf sampleCml cm)
      \<and> payload sampleCml cm = Some (sampleInst ''7'' ''apps'') \<and> hasRules (sampleInst ''7'' ''apps'')"
    by (intro exI [of _ "(''obs'', ''a'')"] exI [of _ selectorCM])
      (simp add: cmKeyOf_def nsName_def loadedQueue_def loadedCaches_def hasSelectorAnnotation_def sampleCml_def selectorCM_def
        nodeAlive_def nodeOf_def gm_str_def payload_def parseConfigMap_def hasRules_def instRules_def sampleInst_def)
  with registry_eventually_consistent [OF run _ loaded_idle] run loaded_idle show ?thesis by blast
qed

text \<open>
  Without the hypothesis on the annotation it fails: strip the annotation off the loaded ConfigMap,
  and the controller is idle again with the rules still in force.
\<close>

theorem stripped_annotation_leaves_rules:
  "\<exists>s. queueReaches sampleLib sampleCml (\<lambda>e. True) s \<and> idle s
    \<and> lookupInst (cs_Registry (wq_Controller s)) ''obs/a'' = Some (sampleInst ''7'' ''apps'')
    \<and> (\<forall>k cm. ca_ConfigMaps (wq_Caches s) k = Some cm \<longrightarrow> \<not> hasSelectorAnnotation sampleCml (cm_Meta cm))"
proof -
  let ?cm = "selectorCM\<lparr>cm_Meta := (cm_Meta selectorCM)\<lparr>om_Annotations := []\<rparr>\<rparr>"
  let ?c = "loadedCaches\<lparr>ca_ConfigMaps := (ca_ConfigMaps loadedCaches)((''obs'', ''a'') \<mapsto> ?cm)\<rparr>"
  let ?e = "CMUpdate (cm_Meta selectorCM) (cm_Meta ?cm)"
  let ?step = "queueStep sampleLib sampleCml (\<lambda>e. True)"
  let ?s1 = "loadedQueue\<lparr>wq_Caches := ?c, wq_Events := [?e]\<rparr>"
  let ?s2 = "loadedQueue\<lparr>wq_Caches := ?c\<rparr>"
  have "cacheChange loadedCaches ?e ?c"
    by (rule cacheChange.cmUpdate) (simp_all add: loadedCaches_def requestFor_def selectorCM_def)
  then have "?step loadedQueue ?s1"
    using queueStep.change [of loadedQueue ?e ?c "\<lambda>e. True" sampleLib sampleCml] by (simp add: loadedQueue_def)
  then have s1: "queueReaches sampleLib sampleCml (\<lambda>e. True) ?s1"
    by (rule queueReaches.more [OF loaded_run [of "\<lambda>e. True", OF TrueI]])
  have l: "listing ?c [?cm]" by (auto simp: listing_def loadedCaches_def noCaches_def ran_def)
  have "enqueued sampleCml (servedFrom ?c [?cm]) ?e = []"
    by (simp add: ownRequest_def hasSelectorAnnotation_def)
  then have "?step ?s1 ?s2"
    using queueStep.deliver [of ?s1 "[]" ?e "[]" "servedFrom ?c [?cm]" "[?cm]" sampleLib sampleCml "\<lambda>e. True"]
      servedFrom_answers [OF _ l, of "{?c}"] by (simp add: loadedQueue_def servedFrom_def)
  with s1 have "queueReaches sampleLib sampleCml (\<lambda>e. True) ?s2" by (rule queueReaches.more)
  moreover have "lookupInst (cs_Registry (wq_Controller ?s2)) ''obs/a'' = Some (sampleInst ''7'' ''apps'')"
    by (simp add: loadedQueue_def reg.lookup_set reg.invar_empty) (simp add: hasRules_def instRules_def sampleInst_def)
  moreover have "\<not> hasSelectorAnnotation sampleCml (cm_Meta cm)" if "ca_ConfigMaps (wq_Caches ?s2) k = Some cm" for k cm
    using that by (auto simp: loadedCaches_def noCaches_def hasSelectorAnnotation_def split: if_split_asm)
  moreover have "idle ?s2" by (simp add: idle_def loadedQueue_def)
  ultimately show ?thesis by blast
qed

text \<open>The loaded queue is drained already; the hypotheses hold in it.\<close>

lemma loaded_healthy: "\<not> poisoned sampleCml loadedCaches k"
  by (simp add: poisoned_def view_def loadedCaches_def noCaches_def parseConfigMap_def sampleCml_def selectorCM_def)

theorem queue_drains_witness:
  "\<exists>s. queueReaches sampleLib sampleCml (\<lambda>e. \<not> stripsAnnotation sampleCml e) s \<and> wfp (calmStep sampleLib sampleCml)\<inverse>\<inverse>
    \<and> (\<forall>s'. (calmStep sampleLib sampleCml)\<^sup>*\<^sup>* s s' \<and> (\<nexists>s''. calmStep sampleLib sampleCml s' s'') \<longrightarrow> idle s')"
proof -
  have run: "queueReaches sampleLib sampleCml (\<lambda>e. \<not> stripsAnnotation sampleCml e) loadedQueue"
    by (rule loaded_run) simp
  have "\<forall>k. \<not> poisoned sampleCml (wq_Caches loadedQueue) k" by (simp add: loaded_healthy loadedQueue_def)
  with queue_drains [OF run _ this] run show ?thesis by blast
qed

text \<open>A ConfigMap with a list of two restart entries, the second of them null, and a request for one that is gone.\<close>

definition poisonCM :: configMap where
  "poisonCM = selectorCM\<lparr>cm_Data := [(''eligible_for_restart.yaml'', ''x'')]\<rparr>"

definition poisonCaches :: caches where
  "poisonCaches = noCaches\<lparr>ca_ConfigMaps := (ca_ConfigMaps noCaches)((''obs'', ''a'') \<mapsto> poisonCM)\<rparr>"

theorem poisoned_ConfigMap_blocks_cleanup_witness:
  "Reconcile sampleLib sampleCml sampleOrder (servedFrom poisonCaches [poisonCM]) sampleReconciler ''obs'' ''gone'' startState = Panic
    \<or> (\<exists>e. Reconcile sampleLib sampleCml sampleOrder (servedFrom poisonCaches [poisonCM]) sampleReconciler ''obs'' ''gone'' startState
        = Returns ((emptyResult, Some e), forget (cmKeyOf (''obs'', ''gone'')) startState))"
proof -
  have l: "listing poisonCaches [poisonCM]" by (auto simp: listing_def poisonCaches_def noCaches_def ran_def)
  have "poisoned sampleCml poisonCaches (''obs'', ''a'')"
    by (simp add: poisoned_def view_def poisonCaches_def poisonCM_def selectorCM_def hasSelectorAnnotation_def sampleCml_def
        nodeAlive_def nodeOf_def gm_str_def parseConfigMap_def sortEligible_def)
  then have "\<forall>c\<in>{poisonCaches}. poisoned sampleCml c (''obs'', ''a'') \<and> ca_ConfigMaps c (''obs'', ''a'') = Some poisonCM"
    by (simp add: poisonCaches_def)
  from poisoned_ConfigMap_blocks_cleanup [OF servedFrom_answers [OF _ l] this, of "(''obs'', ''gone'')" sampleReconciler]
  show ?thesis
    by (simp add: servedFrom_def poisonCaches_def noCaches_def gateClosed_def sampleReconciler_def sampleSDK_def) blast
qed

declare split_paired_All [simp] split_paired_Ex [simp]

end
