(* ===== verification/Cleanup.thy ===== *)
theory Cleanup
  imports Watches Rollout
begin

text \<open>
  Sweeps and ConfigMaps that are not loaded yet (\<open>reconcileRollouts\<close> and \<open>refreshRegistry\<close> in
  \<open>internal/controller/configmap_controller.go\<close>). A cleanup first loads every ConfigMap of the
  cache, so what the controller had loaded before has no influence on it; a targeted sweep
  goes by what is loaded, and right after the start that may be one ConfigMap of many.
\<close>

section \<open>A cleanup loads everything first\<close>

lemma snapshot_contribution:
  assumes "snapshotLoop cml cl cms [] = Returns (Inr insts)" "answers {c} cl" "cm \<in> set cms"
  shows "contributes cml cl cm = Some i \<longleftrightarrow>
    hasSelectorAnnotation cml (cm_Meta cm) \<and> nodeAlive c (nodeOf cml cm) \<and> payload cml cm = Some i"
proof (cases "hasSelectorAnnotation cml (cm_Meta cm)")
  case True
  have "stateNodeEligible cml cl cm = (nodeAlive c (nodeOf cml cm), None)"
    by (rule node_answer [OF assms(2) singletonI]) (use snapshotLoop_nodes_known [OF assms(1,3) True] in simp_all)
  with True show ?thesis by (simp add: contributes_def payload_def)
qed (simp add: contributes_def)

lemma listed_ConfigMap:
  assumes "caches_ok c" "listing c cms"
  shows "cm \<in> set cms \<and> cmObjectKey cm = key \<longleftrightarrow> (\<exists>k. key = cmKeyOf k \<and> ca_ConfigMaps c k = Some cm)"
  using assms(2) caches_ok_ConfigMap [OF assms(1)] unfolding listing_def
  by (auto simp: ran_def cmObjectKey_request) blast+

lemma refresh_exact:
  assumes "refreshRegistry cml cl reg = Returns (None, reg')" "answers {c} cl" "caches_ok c"
  shows "lookupInst reg' key = Some i \<longleftrightarrow>
    (\<exists>k cm. key = cmKeyOf k \<and> ca_ConfigMaps c k = Some cm \<and> hasSelectorAnnotation cml (cm_Meta cm)
      \<and> nodeAlive c (nodeOf cml cm) \<and> payload cml cm = Some i \<and> hasRules i)"
proof -
  obtain cms insts where l: "cl_listConfigMaps cl = Inr cms" "snapshotLoop cml cl cms [] = Returns (Inr insts)"
    using assms(1) by (auto simp: refreshRegistry_def split: sum.split_asm goRun.split_asm)
  have list: "listing c cms" using assms(2) l(1) by (simp add: answers_def)
  have "lookupInst reg' key = Some i \<longleftrightarrow> hasRules i \<and> (\<exists>cm\<in>set cms. cmObjectKey cm = key \<and> contributes cml cl cm = Some i)"
    using refresh_snapshot [OF assms(1) l(1)] list by (simp add: listing_def)
  also have "\<dots> \<longleftrightarrow> hasRules i \<and> (\<exists>cm. (cm \<in> set cms \<and> cmObjectKey cm = key)
      \<and> hasSelectorAnnotation cml (cm_Meta cm) \<and> nodeAlive c (nodeOf cml cm) \<and> payload cml cm = Some i)"
    using snapshot_contribution [OF l(2) assms(2)] by blast
  finally show ?thesis unfolding listed_ConfigMap [OF assms(3) list] by blast
qed

text \<open>A pass that sweeps and ends without a delay went through the gates.\<close>

lemma pass_swept:
  assumes "Reconcile lib cml ro cl r ns name st = Returns ((emptyResult, None), st')"
    "intentOf cml cl ns name = Sweep oper targets c" "\<not> sd_NoAutoRestart (cr_DefaultSDKConfig r)"
  obtains reg e where "rolloutMatching lib ro cl r targets c (st\<lparr>cs_Registry := reg\<rparr>) = (e, st')"
    "c \<Longrightarrow> refreshRegistry cml cl (cs_Registry (track oper st)) = Returns (None, reg) \<and> e = None"
    "\<not> c \<Longrightarrow> reg = cs_Registry (track oper st)"
proof -
  have pass: "reconcileRollouts lib cml ro cl r targets c (track oper st) = Returns ((emptyResult, None), st')"
    using assms(1,2) by (simp add: Reconcile_intent)
  have "\<not> gateClosed r cl"
  proof
    assume "gateClosed r cl"
    from gate_defers [OF this assms(3), of lib cml ro targets c "track oper st"] pass show False
      by (simp add: emptyResult_def)
  qed
  then have "\<not> (case cr_WebhookReady r of Some (Some e) \<Rightarrow> True | _ \<Rightarrow> False)"
    "\<not> (cr_WebhookServiceAddr r \<noteq> '''' \<and> dialWebhookService cl (cr_WebhookServiceAddr r) \<noteq> None)"
    by (auto simp: gateClosed_def split: option.split_asm)
  moreover have "(track oper st)\<lparr>cs_Registry := x\<rparr> = st\<lparr>cs_Registry := x\<rparr>" for x by (simp add: track_def)
  ultimately show thesis using pass assms(3) that
    by (auto simp: reconcileRollouts_def Let_def split: goRun.split_asm option.split_asm prod.split_asm if_split_asm)
qed

text \<open>
  C11. A cleanup knows every ConfigMap: whatever the controller had loaded before, nothing at all
  for instance because it has just started, the cleanup pass of a deleted ConfigMap that ends
  well leaves a registry that is exact for the caches, and it restarts precisely the workloads
  of live instrumented pods that no rule of that registry selects. So a ConfigMap that the
  controller has not come to yet already protects its pods.
\<close>

theorem cleanup_knows_every_ConfigMap:
  assumes "Reconcile lib cml ro cl r ns name st = Returns ((emptyResult, None), st')" "cl_getConfigMap cl ns name = NotFound"
    and "\<not> sd_NoAutoRestart (cr_DefaultSDKConfig r)"
    and "range_ok ro" "answers {c} cl" "caches_ok c" "cl_listPods cl = Inr items"
  shows "(\<forall>key i. lookupInst (cs_Registry st') key = Some i \<longleftrightarrow>
      (\<exists>k cm. key = cmKeyOf k \<and> ca_ConfigMaps c k = Some cm \<and> hasSelectorAnnotation cml (cm_Meta cm)
        \<and> nodeAlive c (nodeOf cml cm) \<and> payload cml cm = Some i \<and> hasRules i))
    \<and> (\<exists>keys. distinct keys \<and> set keys = cleanupWorkloads lib (cs_Registry st') cl items
        \<and> cs_Patches st' = cs_Patches st @ map (\<lambda>k. (k, restartPatch (cl_now cl))) keys)"
proof -
  have "intentOf cml cl ns name = Sweep (OpDelete (nsName ns name)) [] True" using assms(2) by (simp add: intentOf_def)
  from assms(1) this assms(3) obtain reg where
    sweep: "rolloutMatching lib ro cl r [] True (st\<lparr>cs_Registry := reg\<rparr>) = (None, st')"
    and ref: "refreshRegistry cml cl (cs_Registry (track (OpDelete (nsName ns name)) st)) = Returns (None, reg)"
    by (rule pass_swept) blast
  from cleanup_sweep [OF assms(4,7), of "st\<lparr>cs_Registry := reg\<rparr>" lib r "[]"] obtain keys where
    "sentFor cl (st\<lparr>cs_Registry := reg\<rparr>) st' keys" "set keys = cleanupWorkloads lib reg cl items"
    unfolding sweep by auto
  then have "cs_Registry st' = reg" "distinct keys" "set keys = cleanupWorkloads lib reg cl items"
    "cs_Patches st' = cs_Patches st @ map (\<lambda>k. (k, restartPatch (cl_now cl))) keys"
    by (simp_all add: sentFor_def)
  then show ?thesis using refresh_exact [OF ref assms(5,6)] by blast
qed

text \<open>
  The controller has just started and nothing is loaded; a ConfigMap is gone, another one selects the
  injected pod that is still there.
\<close>

definition protectingCluster :: cluster where
  "protectingCluster = (servedFrom loadedCaches [selectorCM])\<lparr>cl_listPods := Inr [leftoverPod]\<rparr>"

lemma protecting_answers: "answers {loadedCaches} protectingCluster"
  using servedFrom_answers [OF singletonI loaded_listing] by (simp add: protectingCluster_def answers_def)

lemma loadedCaches_ok: "caches_ok loadedCaches"
  by (auto simp: caches_ok_def loadedCaches_def noCaches_def requestFor_def request_ok_def selectorCM_def)

lemma protecting_pass:
  "\<exists>st'. Reconcile sampleLib sampleCml sampleOrder protectingCluster sampleReconciler ''obs'' ''gone'' startState
    = Returns ((emptyResult, None), st')"
proof -
  have c: "cl_getConfigMap protectingCluster ''obs'' ''gone'' = NotFound" "cl_listConfigMaps protectingCluster = Inr [selectorCM]"
      "cl_listPods protectingCluster = Inr [leftoverPod]" "cl_patch protectingCluster k q = None" for k q
    by (simp_all add: protectingCluster_def servedFrom_def loadedCaches_def noCaches_def)
  have "stateNodeEligible sampleCml protectingCluster selectorCM = (True, None)"
    by (simp add: stateNodeEligible_def sampleCml_def selectorCM_def gm_str_def)
  then obtain insts where "snapshotLoop sampleCml protectingCluster [selectorCM] [] = Returns (Inr insts)"
    using snapshotLoop_runs [of "[selectorCM]" sampleCml protectingCluster "[]"]
    by (auto simp: parseConfigMap_def sampleCml_def selectorCM_def)
  then have ref: "refreshRegistry sampleCml protectingCluster reg = Returns (None, RegistryReplace insts reg)" for reg
    by (simp add: refreshRegistry_def c)
  have r: "\<not> sd_NoAutoRestart (cr_DefaultSDKConfig sampleReconciler)" "cr_WebhookReady sampleReconciler = None"
      "cr_WebhookServiceAddr sampleReconciler = ''''"
    by (simp_all add: sampleReconciler_def sampleSDK_def)
  have "fst (rolloutMatching sampleLib sampleOrder protectingCluster sampleReconciler [] True st) = None" for st
    by (rule cleanup_no_error [OF sampleOrder_ok]) (simp_all add: c)
  then show ?thesis by (simp add: Reconcile_def c reconcileRollouts_def r ref case_prod_unfold Let_def)
qed

theorem cleanup_knows_every_ConfigMap_witness:
  "\<exists>st'. Reconcile sampleLib sampleCml sampleOrder protectingCluster sampleReconciler ''obs'' ''gone'' startState
      = Returns ((emptyResult, None), st')
    \<and> lookupInst (cs_Registry st') ''obs/a'' = Some (sampleInst ''7'' ''apps'')"
proof -
  obtain st' where run: "Reconcile sampleLib sampleCml sampleOrder protectingCluster sampleReconciler ''obs'' ''gone'' startState
    = Returns ((emptyResult, None), st')" using protecting_pass by blast
  have c: "cl_getConfigMap protectingCluster ''obs'' ''gone'' = NotFound" "cl_listPods protectingCluster = Inr [leftoverPod]"
      "\<not> sd_NoAutoRestart (cr_DefaultSDKConfig sampleReconciler)"
    by (simp_all add: protectingCluster_def servedFrom_def loadedCaches_def noCaches_def sampleReconciler_def sampleSDK_def)
  have "''obs/a'' = cmKeyOf (''obs'', ''a'') \<and> ca_ConfigMaps loadedCaches (''obs'', ''a'') = Some selectorCM
      \<and> hasSelectorAnnotation sampleCml (cm_Meta selectorCM) \<and> nodeAlive loadedCaches (nodeOf sampleCml selectorCM)
      \<and> payload sampleCml selectorCM = Some (sampleInst ''7'' ''apps'') \<and> hasRules (sampleInst ''7'' ''apps'')"
    by (simp add: cmKeyOf_def nsName_def loadedCaches_def hasSelectorAnnotation_def sampleCml_def selectorCM_def
        nodeAlive_def nodeOf_def gm_str_def payload_def parseConfigMap_def hasRules_def instRules_def sampleInst_def)
  with cleanup_knows_every_ConfigMap [OF run c(1,3) sampleOrder_ok protecting_answers loadedCaches_ok c(2)] run
  show ?thesis by blast
qed

section \<open>A targeted sweep does not\<close>

text \<open>
  Right after the start two ConfigMaps are there. The first lists a StatefulSet for a restart, the
  second selects its pod, which was injected by that very rule and is up to date.
\<close>

definition askingCml :: "string cmLib" where
  "askingCml = sampleCml\<lparr>cml_yamlEligible := (\<lambda>raw. Inr [Some \<lparr>ed_Namespace = ''apps'', ed_Kind = ''StatefulSet'',
     ed_Name = '''', ed_Language = ''''\<rparr>])\<rparr>"

definition askingCM :: configMap where
  "askingCM = selectorCM\<lparr>cm_Data := [(''eligible_for_restart.yaml'', ''x'')]\<rparr>"

definition tendingCM :: configMap where
  "tendingCM = selectorCM\<lparr>cm_Meta := (cm_Meta selectorCM)\<lparr>om_Name := ''b''\<rparr>\<rparr>"

definition tendedPod :: pod where
  "tendedPod = ownedPod\<lparr>pod_Meta := (pod_Meta ownedPod)\<lparr>om_Annotations := [(InjectedAnnotation, wantedHash (bl_ruleHash sampleLib)
     (WithConfigMapOverrides (sampleSDK ''1'') (InjectConfig (sampleInst ''7'' ''apps''))) (rule_Config sampleRule))]\<rparr>\<rparr>"

definition bothCaches :: caches where
  "bothCaches = noCaches\<lparr>ca_ConfigMaps := (ca_ConfigMaps noCaches)((''obs'', ''a'') \<mapsto> askingCM, (''obs'', ''b'') \<mapsto> tendingCM)\<rparr>"

definition bothCluster :: cluster where
  "bothCluster = (servedFrom bothCaches [askingCM, tendingCM])
     \<lparr>cl_listPodsIn := (\<lambda>ns. Inr (if ns = ''apps'' then [tendedPod] else []))\<rparr>"

lemma tended_current: "decision sampleLib (RegistrySet ''obs/b'' (sampleInst ''7'' ''apps'') RegistryNew) rd (sampleSDK ''1'') tendedPod = Current"
proof -
  have reg: "RegistrySet ''obs/b'' (sampleInst ''7'' ''apps'') RegistryNew = \<lparr>instruments = [(''obs/b'', sampleInst ''7'' ''apps'')]\<rparr>"
    by (simp add: RegistrySet_def RegistryNew_def sampleInst_def)
  have "Match (bl_match sampleLib) \<lparr>instruments = [(''obs/b'', sampleInst ''7'' ''apps'')]\<rparr> (Resolve rd tendedPod)
      = Some (sampleRule, InjectConfig (sampleInst ''7'' ''apps''))"
    by (simp add: Match_def generateMatchInputUnlocked_def sampleLib_def sampleInst_def instAt_def nsSelector_def
        buildMatchInput_def tendedPod_def ownedPod_def samplePod_def ModeSkip_def sampleRule_def)
  then show ?thesis unfolding reg
    by (simp add: decision_def Let_def tendedPod_def) (simp add: WithConfigMapOverrides_def sampleInst_def)
qed

lemma tended_pod:
  "rollable rd tendedPod" "resolveWorkload (Resolve rd tendedPod) = \<lparr>wk_Namespace = ''apps'', wk_Kind = ''StatefulSet'', wk_Name = ''db''\<rparr>"
  "matchesTarget (Resolve rd tendedPod) \<lparr>tc_Namespace = ns, tc_Kind = ''StatefulSet'', tc_Name = '''', tc_Language = l\<rparr>"
  "needsRollout sampleLib RegistryNew rd cfg tendedPod"
proof -
  have m: "om_Namespace (pod_Meta tendedPod) = ''apps''" "om_DeletionTimestamp (pod_Meta tendedPod) = None"
    "om_OwnerReferences (pod_Meta tendedPod) = [\<lparr>or_APIVersion = ''apps/v1'', or_Kind = ''StatefulSet'',
       or_Name = ''db'', or_UID = ''u'', or_Controller = Some True\<rparr>]" "IsInstrumented (pod_Meta tendedPod)"
    by (simp_all add: tendedPod_def ownedPod_def samplePod_def emptyMeta_def IsInstrumented_def)
  have c: "pi_OwnerChain (Resolve rd tendedPod) = [\<lparr>ow_Kind = ''Pod'', ow_Name = om_Name (pod_Meta tendedPod)\<rparr>,
      \<lparr>ow_Kind = ''StatefulSet'', ow_Name = ''db''\<rparr>]" for rd
    by (simp add: Resolve_def m controllerRef_def Let_def)
  have "Match (bl_match sampleLib) (RegistryNew :: string registry) i = None" for i
    by (simp add: Match_def generateMatchInputUnlocked_def RegistryNew_def)
  then show "needsRollout sampleLib RegistryNew rd cfg tendedPod" by (simp add: needsRollout_def decision_def m)
  show "rollable rd tendedPod" by (simp add: rollable_def c m rollableKind_def kind_defs)
  show "resolveWorkload (Resolve rd tendedPod) = \<lparr>wk_Namespace = ''apps'', wk_Kind = ''StatefulSet'', wk_Name = ''db''\<rparr>"
    by (simp add: resolveWorkload_def c m rollableKind_def kind_defs)
  show "matchesTarget (Resolve rd tendedPod) \<lparr>tc_Namespace = ns, tc_Kind = ''StatefulSet'', tc_Name = '''', tc_Language = l\<rparr>"
    by (simp add: matchesTarget_def c)
qed

lemma tended_workload:
  "targetedWorkloads sampleLib RegistryNew bothCluster cfg [\<lparr>tc_Namespace = ''apps'', tc_Kind = ''StatefulSet'', tc_Name = '''', tc_Language = ''''\<rparr>]
    = {\<lparr>wk_Namespace = ''apps'', wk_Kind = ''StatefulSet'', wk_Name = ''db''\<rparr>}"
  by (auto simp: targetedWorkloads_def tended_pod protectedNamespaces_def bothCluster_def)

lemma asking_pass:
  "\<exists>st'. Reconcile sampleLib askingCml sampleOrder bothCluster sampleReconciler ''obs'' ''a'' startState = Returns ((emptyResult, None), st')
    \<and> cs_Registry st' = RegistryNew
    \<and> cs_Patches st' = [(\<lparr>wk_Namespace = ''apps'', wk_Kind = ''StatefulSet'', wk_Name = ''db''\<rparr>, restartPatch (cl_now bothCluster))]"
proof -
  let ?t = "[\<lparr>tc_Namespace = ''apps'', tc_Kind = ''StatefulSet'', tc_Name = '''', tc_Language = ''''\<rparr>]"
  let ?st = "startState\<lparr>cs_Registry := RegistryNew\<rparr>"
  have p: "parseConfigMap askingCml (cm_Data askingCM) = Returns (Inr (\<lparr>InjectConfig = emptyInjectConfig\<rparr>, ?t))"
    by (simp add: parseConfigMap_def askingCml_def sampleCml_def askingCM_def sortEligible_def restartKinds_def kind_defs)
  have n: "stateNodeEligible askingCml bothCluster askingCM = (True, None)"
    by (simp add: stateNodeEligible_def askingCml_def sampleCml_def askingCM_def selectorCM_def gm_str_def)
  have a: "hasSelectorAnnotation askingCml (cm_Meta askingCM)"
    by (simp add: hasSelectorAnnotation_def askingCml_def sampleCml_def askingCM_def selectorCM_def)
  have g: "cl_getConfigMap bothCluster ''obs'' ''a'' = Found askingCM" "gm_get (cm_Data askingCM) (cml_KeyInstrumentation askingCml) = None"
    by (simp_all add: bothCluster_def servedFrom_def bothCaches_def askingCM_def askingCml_def sampleCml_def)
  have r: "\<not> sd_NoAutoRestart (cr_DefaultSDKConfig sampleReconciler)" "cr_WebhookReady sampleReconciler = None"
      "cr_WebhookServiceAddr sampleReconciler = ''''"
    by (simp_all add: sampleReconciler_def sampleSDK_def)
  have s: "RegistrySet k \<lparr>InjectConfig = emptyInjectConfig\<rparr> (cs_Registry startState) = RegistryNew" for k
    by (simp add: RegistrySet_def RegistryNew_def startState_def emptyInjectConfig_def)
  have run: "Reconcile sampleLib askingCml sampleOrder bothCluster sampleReconciler ''obs'' ''a'' startState
      = Returns ((emptyResult, None), snd (rolloutMatching sampleLib sampleOrder bothCluster sampleReconciler ?t False ?st))"
    by (simp add: Reconcile_def g a n p s reconcileRollouts_def r case_prod_unfold Let_def)
  from targeted_sweep [OF sampleOrder_ok, of ?t bothCluster ?st sampleLib sampleReconciler] obtain keys where
    keys: "sentFor bothCluster ?st (snd (rolloutMatching sampleLib sampleOrder bothCluster sampleReconciler ?t False ?st)) keys"
      "set keys = {\<lparr>wk_Namespace = ''apps'', wk_Kind = ''StatefulSet'', wk_Name = ''db''\<rparr>}"
    using tended_workload by (auto simp: bothCluster_def)
  then have "keys = [\<lparr>wk_Namespace = ''apps'', wk_Kind = ''StatefulSet'', wk_Name = ''db''\<rparr>]"
    by (cases keys) (auto simp: sentFor_def dest: subset_singletonD)
  with keys(1) run show ?thesis by (simp add: sentFor_def startState_def)
qed


lemma bothCaches_listing: "listing bothCaches [askingCM, tendingCM]"
proof -
  have "cmObjectKey askingCM \<noteq> cmObjectKey tendingCM"
    by (simp add: cmObjectKey_def askingCM_def tendingCM_def selectorCM_def nsName_def)
  moreover have "ran (ca_ConfigMaps bothCaches) = {askingCM, tendingCM}"
    by (auto simp: bothCaches_def noCaches_def)
  ultimately show ?thesis by (simp add: listing_def)
qed

text \<open>
  The sweep for the first ConfigMap restarts the pod, because no rule of the registry selects it,
  although the second is in the cache and in the queue: with its rules loaded the pod would be
  current, and nothing would happen to it.
\<close>

theorem targeted_sweep_misses_unloaded_rules:
  "\<exists>s. queueReaches sampleLib askingCml (\<lambda>e. True) s
    \<and> ca_ConfigMaps (wq_Caches s) (''obs'', ''b'') = Some tendingCM \<and> (''obs'', ''b'') \<in> wq_Queue s
    \<and> payload askingCml tendingCM = Some (sampleInst ''7'' ''apps'')
    \<and> decision sampleLib (RegistrySet ''obs/b'' (sampleInst ''7'' ''apps'') (cs_Registry (wq_Controller s))) noReader (sampleSDK ''1'') tendedPod = Current
    \<and> fst ` set (cs_Patches (wq_Controller s)) = {resolveWorkload (Resolve noReader tendedPod)}"
proof -
  let ?reaches = "queueReaches sampleLib askingCml (\<lambda>e. True)"
  let ?a = "(''obs'', ''a'')" and ?b = "(''obs'', ''b'')"
  let ?c1 = "noCaches\<lparr>ca_ConfigMaps := (ca_ConfigMaps noCaches)(?a \<mapsto> askingCM)\<rparr>"
  let ?s0 = "startQueue :: string workQueue"
  let ?s1 = "?s0\<lparr>wq_Caches := ?c1, wq_Queue := insert ?a (wq_Queue ?s0)\<rparr>"
  let ?s2 = "?s1\<lparr>wq_Caches := bothCaches, wq_Queue := insert ?b (wq_Queue ?s1)\<rparr>"
  let ?s3 = "?s2\<lparr>wq_Queue := wq_Queue ?s2 - {?a}, wq_Active := Some (?a, {wq_Caches ?s2})\<rparr>"
  have annotated: "hasSelectorAnnotation askingCml (cm_Meta askingCM)" "hasSelectorAnnotation askingCml (cm_Meta tendingCM)"
    by (simp_all add: hasSelectorAnnotation_def askingCml_def sampleCml_def askingCM_def tendingCM_def selectorCM_def)
  have key: "requestFor (cm_Meta askingCM) = ?a" "requestFor (cm_Meta tendingCM) = ?b" "request_ok ?a" "request_ok ?b"
    by (simp_all add: requestFor_def askingCM_def tendingCM_def selectorCM_def request_ok_def)
  have l1: "listing ?c1 [askingCM]" by (simp add: listing_def noCaches_def)
  have s1: "?reaches ?s1"
    by (rule create_queued [where happens = "\<lambda>e. True", OF queueReaches.start _ _ TrueI _ l1 _ key(1,3) annotated(1)]) (simp_all add: startQueue_def noCaches_def)
  have s2: "?reaches ?s2"
    by (rule create_queued [where happens = "\<lambda>e. True", OF s1 _ _ TrueI _ bothCaches_listing _ key(2,4) annotated(2)])
      (simp_all add: startQueue_def noCaches_def bothCaches_def)
  have s3: "?reaches ?s3"
    by (rule queueReaches.more [OF s2 queueStep.begin_pass]) (simp_all add: startQueue_def)
  obtain st' where st': "Reconcile sampleLib askingCml sampleOrder bothCluster sampleReconciler (fst ?a) (snd ?a) (wq_Controller ?s3)
      = Returns ((emptyResult, None), st')" "cs_Registry st' = RegistryNew"
    "cs_Patches st' = [(\<lparr>wk_Namespace = ''apps'', wk_Kind = ''StatefulSet'', wk_Name = ''db''\<rparr>, restartPatch (cl_now bothCluster))]"
    using asking_pass by (auto simp: startQueue_def startState_def)
  let ?s4 = "?s3\<lparr>wq_Active := None, wq_Controller := st', wq_Queue := (if comesBack (emptyResult, None) then insert ?a (wq_Queue ?s3) else wq_Queue ?s3)\<rparr>"
  have "answers {wq_Caches ?s2} bothCluster"
    using servedFrom_answers [OF singletonI bothCaches_listing] by (simp add: bothCluster_def answers_def)
  moreover have "lists_ok bothCluster"
    by (simp add: lists_ok_def bothCluster_def tendedPod_def ownedPod_def samplePod_def)
  ultimately have s4: "?reaches ?s4"
    by (intro queueReaches.more [OF s3 queueStep.end_pass [OF _ _ sampleOrder_ok _ st'(1)]]) simp_all
  have "payload askingCml tendingCM = Some (sampleInst ''7'' ''apps'')"
    by (simp add: payload_def parseConfigMap_def askingCml_def sampleCml_def tendingCM_def selectorCM_def sampleInst_def)
  moreover have "resolveWorkload (Resolve noReader tendedPod) = \<lparr>wk_Namespace = ''apps'', wk_Kind = ''StatefulSet'', wk_Name = ''db''\<rparr>"
    by (rule tended_pod(2))
  moreover have "?b \<in> wq_Queue ?s4" "ca_ConfigMaps (wq_Caches ?s4) ?b = Some tendingCM"
    by (simp_all add: startQueue_def bothCaches_def)
  ultimately show ?thesis using s4 st'(2,3) tended_current by (intro exI [of _ ?s4]) simp
qed

end
