(* ===== verification/EndToEnd.thy ===== *)
theory EndToEnd
  imports Cleanup Lifecycle
begin

text \<open>
  From a change of a ConfigMap to the pods: one pass of the started program
  (\<open>Reconcile\<close>, \<open>reconcileRollouts\<close> and \<open>rolloutMatching\<close> in
  \<open>internal/controller/configmap_controller.go\<close>, wired as in \<open>cmd/main.go\<close>), the replacement of the
  pods of the workloads it patched, each pod through the webhook, and what the cluster looks
  like afterwards. The replacement is the one of Rollout, with the registry the pass leaves;
  the theorems say that it can complete and what holds however it does.
\<close>

section \<open>From a reconciliation to the pods\<close>

text \<open>What a sweep of the started program sends, and what is left to ask for once its rollout is through.\<close>

lemma swept_world:
  fixes lib :: "'sel beylaLib" and m :: "sdkInjectionMetrics option"
  assumes "rolloutMatching lib ro cl (wiredReconciler pl started) targets c st = (e, st')"
    "ignoresInjected (bl_match lib)" "recreates rd fresh" "range_ok ro" "serves rd w cl"
    "\<forall>e\<in>set (wd_Pods w). fst e \<noteq> restartPatch (cl_now cl)"
    and sent: "e = None \<or> (\<forall>k. cl_patch cl k (restartPatch (cl_now cl)) = None)"
  shows "cs_Registry st' = cs_Registry st
    \<and> (\<exists>keys. cs_Patches st' = cs_Patches st @ map (\<lambda>k. (k, restartPatch (cl_now cl))) keys
      \<and> (\<exists>s. (replaceStep lib deps (wiredDefaulter pl (cs_Registry st) rd) fresh)\<^sup>*\<^sup>* (patched cl keys w, m) s
          \<and> outdatedCount rd (fst s) = 0)
      \<and> (\<forall>w2 m2. (replaceStep lib deps (wiredDefaulter pl (cs_Registry st) rd) fresh)\<^sup>*\<^sup>* (patched cl keys w, m) (w2, m2)
          \<and> outdatedCount rd w2 = 0 \<longrightarrow> askedIn lib (cs_Registry st) (pl_SDKConfig pl) rd targets c w2 = {}))"
proof -
  let ?d = "wiredDefaulter pl (cs_Registry st) rd"
  from sweep_asked [OF assms(4,5), of st lib "wiredReconciler pl started" targets c] obtain keys where
    k: "sentFor cl st st' keys" "set keys = askedIn lib (cs_Registry st) (pl_SDKConfig pl) rd targets c w"
    by (auto simp: assms(1))
  have patches: "cs_Patches st' = cs_Patches st @ map (\<lambda>k. (k, restartPatch (cl_now cl))) keys" "cs_Registry st' = cs_Registry st"
    using k(1) by (simp_all add: sentFor_def)
  have ok: "\<forall>k\<in>set keys. cl_patch cl k (restartPatch (cl_now cl)) = None"
    using sent sweep_all_patched [OF assms(4) _ patches(1)] assms(1) by blast
  have m: "pcd_Mutator ?d = Some \<lparr>pm_Cfg = pl_SDKConfig pl\<rparr>" "recreates (pcd_Reader ?d) fresh" using assms(3) by simp_all
  have "askedIn lib (cs_Registry st) (pl_SDKConfig pl) rd targets c w2 = {}"
    if "(replaceStep lib deps ?d fresh)\<^sup>*\<^sup>* (patched cl keys w, m) (w2, m2)" "outdatedCount rd w2 = 0" for w2 m2
    using replaced_asks [OF assms(2) m assms(6) that(1), of targets c] that(2) k(2) ok by auto
  moreover have "\<exists>s. (replaceStep lib deps ?d fresh)\<^sup>*\<^sup>* (patched cl keys w, m) s \<and> outdatedCount rd (fst s) = 0"
    using hook.completes [OF assms(3) [unfolded recreates_def]] by simp
  ultimately show ?thesis using patches by blast
qed

text \<open>What it says about a pod that no sweep asks for any more.\<close>

lemma unasked_by_cleanup:
  assumes "askedIn lib reg cfg rd targets True w = {}" "p \<in> snd ` set (wd_Pods w)"
    "IsInstrumented (pod_Meta p)" "rollable rd p" "om_Namespace (pod_Meta p) \<notin> set protectedNamespaces"
  shows "Match (bl_match lib) reg (Resolve rd p) \<noteq> None"
proof -
  have "podRollout lib cfg reg rd True [t] p = None" for t
    using assms(1,2,5) unfolding askedIn_def by fastforce
  then show ?thesis
    using podRollout_cleanup [of lib cfg reg rd _ p] assms(3,4) by (metis option.distinct(1))
qed

lemma unasked_by_targets:
  assumes "askedIn lib reg cfg rd targets False w = {}" "p \<in> snd ` set (wd_Pods w)" "t \<in> set targets"
    "rollable rd p \<and> tc_Namespace t = om_Namespace (pod_Meta p) \<and> matchesTarget (Resolve rd p) t
      \<and> om_Namespace (pod_Meta p) \<notin> set protectedNamespaces"
  shows "\<not> needsRollout lib reg rd cfg p"
proof -
  have "podRollout lib cfg reg rd False [t] p = None"
    using assms unfolding askedIn_def by fastforce
  then show ?thesis
    using podRollout_targeted [of lib cfg reg rd "[t]" p] assms(4) by (simp add: matchesAnyTarget_def) blast
qed

lemma settled_by_webhook:
  assumes "\<not> needsRollout lib reg rd (pl_SDKConfig pl) p"
  shows "(\<forall>m p' m'. Default lib deps (wiredDefaulter pl reg rd) p m = Returns (p', m') \<longrightarrow> p' = p)
    \<and> (IsInstrumented (pod_Meta p) \<longrightarrow> Match (bl_match lib) reg (Resolve rd p) \<noteq> None)"
proof -
  let ?dec = "decision lib reg rd (pl_SDKConfig pl) p"
  have "carryOut lib deps skip ?dec p = p" "IsInstrumented (pod_Meta p) \<Longrightarrow> ?dec \<noteq> Unselected" for skip
    using assms by (cases ?dec; simp add: needsRollout_def)+
  moreover have "Match (bl_match lib) reg (Resolve rd p) = None \<Longrightarrow> ?dec = Unselected"
    by (simp add: decision_def)
  ultimately have "IsInstrumented (pod_Meta p) \<Longrightarrow> Match (bl_match lib) reg (Resolve rd p) \<noteq> None"
    and "Default lib deps (wiredDefaulter pl reg rd) p m = Returns (p', m') \<Longrightarrow> p' = p" for m p' m'
    by (blast, simp add: Default_decision [where lib = lib, OF wiredDefaulter_fields(3)])
  then show ?thesis by blast
qed

section \<open>Properties\<close>

text \<open>
  C8. Withdrawn rules disappear from the cluster: when the pass for a ConfigMap that was
  deleted, or whose rules were all withdrawn, ends well, then the workloads it patched can
  replace their pods through the webhook until none is outdated, and however they do it, every
  live pod of a workload that still carries an injection afterwards, outside the protected
  namespaces, is selected by a rule of a ConfigMap in force.
\<close>

theorem cleanup_reaches_pods:
  fixes lib :: "'sel beylaLib" and m :: "sdkInjectionMetrics option"
  assumes "Reconcile lib cml ro cl (wiredReconciler pl started) ns name st = Returns ((emptyResult, None), st')"
    "intentOf cml cl ns name = Sweep oper targets True" "\<not> sd_NoAutoRestart (pl_SDKConfig pl)"
    and "answers {c} cl" "caches_ok c" "range_ok ro" "serves rd w cl" "\<forall>e\<in>set (wd_Pods w). fst e \<noteq> restartPatch (cl_now cl)"
    and "ignoresInjected (bl_match lib)" "recreates rd fresh"
  shows "\<exists>keys. cs_Patches st' = cs_Patches st @ map (\<lambda>k. (k, restartPatch (cl_now cl))) keys
    \<and> (\<exists>s. (replaceStep lib deps (wiredDefaulter pl (cs_Registry st') rd) fresh)\<^sup>*\<^sup>* (patched cl keys w, m) s
        \<and> outdatedCount rd (fst s) = 0)
    \<and> (\<forall>w2 m2. (replaceStep lib deps (wiredDefaulter pl (cs_Registry st') rd) fresh)\<^sup>*\<^sup>* (patched cl keys w, m) (w2, m2)
        \<and> outdatedCount rd w2 = 0 \<longrightarrow>
      (\<forall>p\<in>snd ` set (wd_Pods w2). IsInstrumented (pod_Meta p) \<and> rollable rd p \<and> om_Namespace (pod_Meta p) \<notin> set protectedNamespaces \<longrightarrow>
        (\<exists>key inst rule. inForce cml c key inst \<and> rule \<in> set (instRules inst) \<and> \<not> isSkip rule
          \<and> bl_match lib (rule_Selector rule) (buildMatchInput (Resolve rd p)))))"
proof -
  from assms(3) have "\<not> sd_NoAutoRestart (cr_DefaultSDKConfig (wiredReconciler pl started))" by simp
  from assms(1,2) this obtain reg where
    sweep: "rolloutMatching lib ro cl (wiredReconciler pl started) targets True (st\<lparr>cs_Registry := reg\<rparr>) = (None, st')"
    and ref: "refreshRegistry cml cl (cs_Registry (track oper st)) = Returns (None, reg)"
    by (rule pass_swept) blast
  have reg: "lookupInst reg key = Some i \<longleftrightarrow> inForce cml c key i" for key i
    unfolding inForce_def by (rule refresh_exact [OF ref assms(4,5)])
  have selected: "\<exists>key inst rule. inForce cml c key inst \<and> rule \<in> set (instRules inst) \<and> \<not> isSkip rule
      \<and> bl_match lib (rule_Selector rule) (buildMatchInput (Resolve rd p))"
    if none: "askedIn lib reg (pl_SDKConfig pl) rd targets True w2 = {}"
      and p: "p \<in> snd ` set (wd_Pods w2)" "IsInstrumented (pod_Meta p)" "rollable rd p" "om_Namespace (pod_Meta p) \<notin> set protectedNamespaces"
    for w2 p
  proof -
    have "Match (bl_match lib) reg (Resolve rd p) \<noteq> None" by (rule unasked_by_cleanup [OF none p])
    then obtain rule cf where "Match (bl_match lib) reg (Resolve rd p) = Some (rule, cf)" by auto
    from Match_source [OF this] Match_not_skip [OF this] show ?thesis unfolding reg by blast
  qed
  from swept_world [OF sweep assms(9,10,6-8), of deps m] selected show ?thesis by simp blast
qed

text \<open>The last ConfigMap is gone and an injected pod of a StatefulSet is left over.\<close>

definition leftoverWorld :: world where
  "leftoverWorld = \<lparr>wd_Pods = [(''old'', leftoverPod)], wd_Marker = (\<lambda>_. ''old'')\<rparr>"

lemma samplePlan_wired: "\<not> sd_NoAutoRestart (pl_SDKConfig samplePlan)" "cr_WebhookReady (wiredReconciler samplePlan None) = Some None"
  "cr_WebhookServiceAddr (wiredReconciler samplePlan None) = ''''" "pl_SDKConfig samplePlan = sampleSDK ''1''"
  by (simp_all add: wiredReconciler_def samplePlan_def sampleSDK_def)

lemma leftover_pass:
  "\<exists>st'. Reconcile sampleLib sampleCml sampleOrder (worldCluster ''now'' leftoverWorld) (wiredReconciler samplePlan None) ''obs'' ''gone'' startState
    = Returns ((emptyResult, None), st') \<and> cs_Patches st' \<noteq> []"
proof -
  let ?cl = "worldCluster ''now'' leftoverWorld" and ?r = "wiredReconciler samplePlan None"
  let ?st = "startState\<lparr>cs_Registry := RegistryNew\<rparr>"
  let ?x = "rolloutMatching sampleLib sampleOrder ?cl ?r [] True ?st"
  have c: "cl_getConfigMap ?cl ''obs'' ''gone'' = NotFound" "cl_listConfigMaps ?cl = Inr []" "cl_listPods ?cl = Inr [leftoverPod]"
      "\<And>k q. cl_patch ?cl k q = None" "cl_reader ?cl = cl_reader goneCluster"
    by (simp_all add: worldCluster_def sampleCluster_def leftoverWorld_def goneCluster_def)
  have none: "fst ?x = None" by (rule cleanup_no_error [OF sampleOrder_ok c(3,4)])
  have reg: "RegistryReplace [] x = RegistryNew" for x :: "string registry"
    by (simp add: RegistryReplace_def RegistryNew_def)
  have run: "Reconcile sampleLib sampleCml sampleOrder ?cl ?r ''obs'' ''gone'' startState = Returns ((emptyResult, None), snd ?x)"
    using none by (simp add: Reconcile_def c reconcileRollouts_def samplePlan_wired(1-3) refreshRegistry_def forget_def reg case_prod_unfold Let_def)
  have "cleanupWorkloads sampleLib RegistryNew ?cl [leftoverPod] \<noteq> {}"
    using leftover_workload by (simp add: cleanupWorkloads_def c(5))
  then have "cs_Patches (snd ?x) \<noteq> []"
    using cleanup_sweep [OF sampleOrder_ok c(3), of ?st sampleLib ?r "[]"] by (auto simp: sentFor_def)
  with run show ?thesis by blast
qed

theorem cleanup_reaches_pods_witness:
  "\<exists>st' w2. Reconcile sampleLib sampleCml sampleOrder (worldCluster ''now'' leftoverWorld) (wiredReconciler samplePlan None)
      ''obs'' ''gone'' startState = Returns ((emptyResult, None), st') \<and> cs_Patches st' \<noteq> [] \<and> outdatedCount noReader w2 = 0
    \<and> (\<forall>p\<in>snd ` set (wd_Pods w2). IsInstrumented (pod_Meta p) \<longrightarrow>
        \<not> rollable noReader p \<or> om_Namespace (pod_Meta p) \<in> set protectedNamespaces)"
proof -
  let ?cl = "worldCluster ''now'' leftoverWorld"
  obtain st' where run: "Reconcile sampleLib sampleCml sampleOrder ?cl (wiredReconciler samplePlan None) ''obs'' ''gone'' startState
      = Returns ((emptyResult, None), st')" and sent: "cs_Patches st' \<noteq> []" using leftover_pass by blast
  have i: "intentOf sampleCml ?cl ''obs'' ''gone'' = Sweep (OpDelete (nsName ''obs'' ''gone'')) [] True"
    by (simp add: intentOf_def worldCluster_def sampleCluster_def)
  have a: "answers {noCaches} ?cl" by (simp add: answers_def worldCluster_def sampleCluster_def noCaches_def listing_def)
  have o: "caches_ok noCaches" by (simp add: caches_ok_def noCaches_def)
  have f: "\<forall>e\<in>set (wd_Pods leftoverWorld). fst e \<noteq> restartPatch (cl_now ?cl)"
    by (simp add: leftoverWorld_def restartPatch_def)
  have none: "\<not> inForce sampleCml noCaches key i" for key i by (simp add: inForce_def noCaches_def)
  let ?runs = "(replaceStep sampleLib sampleDeps (wiredDefaulter samplePlan (cs_Registry st') noReader) fromTemplate)\<^sup>*\<^sup>*"
  obtain keys where ex: "\<exists>s. ?runs (patched ?cl keys leftoverWorld, None) s \<and> outdatedCount noReader (fst s) = 0"
    and all: "\<forall>w2 m2. ?runs (patched ?cl keys leftoverWorld, None) (w2, m2) \<and> outdatedCount noReader w2 = 0 \<longrightarrow>
      (\<forall>p\<in>snd ` set (wd_Pods w2). IsInstrumented (pod_Meta p) \<and> rollable noReader p \<and> om_Namespace (pod_Meta p) \<notin> set protectedNamespaces \<longrightarrow>
        (\<exists>key inst rule. inForce sampleCml noCaches key inst \<and> rule \<in> set (instRules inst) \<and> \<not> isSkip rule
          \<and> bl_match sampleLib (rule_Selector rule) (buildMatchInput (Resolve noReader p))))"
    using cleanup_reaches_pods [OF run i samplePlan_wired(1) a o sampleOrder_ok worldCluster_serves f sample_ignores fromTemplate_recreates,
      of sampleDeps None] by blast
  from ex obtain w2 m2 where r: "?runs (patched ?cl keys leftoverWorld, None) (w2, m2)" "outdatedCount noReader w2 = 0" by auto
  from all [rule_format, OF conjI [OF r]] none run sent r(2) show ?thesis by blast
qed

text \<open>
  C9. What a ConfigMap asks to restart ends up as its rules say: when the pass for a ConfigMap
  with restart targets goes through the gate and no patch fails, then the workloads it patched
  can replace their pods through the webhook until none is outdated, and however they do it,
  the webhook would afterwards change nothing about any live pod of a workload that the targets
  describe, and none of them carries an injection that no rule calls for any more.
\<close>

theorem restart_targets_reach_pods:
  fixes lib :: "'sel beylaLib" and m :: "sdkInjectionMetrics option"
  assumes "Reconcile lib cml ro cl (wiredReconciler pl started) ns name st = Returns ((emptyResult, None), st')"
    "intentOf cml cl ns name = Sweep oper targets False" "\<not> sd_NoAutoRestart (pl_SDKConfig pl)"
    and "\<forall>k. cl_patch cl k (restartPatch (cl_now cl)) = None"
    and "range_ok ro" "serves rd w cl" "\<forall>e\<in>set (wd_Pods w). fst e \<noteq> restartPatch (cl_now cl)"
    and "ignoresInjected (bl_match lib)" "recreates rd fresh"
  shows "cs_Registry st' = regApply oper (cs_Registry st)
    \<and> (\<exists>keys. cs_Patches st' = cs_Patches st @ map (\<lambda>k. (k, restartPatch (cl_now cl))) keys
    \<and> (\<exists>s. (replaceStep lib deps (wiredDefaulter pl (cs_Registry st') rd) fresh)\<^sup>*\<^sup>* (patched cl keys w, m) s
        \<and> outdatedCount rd (fst s) = 0)
    \<and> (\<forall>w2 m2. (replaceStep lib deps (wiredDefaulter pl (cs_Registry st') rd) fresh)\<^sup>*\<^sup>* (patched cl keys w, m) (w2, m2)
        \<and> outdatedCount rd w2 = 0 \<longrightarrow>
      (\<forall>p\<in>snd ` set (wd_Pods w2). \<forall>t\<in>set targets. rollable rd p \<and> tc_Namespace t = om_Namespace (pod_Meta p)
          \<and> matchesTarget (Resolve rd p) t \<and> om_Namespace (pod_Meta p) \<notin> set protectedNamespaces \<longrightarrow>
        (\<forall>m3 p' m4. Default lib deps (wiredDefaulter pl (cs_Registry st') rd) p m3 = Returns (p', m4) \<longrightarrow> p' = p)
        \<and> (IsInstrumented (pod_Meta p) \<longrightarrow> Match (bl_match lib) (cs_Registry st') (Resolve rd p) \<noteq> None))))"
proof -
  let ?reg = "regApply oper (cs_Registry st)"
  let ?d = "wiredDefaulter pl ?reg rd"
  from assms(3) have "\<not> sd_NoAutoRestart (cr_DefaultSDKConfig (wiredReconciler pl started))" by simp
  from assms(1,2) this obtain reg e where
    "rolloutMatching lib ro cl (wiredReconciler pl started) targets False (st\<lparr>cs_Registry := reg\<rparr>) = (e, st')"
    "reg = cs_Registry (track oper st)"
    by (rule pass_swept) blast
  then have sweep: "rolloutMatching lib ro cl (wiredReconciler pl started) targets False (st\<lparr>cs_Registry := ?reg\<rparr>) = (e, st')"
    by (simp add: track_def)
  show ?thesis
    using swept_world [OF sweep assms(8,9,5-7), of deps m] assms(4) unasked_by_targets [of lib ?reg "pl_SDKConfig pl" rd targets]
      settled_by_webhook [of lib ?reg rd pl _ deps] by simp blast
qed

text \<open>A ConfigMap with a rule for a namespace and a restart list for its StatefulSets.\<close>

definition wantingCM :: configMap where
  "wantingCM = selectorCM\<lparr>cm_Data := [(''instrumentation.yaml'', ''7''), (''eligible_for_restart.yaml'', ''x'')]\<rparr>"

definition wantingCluster :: cluster where
  "wantingCluster = (worldCluster ''now'' sampleWorld)\<lparr>cl_getConfigMap := (\<lambda>_ _. Found wantingCM)\<rparr>"

lemma wanting_intent: "intentOf askingCml wantingCluster ''obs'' ''a'' = Sweep (OpSet ''obs/a'' (sampleInst ''7'' ''apps''))
    [dbTarget] False"
proof -
  have "parseConfigMap askingCml (cm_Data wantingCM) = Returns (Inr (sampleInst ''7'' ''apps'',
      [dbTarget]))"
    by (simp add: dbTarget_def parseConfigMap_def askingCml_def sampleCml_def wantingCM_def sortEligible_def restartKinds_def kind_defs sampleInst_def)
  moreover have "stateNodeEligible askingCml wantingCluster wantingCM = (True, None)"
    "hasSelectorAnnotation askingCml (cm_Meta wantingCM)" "\<not> isCleanup askingCml wantingCM (sampleInst ''7'' ''apps'')"
    by (simp_all add: stateNodeEligible_def hasSelectorAnnotation_def askingCml_def sampleCml_def wantingCM_def selectorCM_def gm_str_def
        isCleanup_def instRules_def sampleInst_def isSkip_def ModeSkip_def)
  ultimately show ?thesis by (simp add: intentOf_def wantingCluster_def nsName_def)
qed

lemma wanting_pass: "\<exists>st'. Reconcile sampleLib askingCml sampleOrder wantingCluster (wiredReconciler samplePlan None) ''obs'' ''a'' startState
    = Returns ((emptyResult, None), st')"
  by (simp add: Reconcile_intent wanting_intent reconcileRollouts_def samplePlan_wired(1-3) case_prod_unfold Let_def)

theorem restart_targets_reach_pods_witness:
  "\<exists>st' w2. Reconcile sampleLib askingCml sampleOrder wantingCluster (wiredReconciler samplePlan None) ''obs'' ''a'' startState
      = Returns ((emptyResult, None), st') \<and> outdatedCount noReader w2 = 0
    \<and> (\<forall>p\<in>snd ` set (wd_Pods w2). rollable noReader p \<and> matchesTarget (Resolve noReader p) dbTarget \<and> om_Namespace (pod_Meta p) = ''apps'' \<longrightarrow>
        (\<forall>m p' m'. Default sampleLib sampleDeps (wiredDefaulter samplePlan (cs_Registry st') noReader) p m = Returns (p', m') \<longrightarrow> p' = p))"
proof -
  obtain st' where run: "Reconcile sampleLib askingCml sampleOrder wantingCluster (wiredReconciler samplePlan None) ''obs'' ''a'' startState
      = Returns ((emptyResult, None), st')" using wanting_pass by blast
  have s: "serves noReader sampleWorld wantingCluster" and p: "\<forall>k. cl_patch wantingCluster k (restartPatch (cl_now wantingCluster)) = None"
    using worldCluster_serves [of sampleWorld "''now''"] by (simp_all add: wantingCluster_def serves_def) (simp add: worldCluster_def sampleCluster_def)
  have f: "\<forall>e\<in>set (wd_Pods sampleWorld). fst e \<noteq> restartPatch (cl_now wantingCluster)"
    by (simp add: sampleWorld_def restartPatch_def)
  let ?runs = "(replaceStep sampleLib sampleDeps (wiredDefaulter samplePlan (cs_Registry st') noReader) fromTemplate)\<^sup>*\<^sup>*"
  have "''apps'' \<notin> set protectedNamespaces" by (simp add: protectedNamespaces_def)
  moreover obtain keys where ex: "\<exists>s. ?runs (patched wantingCluster keys sampleWorld, None) s \<and> outdatedCount noReader (fst s) = 0"
    and all: "\<forall>w2 m2. ?runs (patched wantingCluster keys sampleWorld, None) (w2, m2) \<and> outdatedCount noReader w2 = 0 \<longrightarrow>
      (\<forall>p\<in>snd ` set (wd_Pods w2). \<forall>t\<in>set [dbTarget]. rollable noReader p \<and> tc_Namespace t = om_Namespace (pod_Meta p)
          \<and> matchesTarget (Resolve noReader p) t \<and> om_Namespace (pod_Meta p) \<notin> set protectedNamespaces \<longrightarrow>
        (\<forall>m3 p' m4. Default sampleLib sampleDeps (wiredDefaulter samplePlan (cs_Registry st') noReader) p m3 = Returns (p', m4) \<longrightarrow> p' = p)
        \<and> (IsInstrumented (pod_Meta p) \<longrightarrow> Match (bl_match sampleLib) (cs_Registry st') (Resolve noReader p) \<noteq> None))"
    using restart_targets_reach_pods [OF run wanting_intent samplePlan_wired(1) p sampleOrder_ok s f sample_ignores fromTemplate_recreates,
      of sampleDeps None] by blast
  moreover from ex obtain w2 m2 where r: "?runs (patched wantingCluster keys sampleWorld, None) (w2, m2)" "outdatedCount noReader w2 = 0" by auto
  moreover have "tc_Namespace dbTarget = ''apps''" by (simp add: dbTarget_def)
  ultimately show ?thesis using run all [rule_format, OF conjI [OF r], of _ dbTarget] by fastforce
qed

end
