(* ===== verification/Deletion.thy ===== *)
theory Deletion
  imports Watches
begin

text \<open>
  The deletion of a ConfigMap and its cleanup (\<open>SetupWithManager\<close> and \<open>Reconcile\<close> in
  \<open>internal/controller/configmap_controller.go\<close>). The rules of a deleted ConfigMap leave the registry
  with any snapshot, but the pods they were injected into are restarted by one pass only: the
  one that finds the ConfigMap missing. Here is what makes sure that this pass runs and
  comes back until it ends well.
\<close>

declare split_paired_All [simp del] split_paired_Ex [simp del]

section \<open>Waiting for the cleanup\<close>

text \<open>A pass for the key that finds the ConfigMap missing and ends well.\<close>

definition cleanupStep :: "'sel beylaLib \<Rightarrow> 'sel cmLib \<Rightarrow> request \<Rightarrow> 'sel workQueue \<Rightarrow> 'sel workQueue \<Rightarrow> bool" where
  "cleanupStep lib cml k s s' = (\<exists>hist cl ro r st'. wq_Active s = Some (k, hist) \<and> answers hist cl \<and> range_ok ro
     \<and> cl_getConfigMap cl (fst k) (snd k) = NotFound
     \<and> Reconcile lib cml ro cl r (fst k) (snd k) (wq_Controller s) = Returns ((emptyResult, None), st')
     \<and> s' = s\<lparr>wq_Active := None, wq_Controller := st'\<rparr>)"

text \<open>
  The ConfigMap was there with its annotation, was deleted in the run, has not come back since,
  and no such pass has ended since.
\<close>

inductive uncleaned :: "'sel beylaLib \<Rightarrow> 'sel cmLib \<Rightarrow> (watchEvent \<Rightarrow> bool) \<Rightarrow> request \<Rightarrow> 'sel workQueue \<Rightarrow> bool"
  for lib cml happens k where
  deleted: "queueReaches lib cml happens s \<Longrightarrow> queueStep lib cml happens s s' \<Longrightarrow> ca_ConfigMaps (wq_Caches s) k = Some cm
    \<Longrightarrow> hasSelectorAnnotation cml (cm_Meta cm) \<Longrightarrow> ca_ConfigMaps (wq_Caches s') k = None \<Longrightarrow> uncleaned lib cml happens k s'"
| later: "uncleaned lib cml happens k s \<Longrightarrow> queueStep lib cml happens s s' \<Longrightarrow> ca_ConfigMaps (wq_Caches s') k = None
    \<Longrightarrow> \<not> cleanupStep lib cml k s s' \<Longrightarrow> uncleaned lib cml happens k s'"

text \<open>The deletion is reported, queued, or in process with caches that agree on it.\<close>

definition awaitsCleanup :: "'sel cmLib \<Rightarrow> request \<Rightarrow> 'sel workQueue \<Rightarrow> bool" where
  "awaitsCleanup cml k s = ((\<exists>m. CMDelete m \<in> set (wq_Events s) \<and> hasSelectorAnnotation cml m \<and> requestFor m = k)
     \<or> k \<in> wq_Queue s \<or> (\<exists>hist. wq_Active s = Some (k, hist) \<and> (\<forall>c\<in>hist. ca_ConfigMaps c k = None)))"

lemma missing_answer:
  assumes "answers hist cl" "\<forall>c\<in>hist. ca_ConfigMaps c k = None"
  shows "cl_getConfigMap cl (fst k) (snd k) = NotFound \<or> (\<exists>e. cl_getConfigMap cl (fst k) (snd k) = GetErr e)"
proof -
  have "case cl_getConfigMap cl (fst k) (snd k) of Found cm \<Rightarrow> \<exists>c\<in>hist. ca_ConfigMaps c k = Some cm
      | NotFound \<Rightarrow> \<exists>c\<in>hist. ca_ConfigMaps c k = None | GetErr e \<Rightarrow> True"
    using assms(1) [unfolded answers_def, THEN conjunct1, rule_format, of "fst k" "snd k"] unfolding prod.collapse .
  then show ?thesis using assms(2) by (cases "cl_getConfigMap cl (fst k) (snd k)") auto
qed

text \<open>A pass that finds the ConfigMap missing is a cleanup that ended well, or it comes back.\<close>

lemma missing_pass:
  assumes "answers hist cl" "\<forall>c\<in>hist. ca_ConfigMaps c k = None"
    "Reconcile lib cml ro cl r (fst k) (snd k) st = Returns (res, st')" "\<not> comesBack res"
  shows "cl_getConfigMap cl (fst k) (snd k) = NotFound \<and> res = (emptyResult, None)"
proof -
  obtain rr e where res: "res = (rr, e)" by (cases res)
  from missing_answer [OF assms(1,2)] show ?thesis
  proof
    assume nf: "cl_getConfigMap cl (fst k) (snd k) = NotFound"
    then have pass: "reconcileRollouts lib cml ro cl r [] True (forget (nsName (fst k) (snd k)) st) = Returns ((rr, e), st')"
      using assms(3) by (simp add: Reconcile_def res)
    have "rr = emptyResult"
    proof (cases "gateClosed r cl \<and> \<not> sd_NoAutoRestart (cr_DefaultSDKConfig r)")
      case True
      with gate_defers [of r cl lib cml ro "[]" True "forget (nsName (fst k) (snd k)) st"] pass assms(4) show ?thesis
        by (simp add: res comesBack_def)
    next
      case False
      with pass show ?thesis
        using gate_passes [of r cl] by (cases "gateClosed r cl") (auto simp: reconcileRollouts_def)
    qed
    with nf assms(4) show ?thesis by (simp add: res comesBack_def)
  next
    assume "\<exists>e. cl_getConfigMap cl (fst k) (snd k) = GetErr e"
    with assms(3,4) show ?thesis by (auto simp: Reconcile_GetErr comesBack_def)
  qed
qed

lemma awaits_deleted:
  assumes "queueStep lib cml happens s s'" "caches_ok (wq_Caches s)" "ca_ConfigMaps (wq_Caches s) k = Some cm"
    "hasSelectorAnnotation cml (cm_Meta cm)" "ca_ConfigMaps (wq_Caches s') k = None"
  shows "awaitsCleanup cml k s'"
  using assms(1)
proof cases
  case (change e c')
  from change(2) have "e = CMDelete (cm_Meta cm)"
    by (cases rule: cacheChange.cases) (use assms(3,5) change(1) in \<open>auto split: if_split_asm\<close>)
  with change(1) assms(4) caches_ok_ConfigMap [OF assms(2,3)] show ?thesis by (auto simp: awaitsCleanup_def)
qed (use assms(3,5) in auto)

lemma awaits_kept:
  assumes "queueStep lib cml happens s s'" "awaitsCleanup cml k s" "ca_ConfigMaps (wq_Caches s') k = None"
    "\<not> cleanupStep lib cml k s s'"
  shows "awaitsCleanup cml k s'"
  using assms(1)
proof cases
  case (change e c')
  with assms(2,3) show ?thesis by (auto simp: awaitsCleanup_def)
next
  case (deliver before e "after" cl cms)
  have "k \<in> set (enqueued cml cl (CMDelete m))" if "hasSelectorAnnotation cml m" "requestFor m = k" for m
    using that by (auto simp: ownRequest_def requestFor_def)
  with deliver assms(2) show ?thesis by (auto simp: awaitsCleanup_def)
next
  case (begin_pass k')
  with assms(2,3) show ?thesis by (cases "k' = k") (auto simp: awaitsCleanup_def)
next
  case (end_pass k' hist cl ro r res st')
  show ?thesis
  proof (cases "k' = k \<and> (\<forall>c\<in>hist. ca_ConfigMaps c k = None) \<and> \<not> comesBack res")
    case True
    then have "cl_getConfigMap cl (fst k) (snd k) = NotFound" "res = (emptyResult, None)"
      using missing_pass [of hist cl k lib cml ro r "wq_Controller s" res st'] end_pass(3,6) by simp_all
    then have "cleanupStep lib cml k s s'"
      unfolding cleanupStep_def using end_pass True by auto
    with assms(4) show ?thesis by blast
  next
    case False
    with end_pass assms(2) show ?thesis by (auto simp: awaitsCleanup_def)
  qed
next
  case (panic_pass k' hist cl ro r)
  with assms(2) show ?thesis by (auto simp: awaitsCleanup_def)
qed

lemma reaches_caches_ok:
  assumes "queueReaches lib cml happens s"
  shows "caches_ok (wq_Caches s)"
  using assms
proof induction
  case (more s s')
  from more(2,3) show ?case by (cases rule: queueStep.cases) (auto dest: cacheChange_ok)
qed (simp add: startQueue_def caches_ok_def noCaches_def)

lemma uncleaned_awaits:
  assumes "uncleaned lib cml happens k s"
  shows "awaitsCleanup cml k s \<and> queueReaches lib cml happens s \<and> ca_ConfigMaps (wq_Caches s) k = None"
  using assms
proof induction
  case (deleted s s' cm)
  then show ?case using awaits_deleted reaches_caches_ok queueReaches.more by blast
next
  case (later s s')
  then show ?case using awaits_kept queueReaches.more by blast
qed

lemma uncleaned_busy: "uncleaned lib cml happens k s \<Longrightarrow> \<not> idle s"
  using uncleaned_awaits by (fastforce simp: awaitsCleanup_def idle_def)

lemma queueStep_mono: "queueStep lib cml (\<lambda>e. False) s s' \<Longrightarrow> queueStep lib cml happens s s'"
proof (induction rule: queueStep.induct)
  case deliver
  then show ?case by (rule queueStep.deliver)
next
  case begin_pass
  then show ?case by (rule queueStep.begin_pass)
next
  case end_pass
  then show ?case by (rule queueStep.end_pass)
next
  case panic_pass
  then show ?case by (rule queueStep.panic_pass)
qed simp

lemma uncleaned_calm:
  assumes "(\<lambda>s s'. calmStep lib cml s s' \<and> \<not> cleanupStep lib cml k s s')\<^sup>*\<^sup>* s s'" "uncleaned lib cml happens k s"
  shows "uncleaned lib cml happens k s' \<and> wq_Caches s' = wq_Caches s"
  using assms(1)
proof (induction rule: rtranclp_induct)
  case (step s1 s2)
  then have st: "queueStep lib cml (\<lambda>e. False) s1 s2" by (simp add: calmStep_def)
  then have "wq_Caches s2 = wq_Caches s1" by (rule queueStepE) auto
  with step uncleaned.later [OF _ queueStep_mono [OF st]] uncleaned_awaits show ?case by metis
qed (simp add: assms(2))

section \<open>Properties\<close>

text \<open>
  C7. Every deletion gets its cleanup: after an annotated ConfigMap was deleted, in every run with
  whatever changes, failures, panics and overlaps, the controller is not idle until the ConfigMap
  is back or a pass has found it missing and ended well. And as soon as the caches stand still
  and no pass has to be repeated, with no ConfigMap that makes the parser panic, that pass is
  unavoidable: without it the steps can neither go on forever nor stop.
\<close>

theorem deletion_is_cleaned_up:
  fixes lib :: "'sel beylaLib"
  assumes "uncleaned lib cml happens k s"
  shows "\<not> idle s
    \<and> wfp (\<lambda>s' s. calmStep lib cml s s' \<and> \<not> cleanupStep lib cml k s s')
    \<and> ((\<forall>e. happens e \<longrightarrow> \<not> stripsAnnotation cml e) \<and> (\<forall>k. \<not> poisoned cml (wq_Caches s) k) \<longrightarrow>
      (\<forall>s'. (\<lambda>s s'. calmStep lib cml s s' \<and> \<not> cleanupStep lib cml k s s')\<^sup>*\<^sup>* s s' \<longrightarrow> (\<exists>s''. calmStep lib cml s' s'')))"
proof (intro conjI impI allI)
  show "\<not> idle s" by (rule uncleaned_busy [OF assms])
  show "wfp (\<lambda>s' s. calmStep lib cml s s' \<and> \<not> cleanupStep lib cml k s s')"
    by (rule wfp_subset [OF calm_terminates [of lib cml]]) auto
next
  fix s'
  assume ok: "(\<forall>e. happens e \<longrightarrow> \<not> stripsAnnotation cml e) \<and> (\<forall>k. \<not> poisoned cml (wq_Caches s) k)"
    and run: "(\<lambda>s s'. calmStep lib cml s s' \<and> \<not> cleanupStep lib cml k s s')\<^sup>*\<^sup>* s s'"
  note s' = uncleaned_calm [OF run assms]
  have "queue_ok cml s'" using queueReaches_ok uncleaned_awaits s' ok by blast
  then show "\<exists>s''. calmStep lib cml s' s''"
    using calm_end_idle [of cml s' lib] uncleaned_busy [OF conjunct1 [OF s']] s' ok by auto
qed

text \<open>The loaded ConfigMap is deleted.\<close>

definition bereftQueue :: "string workQueue" where
  "bereftQueue = loadedQueue\<lparr>wq_Caches := noCaches, wq_Events := [CMDelete (cm_Meta selectorCM)]\<rparr>"

lemma bereft_uncleaned:
  "uncleaned sampleLib sampleCml (\<lambda>e. \<not> stripsAnnotation sampleCml e) (''obs'', ''a'') bereftQueue"
proof (rule uncleaned.deleted [where cm = selectorCM])
  show "queueReaches sampleLib sampleCml (\<lambda>e. \<not> stripsAnnotation sampleCml e) loadedQueue" by (rule loaded_run) simp
  have "loadedCaches\<lparr>ca_ConfigMaps := (ca_ConfigMaps loadedCaches)((''obs'', ''a'') := None)\<rparr> = noCaches"
    by (simp add: loadedCaches_def noCaches_def fun_eq_iff)
  then have "cacheChange loadedCaches (CMDelete (cm_Meta selectorCM)) noCaches"
    using cacheChange.cmDelete [of loadedCaches "(''obs'', ''a'')" selectorCM] by (simp add: loadedCaches_def)
  then show "queueStep sampleLib sampleCml (\<lambda>e. \<not> stripsAnnotation sampleCml e) loadedQueue bereftQueue"
    using queueStep.change [of loadedQueue "CMDelete (cm_Meta selectorCM)" noCaches "\<lambda>e. \<not> stripsAnnotation sampleCml e" sampleLib sampleCml]
    by (simp add: bereftQueue_def loadedQueue_def)
  show "hasSelectorAnnotation sampleCml (cm_Meta selectorCM)"
    by (simp add: hasSelectorAnnotation_def sampleCml_def selectorCM_def)
qed (simp_all add: bereftQueue_def loadedQueue_def loadedCaches_def noCaches_def)

theorem deletion_is_cleaned_up_witness:
  "\<exists>s s'. uncleaned sampleLib sampleCml (\<lambda>e. \<not> stripsAnnotation sampleCml e) (''obs'', ''a'') s
    \<and> calmStep sampleLib sampleCml s s'"
proof -
  have "\<forall>k. \<not> poisoned sampleCml (wq_Caches bereftQueue) k"
    by (simp add: poisoned_def view_def bereftQueue_def noCaches_def)
  then have "\<exists>s''. calmStep sampleLib sampleCml bereftQueue s''"
    using deletion_is_cleaned_up [OF bereft_uncleaned] by blast
  with bereft_uncleaned show ?thesis by blast
qed

declare split_paired_All [simp] split_paired_Ex [simp]

end
