(* ===== verification/Concurrency.thy ===== *)
theory Concurrency
  imports PodWebhook
begin

text \<open>
  Admissions run concurrently with each other and with the reconciler, which writes the
  registry while they read it. The lock of the registry makes each of its operations atomic,
  but an admission reads it twice: once to find the rule, and once more to ask whether Beyla
  generates span metrics itself. Here \<open>Default\<close> is cut at the second read, and any number of
  admissions take their two steps interleaved with any writes.

  The state remembers every value the registry has had, the current one last; this ghost
  history is what the property speaks about.
\<close>

section \<open>The handler in two steps\<close>

text \<open>An admission before its first read, between the two reads, and finished with its outcome.\<close>

datatype 'sel phase = Arrived pod
  | Selected pod "'sel rule" podMutator string
  | Answered pod pod string

text \<open>From the arrival to the last guard, with what the second half needs: rule, mutator and hash.\<close>

definition DefaultSelect :: "'sel beylaLib \<Rightarrow> ('sel, 'm) podCustomDefaulter \<Rightarrow> pod \<Rightarrow> 'sel phase goRun" where
  "DefaultSelect lib d obj =
    (let info = Resolve (pcd_Reader d) obj in
     case Match (bl_match lib) (pcd_Registry d) info of
       None \<Rightarrow> Returns (Answered obj obj OutcomeNoMatchingSelector)
     | Some (rule, cmCfg) \<Rightarrow>
        (case pcd_Mutator d of
           None \<Rightarrow> Panic
         | Some shared \<Rightarrow>
            (let mutator = shared\<lparr>pm_Cfg := WithConfigMapOverrides (pm_Cfg shared) cmCfg\<rparr> in
             if sd_ImageVersion (pm_Cfg mutator) = '''' then Returns (Answered obj obj OutcomeNoSDKConfig)
             else
               (case PodConfigHash (bl_ruleHash lib) (pm_Cfg mutator) (rule_Config rule) of
                  None \<Rightarrow> Panic
                | Some wantHash \<Rightarrow>
                   (if IsInstrumentedWithWantedConfig (pod_Spec obj) (pod_Meta obj) wantHash
                    then Returns (Answered obj obj OutcomeAlreadyInstrumented)
                    else if PreloadsSomethingElse obj then Returns (Answered obj obj OutcomeLDPreloadConflict)
                    else Returns (Selected obj rule mutator wantHash))))))"

text \<open>From the second read to the end.\<close>

definition DefaultInject :: "'sel beylaLib \<Rightarrow> mutatorDeps \<Rightarrow> ('sel, 'm) podCustomDefaulter \<Rightarrow> pod \<Rightarrow> 'sel rule
    \<Rightarrow> podMutator \<Rightarrow> string \<Rightarrow> pod" where
  "DefaultInject lib deps d obj rule mutator wantHash =
    (let spanMetrics = (BPFGeneratesSpanMetrics (bl_match lib) (pcd_Registry d) (Resolve (pcd_Reader d) obj) \<noteq> None);
         spec = mountVolume mutator (pod_Spec obj);
         spec = spec\<lparr>ps_Containers := map (\<lambda>c. instrumentContainer deps mutator (pod_Meta obj) c
                  (rc_Env (rule_Config rule)) spanMetrics) (ps_Containers spec)\<rparr>;
         spec = addCopyInitContainerIfNeeded mutator spec;
         meta = (pod_Meta obj)\<lparr>om_Annotations :=
                  gm_put InjectedAnnotation wantHash (om_Annotations (pod_Meta obj))\<rparr>
     in obj\<lparr>pod_Meta := meta, pod_Spec := spec\<rparr>)"

text \<open>Without a write in between, the two steps are the handler.\<close>

lemma Default_in_two_steps:
  "Default lib deps d p m = (case DefaultSelect lib d p of
     Panic \<Rightarrow> Panic
   | Returns (Arrived q) \<Rightarrow> Panic
   | Returns (Answered q p' result) \<Rightarrow> Returns (p', recordOutcome d (Resolve (pcd_Reader d) p) result m)
   | Returns (Selected q rule mutator wantHash) \<Rightarrow> Returns (DefaultInject lib deps d q rule mutator wantHash,
       recordOutcome d (Resolve (pcd_Reader d) p) OutcomeSuccess m))"
  unfolding Default_def DefaultSelect_def DefaultInject_def Let_def
  by (simp split: option.split if_split)

lemma DefaultSelect_decision:
  fixes lib :: "'sel beylaLib" and d :: "('sel, 'm) podCustomDefaulter"
  assumes "pcd_Mutator d = Some pm"
  shows "DefaultSelect lib d p = Returns (case decision lib (pcd_Registry d) (pcd_Reader d) (pm_Cfg pm) p of
      Inject rule cfg \<Rightarrow> Selected p rule \<lparr>pm_Cfg = cfg\<rparr> (wantedHash (bl_ruleHash lib) cfg (rule_Config rule))
    | dec \<Rightarrow> Answered p p (outcomeOf dec))"
  unfolding DefaultSelect_def decision_def Let_def
  by (simp add: assms PodConfigHash_wanted wanted_iff mutator_override split: option.split prod.split if_split)

lemma DefaultInject_injected:
  "DefaultInject lib deps d p rule \<lparr>pm_Cfg = cfg\<rparr> (wantedHash (bl_ruleHash lib) cfg (rule_Config rule))
    = injectedPod lib deps rule cfg (spanSkip lib d p) p"
proof -
  have mv: "ps_Containers (mountVolume x s) = ps_Containers s" for x s by (simp add: mountVolume_upsert)
  show ?thesis
    unfolding DefaultInject_def Let_def mount_then_copy mv by (simp add: injectedPod_def spanSkip_def)
qed

section \<open>Interleavings\<close>

record 'sel admissions =
  ad_Past :: "'sel registry list"
  ad_Phases :: "'sel phase list"

definition currentReg :: "'sel admissions \<Rightarrow> 'sel registry" where
  "currentReg s = last (ad_Past s)"

inductive admissionStep :: "'sel beylaLib \<Rightarrow> mutatorDeps \<Rightarrow> ('sel, 'm) podCustomDefaulter
    \<Rightarrow> 'sel admissions \<Rightarrow> 'sel admissions \<Rightarrow> bool"
  for lib deps d where
  written: "admissionStep lib deps d s (s\<lparr>ad_Past := ad_Past s @ [regApply oper (currentReg s)]\<rparr>)"
| arrive: "admissionStep lib deps d s (s\<lparr>ad_Phases := ad_Phases s @ [Arrived p]\<rparr>)"
| select: "i < length (ad_Phases s) \<Longrightarrow> ad_Phases s ! i = Arrived p
    \<Longrightarrow> DefaultSelect lib (d\<lparr>pcd_Registry := currentReg s\<rparr>) p = Returns ph
    \<Longrightarrow> admissionStep lib deps d s (s\<lparr>ad_Phases := (ad_Phases s)[i := ph]\<rparr>)"
| inject: "i < length (ad_Phases s) \<Longrightarrow> ad_Phases s ! i = Selected p rule mutator wantHash
    \<Longrightarrow> p' = DefaultInject lib deps (d\<lparr>pcd_Registry := currentReg s\<rparr>) p rule mutator wantHash
    \<Longrightarrow> admissionStep lib deps d s (s\<lparr>ad_Phases := (ad_Phases s)[i := Answered p p' OutcomeSuccess]\<rparr>)"

inductive_cases admissionStepE: "admissionStep lib deps d s s'"

inductive admissionsReach :: "'sel beylaLib \<Rightarrow> mutatorDeps \<Rightarrow> ('sel, 'm) podCustomDefaulter \<Rightarrow> 'sel admissions \<Rightarrow> bool"
  for lib deps d where
  start: "admissionsReach lib deps d \<lparr>ad_Past = [pcd_Registry d], ad_Phases = []\<rparr>"
| more: "admissionsReach lib deps d s \<Longrightarrow> admissionStep lib deps d s s' \<Longrightarrow> admissionsReach lib deps d s'"

text \<open>
  What an admission knows: a selected one has decided on a registry of the past, an answered
  one has carried out the decision of one past registry with the span metrics of a later
  (or the same) one.
\<close>

definition decidedAt :: "'sel beylaLib \<Rightarrow> ('sel, 'm) podCustomDefaulter \<Rightarrow> sdkInject \<Rightarrow> 'sel registry list \<Rightarrow> nat \<Rightarrow> pod \<Rightarrow> 'sel decision" where
  "decidedAt lib d cfg past j p = decision lib (past ! j) (pcd_Reader d) cfg p"

definition skipAt :: "'sel beylaLib \<Rightarrow> ('sel, 'm) podCustomDefaulter \<Rightarrow> 'sel registry list \<Rightarrow> nat \<Rightarrow> pod \<Rightarrow> bool" where
  "skipAt lib d past k p = spanSkip lib (d\<lparr>pcd_Registry := past ! k\<rparr>) p"

fun phase_ok :: "'sel beylaLib \<Rightarrow> mutatorDeps \<Rightarrow> ('sel, 'm) podCustomDefaulter \<Rightarrow> sdkInject \<Rightarrow> 'sel registry list \<Rightarrow> 'sel phase \<Rightarrow> bool" where
  "phase_ok lib deps d cfg past (Arrived p) = True"
| "phase_ok lib deps d cfg past (Selected p rule mutator wantHash) =
    (\<exists>j eff. j < length past \<and> decidedAt lib d cfg past j p = Inject rule eff \<and> mutator = \<lparr>pm_Cfg = eff\<rparr>
      \<and> wantHash = wantedHash (bl_ruleHash lib) eff (rule_Config rule))"
| "phase_ok lib deps d cfg past (Answered p p' result) =
    (\<exists>j k. j \<le> k \<and> k < length past \<and> result = outcomeOf (decidedAt lib d cfg past j p)
      \<and> p' = carryOut lib deps (skipAt lib d past k p) (decidedAt lib d cfg past j p) p)"

lemma phase_ok_write:
  assumes "phase_ok lib deps d cfg past ph"
  shows "phase_ok lib deps d cfg (past @ [r]) ph"
proof (cases ph)
  case (Selected p rule mutator wantHash)
  with assms obtain j eff where "j < length past" "decidedAt lib d cfg past j p = Inject rule eff"
    "mutator = \<lparr>pm_Cfg = eff\<rparr>" "wantHash = wantedHash (bl_ruleHash lib) eff (rule_Config rule)" by auto
  with Selected show ?thesis by (auto intro!: exI [of _ j] simp: decidedAt_def nth_append)
next
  case (Answered p p' result)
  with assms obtain j k where "j \<le> k" "k < length past" "result = outcomeOf (decidedAt lib d cfg past j p)"
    "p' = carryOut lib deps (skipAt lib d past k p) (decidedAt lib d cfg past j p) p" by auto
  then show ?thesis
    unfolding Answered phase_ok.simps
    by (intro exI [of _ j] exI [of _ k]) (simp add: decidedAt_def skipAt_def nth_append)
qed simp


lemma DefaultSelect_phase_ok:
  assumes "pcd_Mutator d = Some pm" "past \<noteq> []"
    "DefaultSelect lib (d\<lparr>pcd_Registry := last past\<rparr>) p = Returns ph"
  shows "phase_ok lib deps d (pm_Cfg pm) past ph"
proof -
  let ?n = "length past - 1"
  let ?dec = "decision lib (last past) (pcd_Reader d) (pm_Cfg pm) p"
  have n: "last past = past ! ?n" "?n < length past" using assms(2) by (simp_all add: last_conv_nth)
  have "ph = (case ?dec of Inject rule cfg \<Rightarrow> Selected p rule \<lparr>pm_Cfg = cfg\<rparr> (wantedHash (bl_ruleHash lib) cfg (rule_Config rule))
      | dec \<Rightarrow> Answered p p (outcomeOf dec))"
    using DefaultSelect_decision [where lib = lib, of "d\<lparr>pcd_Registry := last past\<rparr>" pm p] assms(1,3) by simp
  moreover have "decidedAt lib d (pm_Cfg pm) past ?n p = ?dec" by (simp add: decidedAt_def n(1))
  ultimately show ?thesis
    using n(2) by (cases ?dec) (auto intro!: exI [of _ ?n])
qed

lemma admissionStep_ok:
  assumes "pcd_Mutator d = Some pm" "admissionStep lib deps d s s'" "ad_Past s \<noteq> []"
    "\<forall>ph\<in>set (ad_Phases s). phase_ok lib deps d (pm_Cfg pm) (ad_Past s) ph"
  shows "ad_Past s' \<noteq> [] \<and> (\<forall>ph\<in>set (ad_Phases s'). phase_ok lib deps d (pm_Cfg pm) (ad_Past s') ph)"
proof -
  have one: "\<forall>x\<in>set ((ad_Phases s)[i := ph]). phase_ok lib deps d (pm_Cfg pm) (ad_Past s) x"
    if "phase_ok lib deps d (pm_Cfg pm) (ad_Past s) ph" for i ph
    using assms(4) that set_update_subset_insert [of "ad_Phases s" i ph] by blast
  from assms(2) show ?thesis
  proof (rule admissionStepE)
    fix oper assume "s' = s\<lparr>ad_Past := ad_Past s @ [regApply oper (currentReg s)]\<rparr>"
    with assms(3,4) show ?thesis by (simp add: phase_ok_write)
  next
    fix p assume "s' = s\<lparr>ad_Phases := ad_Phases s @ [Arrived p]\<rparr>"
    with assms(3,4) show ?thesis by auto
  next
    fix i p ph
    assume "s' = s\<lparr>ad_Phases := (ad_Phases s)[i := ph]\<rparr>" "DefaultSelect lib (d\<lparr>pcd_Registry := currentReg s\<rparr>) p = Returns ph"
    with one [OF DefaultSelect_phase_ok [OF assms(1,3), of lib p ph deps]] assms(3) show ?thesis
      by (simp add: currentReg_def)
  next
    fix i p rule mutator wantHash
    let ?p' = "DefaultInject lib deps (d\<lparr>pcd_Registry := currentReg s\<rparr>) p rule mutator wantHash"
    assume s': "s' = s\<lparr>ad_Phases := (ad_Phases s)[i := Answered p ?p' OutcomeSuccess]\<rparr>"
      and i: "i < length (ad_Phases s)" "ad_Phases s ! i = Selected p rule mutator wantHash"
    let ?n = "length (ad_Past s) - 1"
    have n: "last (ad_Past s) = ad_Past s ! ?n" "?n < length (ad_Past s)" using assms(3) by (simp_all add: last_conv_nth)
    have "phase_ok lib deps d (pm_Cfg pm) (ad_Past s) (Selected p rule mutator wantHash)"
      using assms(4) i nth_mem by metis
    then obtain j eff where j: "j < length (ad_Past s)" "decidedAt lib d (pm_Cfg pm) (ad_Past s) j p = Inject rule eff"
      "mutator = \<lparr>pm_Cfg = eff\<rparr>" "wantHash = wantedHash (bl_ruleHash lib) eff (rule_Config rule)" by auto
    have "?p' = carryOut lib deps (skipAt lib d (ad_Past s) ?n p) (Inject rule eff) p"
      unfolding j(3,4) DefaultInject_injected by (simp add: skipAt_def currentReg_def n(1))
    then have "phase_ok lib deps d (pm_Cfg pm) (ad_Past s) (Answered p ?p' OutcomeSuccess)"
      unfolding phase_ok.simps using j(1,2) n(2) by (intro exI [of _ j] exI [of _ ?n]) simp
    from one [OF this] s' assms(3) show ?thesis by simp
  qed
qed

section \<open>Property\<close>

text \<open>
  C17. Concurrent admissions are consistent: in every interleaving of any number of admissions
  with any writes to the registry, an answered admission has carried out the decision for
  one value the registry really had, and recorded that decision's outcome; only the span
  metrics flag may come from a later value than the rule. So the webhook never mixes the
  rule of one state with the configuration or hash of another.
\<close>

theorem concurrent_admissions_consistent:
  fixes lib :: "'sel beylaLib" and d :: "('sel, 'm) podCustomDefaulter"
  assumes "pcd_Mutator d = Some pm" "admissionsReach lib deps d s" "Answered p p' result \<in> set (ad_Phases s)"
  shows "\<exists>j k. j \<le> k \<and> k < length (ad_Past s)
    \<and> result = outcomeOf (decision lib (ad_Past s ! j) (pcd_Reader d) (pm_Cfg pm) p)
    \<and> p' = carryOut lib deps (BPFGeneratesSpanMetrics (bl_match lib) (ad_Past s ! k) (Resolve (pcd_Reader d) p) \<noteq> None)
        (decision lib (ad_Past s ! j) (pcd_Reader d) (pm_Cfg pm) p) p"
proof -
  have "ad_Past s \<noteq> [] \<and> (\<forall>ph\<in>set (ad_Phases s). phase_ok lib deps d (pm_Cfg pm) (ad_Past s) ph)"
    using assms(2)
  proof (induction rule: admissionsReach.induct)
    case (more s s')
    then show ?case using admissionStep_ok [OF assms(1)] by blast
  qed simp
  then have "phase_ok lib deps d (pm_Cfg pm) (ad_Past s) (Answered p p' result)" using assms(3) by blast
  then show ?thesis by (simp add: decidedAt_def skipAt_def spanSkip_def)
qed

theorem concurrent_admissions_consistent_witness:
  "\<exists>s p'. admissionsReach sampleLib sampleDeps (sampleDefaulter (Some sampleMutator)) s
    \<and> length (ad_Past s) = 2 \<and> Answered samplePod p' OutcomeSuccess \<in> set (ad_Phases s)
    \<and> (\<exists>j<2. OutcomeSuccess = outcomeOf (decision sampleLib (ad_Past s ! j) noReader (sampleSDK ''1'') samplePod))"
proof -
  let ?d = "sampleDefaulter (Some sampleMutator)"
  let ?step = "admissionStep sampleLib sampleDeps ?d" and ?reach = "admissionsReach sampleLib sampleDeps ?d"
  have d: "pcd_Mutator ?d = Some sampleMutator" "pcd_Registry ?d = sampleRegistry" "pcd_Reader ?d = noReader"
    "pm_Cfg sampleMutator = sampleSDK ''1''" by (simp_all add: sampleDefaulter_def sampleMutator_def)
  let ?ph = "Selected samplePod sampleRule \<lparr>pm_Cfg = sampleSDK ''1''\<rparr> (wantedHash (bl_ruleHash sampleLib) (sampleSDK ''1'') (rule_Config sampleRule))"
  let ?s0 = "\<lparr>ad_Past = [sampleRegistry], ad_Phases = []\<rparr>"
  let ?s1 = "\<lparr>ad_Past = [sampleRegistry], ad_Phases = [Arrived samplePod]\<rparr>"
  let ?s2 = "\<lparr>ad_Past = [sampleRegistry], ad_Phases = [?ph]\<rparr>"
  let ?reg = "regApply (OpDelete ''obs/a'') sampleRegistry"
  let ?s3 = "\<lparr>ad_Past = [sampleRegistry, ?reg], ad_Phases = [?ph]\<rparr>"
  let ?p' = "DefaultInject sampleLib sampleDeps (?d\<lparr>pcd_Registry := ?reg\<rparr>) samplePod sampleRule \<lparr>pm_Cfg = sampleSDK ''1''\<rparr>
    (wantedHash (bl_ruleHash sampleLib) (sampleSDK ''1'') (rule_Config sampleRule))"
  let ?s4 = "\<lparr>ad_Past = [sampleRegistry, ?reg], ad_Phases = [Answered samplePod ?p' OutcomeSuccess]\<rparr>"
  have sel: "DefaultSelect sampleLib (?d\<lparr>pcd_Registry := sampleRegistry\<rparr>) samplePod = Returns ?ph"
    using DefaultSelect_decision [where lib = sampleLib, of "?d\<lparr>pcd_Registry := sampleRegistry\<rparr>" sampleMutator samplePod]
    by (simp add: d sample_decision)
  have r0: "?reach ?s0" using admissionsReach.start [of sampleLib sampleDeps ?d] by (simp add: d)
  have "?step ?s0 ?s1" using admissionStep.arrive [of sampleLib sampleDeps ?d ?s0 samplePod] by simp
  with r0 have r1: "?reach ?s1" by (rule admissionsReach.more)
  have "?step ?s1 ?s2"
    using admissionStep.select [of 0 ?s1 samplePod sampleLib ?d ?ph sampleDeps] sel by (simp add: currentReg_def)
  with r1 have r2: "?reach ?s2" by (rule admissionsReach.more)
  have "?step ?s2 ?s3" using admissionStep.written [of sampleLib sampleDeps ?d ?s2 "OpDelete ''obs/a''"] by (simp add: currentReg_def)
  with r2 have r3: "?reach ?s3" by (rule admissionsReach.more)
  have "?step ?s3 ?s4"
    using admissionStep.inject [of 0 ?s3 samplePod sampleRule "\<lparr>pm_Cfg = sampleSDK ''1''\<rparr>" _ ?p' sampleLib sampleDeps ?d]
    by (simp add: currentReg_def)
  with r3 have r4: "?reach ?s4" by (rule admissionsReach.more)
  have mem: "Answered samplePod ?p' OutcomeSuccess \<in> set (ad_Phases ?s4)" by simp
  have len: "length (ad_Past ?s4) = 2" by simp
  from concurrent_admissions_consistent [OF d(1) r4 mem] obtain j k where "j \<le> k" "k < length (ad_Past ?s4)"
    and res: "OutcomeSuccess = outcomeOf (decision sampleLib (ad_Past ?s4 ! j) noReader (sampleSDK ''1'') samplePod)"
    unfolding d(3,4) by blast
  then have "j < 2" using len by linarith
  with r4 len mem res show ?thesis by blast
qed

end
