(* ===== verification/ConfigBounds.thy ===== *)
theory ConfigBounds
  imports Config
begin

text \<open>
  The bounds of \<open>config.go\<close>: how long the annotation value can get and what it is made of, and
  what becomes of version numbers that do not fit an \<open>int\<close>.
\<close>

section \<open>Printed numbers\<close>

lemma formatUint_length: "2 \<le> b \<Longrightarrow> n < b ^ Suc k \<Longrightarrow> length (formatUint b n) \<le> Suc k"
proof (induction k arbitrary: n)
  case 0
  then show ?case by (simp add: formatUint.simps [of b n])
next
  case (Suc k)
  have "n div b < b ^ Suc k"
    using Suc.prems by (simp add: less_mult_imp_div_less mult.commute)
  with Suc.IH [OF Suc.prems(1) this] show ?case by (subst formatUint.simps) simp
qed

lemma formatUint_chars: "2 \<le> b \<Longrightarrow> b \<le> 36 \<Longrightarrow> set (formatUint b n) \<subseteq> set (take b digitTable)"
proof (induction b n rule: formatUint.induct)
  case (1 b n)
  have digit: "digitTable ! i \<in> set (take b digitTable)" if "i < b" for i
    using that 1(3) digitTable_length nth_mem [of i "take b digitTable"] by simp
  show ?case
  proof (cases "n < b")
    case True
    with digit show ?thesis by (simp add: formatUint.simps [of b n])
  next
    case False
    with 1 have "set (formatUint b (n div b)) \<subseteq> set (take b digitTable)" by simp
    moreover have "n mod b < b" using 1(2) by simp
    ultimately show ?thesis using digit False 1(2) by (simp add: formatUint.simps [of b n])
  qed
qed

text \<open>
  C31. The annotation value is small and plain: the hash has between one and thirteen
  characters, all of them digits or letters up to v, and read as a number in base 32 it is
  the 64-bit FNV state, so nothing is cut off.
\<close>

theorem PodConfigHash_bounds:
  assumes "PodConfigHash rh cfg rc = Some h"
  shows "1 \<le> length h \<and> length h \<le> 13 \<and> set h \<subseteq> set ''0123456789abcdefghijklmnopqrstuv''
    \<and> readUint 32 h = unat (fnvWrite (rh rc) (ImageVolumePath cfg)) \<and> readUint 32 h < 2 ^ 64"
proof -
  let ?w = "fnvWrite (rh rc) (ImageVolumePath cfg)"
  have h: "h = formatUint 32 (unat ?w)" using assms by (simp add: PodConfigHash_eq)
  have w: "unat ?w < 2 ^ 64" using unsigned_less [of ?w] by simp
  then have "unat ?w < 32 ^ Suc 12" by simp
  from formatUint_length [OF _ this] have "length h \<le> 13" by (simp add: h)
  moreover have "set h \<subseteq> set ''0123456789abcdefghijklmnopqrstuv''"
    using formatUint_chars [of 32 "unat ?w"] by (simp add: h digitTable_def)
  moreover have "readUint 32 h = unat ?w" by (simp add: h readUint_formatUint)
  moreover have "1 \<le> length h" using formatUint_nonempty [of 32 "unat ?w"] by (simp add: h Suc_leI)
  ultimately show ?thesis using w by simp
qed

theorem PodConfigHash_bounds_witness:
  "\<exists>h. PodConfigHash modeHash (sampleSDK ''1'') \<lparr>rc_Mode = ModeSkip, rc_Env = []\<rparr> = Some h \<and> length h \<le> 13"
proof -
  obtain h where h: "PodConfigHash modeHash (sampleSDK ''1'') \<lparr>rc_Mode = ModeSkip, rc_Env = []\<rparr> = Some h"
    by (simp add: PodConfigHash_eq)
  from PodConfigHash_bounds [OF h] h show ?thesis by blast
qed

section \<open>Read numbers\<close>

lemma parseUintLoop_saturates:
  "list_all isDigit s \<Longrightarrow> a < 2 ^ 64 \<Longrightarrow> 2 ^ 64 \<le> decValue a s \<Longrightarrow> parseUintLoop a s = (2 ^ 64 - 1, Some ErrRange)"
proof (induction s arbitrary: a)
  case Nil
  then show ?case by (simp add: decValue_def)
next
  case (Cons c s)
  have "decValue a (c # s) = decValue (a * 10 + digitVal c) s" by (simp add: decValue_def)
  with Cons show ?case by (simp add: Let_def)
qed

lemma atoi_saturates: "atoi (formatUint 10 n) = (if n < 2 ^ 63 then (int n, None) else (2 ^ 63 - 1, Some ErrRange))"
proof (cases "n < 2 ^ 63")
  case True
  then show ?thesis by (simp add: atoi_formatUint)
next
  case False
  obtain c cs where s: "formatUint 10 n = c # cs"
    using formatUint_nonempty [of 10 n] by (cases "formatUint 10 n") auto
  have sign: "c \<noteq> CHR ''+''" "c \<noteq> CHR ''-''"
    using formatUint_dec [of n] s isDigit_not_sign [of c] by auto
  have "parseUint (formatUint 10 n) = (if n < 2 ^ 64 then (n, None) else (2 ^ 64 - 1, Some ErrRange))"
    using formatUint_dec [of n] parseUintLoop_value [of "formatUint 10 n" 0] parseUintLoop_saturates [of "formatUint 10 n" 0]
    by (simp add: parseUint_def formatUint_nonempty)
  with False s sign show ?thesis by (simp add: atoi_def)
qed

lemma atoi_range: "fst (atoi s) \<in> {- (2 ^ 63) ..< 2 ^ 63}"
  by (auto simp: atoi_def Let_def not_le not_less split: prod.split)

text \<open>
  Version numbers never wrap around: whatever the server reports, both components fit a
  64-bit \<open>int\<close>; and a git version whose numbers do not fit is not rejected but read as the
  largest number, since the fallback ignores range errors.
\<close>

theorem ParseServerVersion_bounds:
  "(ParseServerVersion info = Inr (major, minor) \<longrightarrow> major \<in> {- (2 ^ 63) ..< 2 ^ 63} \<and> minor \<in> {- (2 ^ 63) ..< 2 ^ 63})
   \<and> (snd (parseVersionComponent (vi_Major info)) \<noteq> None \<and> vi_GitVersion info = pre @ formatUint 10 m @ ''.'' @ formatUint 10 n @ rest
      \<and> (rest = [] \<or> \<not> isDigit (hd rest)) \<and> (pre = '''' \<or> pre = ''v'') \<longrightarrow>
      ParseServerVersion info = Inr (min (int m) (2 ^ 63 - 1), min (int n) (2 ^ 63 - 1)))"
proof (rule conjI; rule impI)
  assume "ParseServerVersion info = Inr (major, minor)"
  then have "\<exists>s t. major = fst (atoi s) \<and> minor = fst (atoi t)"
    unfolding ParseServerVersion_def parseVersionComponent_def
    by (auto split: prod.split_asm if_split_asm option.split_asm) (metis fst_conv)+
  then show "major \<in> {- (2 ^ 63) ..< 2 ^ 63} \<and> minor \<in> {- (2 ^ 63) ..< 2 ^ 63}" using atoi_range by auto
next
  assume a: "snd (parseVersionComponent (vi_Major info)) \<noteq> None \<and> vi_GitVersion info = pre @ formatUint 10 m @ ''.'' @ formatUint 10 n @ rest
      \<and> (rest = [] \<or> \<not> isDigit (hd rest)) \<and> (pre = '''' \<or> pre = ''v'')"
  then have "versionRegex (vi_GitVersion info) = Some (formatUint 10 m, formatUint 10 n)"
    using versionRegex_dec [of rest pre m n] by simp
  then have "ParseServerVersion info = Inr (fst (atoi (formatUint 10 m)), fst (atoi (formatUint 10 n)))"
    using a by (auto simp: ParseServerVersion_def split: prod.split)
  then show "ParseServerVersion info = Inr (min (int m) (2 ^ 63 - 1), min (int n) (2 ^ 63 - 1))"
    by (auto simp: atoi_saturates)
qed

theorem ParseServerVersion_bounds_witness:
  "ParseServerVersion \<lparr>vi_Major = '''', vi_Minor = '''', vi_GitVersion = ''v'' @ formatUint 10 1 @ ''.'' @ formatUint 10 (10 ^ 30)\<rparr>
    = Inr (1, 2 ^ 63 - 1)"
proof -
  let ?info = "\<lparr>vi_Major = '''', vi_Minor = '''', vi_GitVersion = ''v'' @ formatUint 10 1 @ ''.'' @ formatUint 10 (10 ^ 30)\<rparr>"
  have e: "snd (parseVersionComponent '''') \<noteq> None"
    by (simp add: parseVersionComponent_def trimRightByte_def atoi_def parseUint_def)
  show ?thesis
    using conjunct2 [OF ParseServerVersion_bounds [of ?info 0 0 "''v''" 1 "10 ^ 30" "''''"]] e by simp
qed

end
