(* ===== verification/LogFilter.thy ===== *)
theory LogFilter
  imports GoStrings
begin

text \<open>
  \<open>cmd/log_filter.go\<close>: a log sink that drops the transient errors of the certificate rotation.
  The wrapped \<open>logr.Logger\<close> belongs to another repository: its methods are the fields of the
  parameter record \<open>loggerOps\<close>, over a type of loggers and a state of what was written. Of an
  error the code asks whether it is an API conflict (\<open>apierrors.IsConflict\<close>, which is false
  for nil) and what its text is.
\<close>

section \<open>The sink\<close>

record goError =
  ge_Conflict :: bool
  ge_Text :: string

record ('l, 'v, 'w) loggerOps =
  lo_V :: "int \<Rightarrow> 'l \<Rightarrow> 'l"
  lo_WithCallDepth :: "int \<Rightarrow> 'l \<Rightarrow> 'l"
  lo_WithValues :: "'v list \<Rightarrow> 'l \<Rightarrow> 'l"
  lo_WithName :: "string \<Rightarrow> 'l \<Rightarrow> 'l"
  lo_Enabled :: "'l \<Rightarrow> bool"
  lo_Info :: "'l \<Rightarrow> string \<Rightarrow> 'v list \<Rightarrow> 'w \<Rightarrow> 'w"
  lo_Error :: "'l \<Rightarrow> goError option \<Rightarrow> string \<Rightarrow> 'v list \<Rightarrow> 'w \<Rightarrow> 'w"

definition certRotationLoggerName :: string where
  "certRotationLoggerName = ''cert-rotation''"

definition malformedSecretWebhookConfigMsg :: string where
  "malformedSecretWebhookConfigMsg = ''secret is not well-formed, cannot update webhook configurations''"

definition missingCACertSecretErr :: string where
  "missingCACertSecretErr = ''Cert secret is not well-formed, missing ca.crt''"

definition missingCAKeySecretErr :: string where
  "missingCAKeySecretErr = ''Cert secret is not well-formed, missing ca.key''"

definition suppressibleCertRotationConflictMessages :: "string list" where
  "suppressibleCertRotationConflictMessages =
    [''could not refresh CA and server certs'', ''could not refresh server certs'']"

record 'l certRotationConflictFilter =
  cf_logger :: 'l
  cf_name :: string
  cf_callDepth :: int

definition filterCertRotationConflicts :: "'l \<Rightarrow> 'l certRotationConflictFilter" where
  "filterCertRotationConflicts lg = \<lparr>cf_logger = lg, cf_name = '''', cf_callDepth = 0\<rparr>"

definition isSuppressibleCertRotationConflict :: "goError option \<Rightarrow> string \<Rightarrow> bool" where
  "isSuppressibleCertRotationConflict e msg =
    (if \<not> (case e of None \<Rightarrow> False | Some x \<Rightarrow> ge_Conflict x) then False
     else msg \<in> set suppressibleCertRotationConflictMessages)"

definition isSuppressibleMalformedSecret :: "goError option \<Rightarrow> string \<Rightarrow> bool" where
  "isSuppressibleMalformedSecret e msg =
    (if msg \<noteq> malformedSecretWebhookConfigMsg then False
     else (case e of None \<Rightarrow> False
       | Some x \<Rightarrow> ge_Text x = missingCACertSecretErr \<or> ge_Text x = missingCAKeySecretErr))"

definition isCertRotationLogger :: "string \<Rightarrow> bool" where
  "isCertRotationLogger name =
    (name = certRotationLoggerName \<or> hasSuffix name (''/'' @ certRotationLoggerName))"

definition appendLoggerName :: "string \<Rightarrow> string \<Rightarrow> string" where
  "appendLoggerName parent name = (if parent = '''' then name else parent @ ''/'' @ name)"

definition suppresses :: "'l certRotationConflictFilter \<Rightarrow> goError option \<Rightarrow> string \<Rightarrow> bool" where
  "suppresses f e msg =
    (if \<not> isCertRotationLogger (cf_name f) then False
     else if isSuppressibleCertRotationConflict e msg then True
     else isSuppressibleMalformedSecret e msg)"

definition sinkEnabled :: "('l, 'v, 'w) loggerOps \<Rightarrow> 'l certRotationConflictFilter \<Rightarrow> int \<Rightarrow> bool" where
  "sinkEnabled ops f level = lo_Enabled ops (lo_V ops level (cf_logger f))"

definition sinkInfo :: "('l, 'v, 'w) loggerOps \<Rightarrow> 'l certRotationConflictFilter \<Rightarrow> int \<Rightarrow> string \<Rightarrow> 'v list \<Rightarrow> 'w \<Rightarrow> 'w" where
  "sinkInfo ops f level msg kvs w =
    lo_Info ops (lo_WithCallDepth ops (cf_callDepth f + 1) (lo_V ops level (cf_logger f))) msg kvs w"

definition sinkError :: "('l, 'v, 'w) loggerOps \<Rightarrow> 'l certRotationConflictFilter \<Rightarrow> goError option \<Rightarrow> string \<Rightarrow> 'v list \<Rightarrow> 'w \<Rightarrow> 'w" where
  "sinkError ops f e msg kvs w =
    (if suppresses f e msg then w
     else lo_Error ops (lo_WithCallDepth ops (cf_callDepth f + 1) (cf_logger f)) e msg kvs w)"

definition sinkWithValues :: "('l, 'v, 'w) loggerOps \<Rightarrow> 'v list \<Rightarrow> 'l certRotationConflictFilter \<Rightarrow> 'l certRotationConflictFilter" where
  "sinkWithValues ops kvs f =
    \<lparr>cf_logger = lo_WithValues ops kvs (cf_logger f), cf_name = cf_name f, cf_callDepth = cf_callDepth f\<rparr>"

definition sinkWithName :: "('l, 'v, 'w) loggerOps \<Rightarrow> string \<Rightarrow> 'l certRotationConflictFilter \<Rightarrow> 'l certRotationConflictFilter" where
  "sinkWithName ops name f =
    \<lparr>cf_logger = lo_WithName ops name (cf_logger f), cf_name = appendLoggerName (cf_name f) name,
      cf_callDepth = cf_callDepth f\<rparr>"

definition sinkWithCallDepth :: "int \<Rightarrow> 'l certRotationConflictFilter \<Rightarrow> 'l certRotationConflictFilter" where
  "sinkWithCallDepth depth f =
    \<lparr>cf_logger = cf_logger f, cf_name = cf_name f, cf_callDepth = cf_callDepth f + depth\<rparr>"

section \<open>Which logger is silenced\<close>

text \<open>A logger is built by a sequence of derivations from the filter of the root logger.\<close>

datatype 'v derivation = Named string | Valued "'v list" | Deeper int

fun derive :: "('l, 'v, 'w) loggerOps \<Rightarrow> 'v derivation \<Rightarrow> 'l certRotationConflictFilter \<Rightarrow> 'l certRotationConflictFilter" where
  "derive ops (Named n) f = sinkWithName ops n f"
| "derive ops (Valued kvs) f = sinkWithValues ops kvs f"
| "derive ops (Deeper k) f = sinkWithCallDepth k f"

fun namesOf :: "'v derivation list \<Rightarrow> string list" where
  "namesOf [] = []"
| "namesOf (Named n # ds) = n # namesOf ds"
| "namesOf (_ # ds) = namesOf ds"

text \<open>The last name given, if any.\<close>

fun lastName :: "string option \<Rightarrow> 'v derivation list \<Rightarrow> string option" where
  "lastName l [] = l"
| "lastName l (Named n # ds) = lastName (Some n) ds"
| "lastName l (_ # ds) = lastName l ds"

lemma last_segment:
  assumes "CHR ''/'' \<notin> set n"
  shows "isCertRotationLogger (pre @ ''/'' @ n) \<longleftrightarrow> n = certRotationLoggerName"
proof
  have c: "CHR ''/'' \<notin> set certRotationLoggerName" by (simp add: certRotationLoggerName_def)
  assume "isCertRotationLogger (pre @ ''/'' @ n)"
  then have "pre @ ''/'' @ n = certRotationLoggerName \<or> (\<exists>r. pre @ ''/'' @ n = r @ ''/'' @ certRotationLoggerName)"
    by (simp add: isCertRotationLogger_def hasSuffix_append)
  moreover have "pre @ ''/'' @ n \<noteq> certRotationLoggerName"
  proof
    assume "pre @ ''/'' @ n = certRotationLoggerName"
    then have "CHR ''/'' \<in> set certRotationLoggerName" by (metis in_set_conv_decomp append_Cons append_Nil)
    then show False using c by blast
  qed
  ultimately obtain r where r: "pre @ CHR ''/'' # n = r @ CHR ''/'' # certRotationLoggerName" by auto
  have "length pre = length r"
    using lastIndexByte_append [OF assms, of pre] lastIndexByte_append [OF c, of r] r by simp
  with r show "n = certRotationLoggerName" by simp
qed (auto simp: isCertRotationLogger_def hasSuffix_append)

definition goodName :: "string \<Rightarrow> bool" where
  "goodName n = (n \<noteq> '''' \<and> CHR ''/'' \<notin> set n)"

lemma derive_name:
  assumes "\<forall>n\<in>set (namesOf ds). goodName n"
    and "isCertRotationLogger (cf_name f) \<longleftrightarrow> l = Some certRotationLoggerName"
  shows "isCertRotationLogger (cf_name (fold (derive ops) ds f)) \<longleftrightarrow> lastName l ds = Some certRotationLoggerName"
  using assms
proof (induction ds arbitrary: f l)
  case Nil
  then show ?case by simp
next
  case (Cons d ds)
  show ?case
  proof (cases d)
    case (Named n)
    with Cons.prems have "goodName n" by simp
    then have n: "CHR ''/'' \<notin> set n" by (simp add: goodName_def)
    then have "\<not> hasSuffix n (''/'' @ certRotationLoggerName)"
      by (auto simp: hasSuffix_append)
    then have "isCertRotationLogger (appendLoggerName (cf_name f) n) \<longleftrightarrow> n = certRotationLoggerName"
      using last_segment [OF n] by (simp add: appendLoggerName_def) (simp add: isCertRotationLogger_def)
    with Cons Named show ?thesis by (simp add: sinkWithName_def)
  next
    case (Valued kvs)
    with Cons show ?thesis by (simp add: sinkWithValues_def)
  next
    case (Deeper k)
    with Cons show ?thesis by (simp add: sinkWithCallDepth_def)
  qed
qed

section \<open>Properties\<close>

text \<open>
  C40. Exactly the known transient errors of the certificate rotation are dropped: an error
  written through a derived logger is swallowed if and only if the last name the logger was
  given is cert-rotation and it is a conflict while refreshing certificates or the report of
  a secret without its CA; every other error reaches the wrapped logger with its message and
  values, one call deeper.
\<close>

theorem filter_drops_only_transient_errors:
  fixes ops :: "('l, 'v, 'w) loggerOps" and lg :: 'l
  assumes "\<forall>n\<in>set (namesOf ds). goodName n"
  defines "f \<equiv> fold (derive ops) ds (filterCertRotationConflicts lg)"
  shows "sinkError ops f e msg kvs w =
    (if lastName None ds = Some certRotationLoggerName
        \<and> (\<exists>x. e = Some x
          \<and> (ge_Conflict x \<and> msg \<in> {''could not refresh CA and server certs'', ''could not refresh server certs''}
             \<or> msg = malformedSecretWebhookConfigMsg \<and> ge_Text x \<in> {missingCACertSecretErr, missingCAKeySecretErr}))
     then w else lo_Error ops (lo_WithCallDepth ops (cf_callDepth f + 1) (cf_logger f)) e msg kvs w)"
proof -
  have "isCertRotationLogger (cf_name f) \<longleftrightarrow> lastName None ds = Some certRotationLoggerName"
    unfolding f_def
    by (rule derive_name [OF assms(1)])
      (simp add: filterCertRotationConflicts_def isCertRotationLogger_def certRotationLoggerName_def hasSuffix_def)
  then show ?thesis
    by (auto simp: sinkError_def suppresses_def isSuppressibleCertRotationConflict_def
        isSuppressibleMalformedSecret_def suppressibleCertRotationConflictMessages_def split: option.split)
qed

text \<open>A logger that keeps the messages of its errors, for the witness.\<close>

definition listOps :: "(unit, string, string list) loggerOps" where
  "listOps = \<lparr>lo_V = (\<lambda>_ l. l), lo_WithCallDepth = (\<lambda>_ l. l), lo_WithValues = (\<lambda>_ l. l), lo_WithName = (\<lambda>_ l. l),
     lo_Enabled = (\<lambda>_. True), lo_Info = (\<lambda>_ msg _ w. msg # w), lo_Error = (\<lambda>_ _ msg _ w. msg # w)\<rparr>"

theorem filter_drops_only_transient_errors_witness:
  "sinkError listOps (fold (derive listOps) [Named ''manager'', Named ''cert-rotation'', Deeper 1]
      (filterCertRotationConflicts ())) (Some \<lparr>ge_Conflict = True, ge_Text = ''conflict''\<rparr>)
      ''could not refresh server certs'' [] [] = []
   \<and> sinkError listOps (fold (derive listOps) [Named ''cert-rotation'', Named ''manager'']
      (filterCertRotationConflicts ())) (Some \<lparr>ge_Conflict = True, ge_Text = ''conflict''\<rparr>)
      ''could not refresh server certs'' [] [] = [''could not refresh server certs'']"
proof -
  have g: "\<forall>n\<in>set (namesOf [Named ''manager'', Named ''cert-rotation'', Deeper 1 :: string derivation]). goodName n"
    "\<forall>n\<in>set (namesOf [Named ''cert-rotation'', Named ''manager'' :: string derivation]). goodName n"
    by (simp_all add: goodName_def)
  show ?thesis
    unfolding filter_drops_only_transient_errors [OF g(1)] filter_drops_only_transient_errors [OF g(2)]
    by (simp add: certRotationLoggerName_def listOps_def)
qed

end
