(* ===== verification/Spec2Isabelle.thy ===== *)
theory Spec2Isabelle
  imports Trust EndToEnd Deletion Concurrency ConfigBounds LogFilter
begin

text \<open>
  The Kubernetes injection controller, modelled and verified.

  The program. Beyla writes selector ConfigMaps into one namespace. The controller reads them
  into an in-memory registry of rules; a mutating webhook looks every new pod up in it and,
  if a rule selects the pod, injects the OpenTelemetry SDK (a volume, an init container on
  old clusters, mounts, environment variables) and stamps an annotation with a hash of the
  configuration; the controller restarts the workloads of running pods whose state no longer
  fits the rules; a collector counts pods by injection state; a validating webhook guards who
  may write selector ConfigMaps. Paths below are relative to the root of the repository.

  Theories, in the order of their imports:
  \<^item> Prelude: Go maps as association lists, slices searched by name (locale \<open>keyed_slice\<close>,
    interpreted for volumes, mounts, containers and variables), calls that may panic, counters
    with labels (locale \<open>label_counter\<close>).
  \<^item> GoStrings: what the code uses of strings, strconv, hash/fnv (64-bit words) and binary.
  \<^item> KubeTypes: pods, ConfigMaps, nodes and answers of the API, with the fields the code uses.
  \<^item> Registry (internal/registry/registry.go): the store, \<open>Match\<close>, \<open>BPFGeneratesSpanMetrics\<close>;
    locale \<open>selector_registry\<close> is its contract, interpreted on the model.
  \<^item> Podinfo (internal/podinfo/podinfo.go): owner chains.
  \<^item> Config, ConfigBounds (internal/config/config.go): settings, server version, configuration
    hash; the sizes of what they return.
  \<^item> Mutator, MutatorEnv, MutatorProps, MutatorPayload (internal/webhook/v1/mutator.go): the
    operations, the laws of environment variables by name and by position, and the properties.
  \<^item> PodWebhook (internal/webhook/v1/pod_webhook.go): the admission handler; the type
    \<open>decision\<close> is the specification the webhook, the sweep and the gauge are compared with;
    locale \<open>request_recorder\<close>, which extends \<open>label_counter\<close>, is the interface of the outcome counter.
  \<^item> PodValidity, Concurrency: what the handler must keep of the API's pod type, and the handler
    as the two steps between which the registry can change.
  \<^item> Metrics (internal/metrics): counters (which interpret \<open>request_recorder\<close> and
    \<open>label_counter\<close>) and collector, with their registration.
  \<^item> ConfigMapWebhook (internal/webhook/v1/configmap_webhook.go): the validator.
  \<^item> Controller, ControllerProps, SweepProps (internal/controller/configmap_controller.go):
    reconciliation and sweep, and what a sweep reports; \<open>controllerStep\<close> and
    \<open>controllerReaches\<close> are its runs.
  \<^item> Rollout, Requeue: what becomes of a sweep in the cluster, and the queue that runs a request
    again while the webhook gate is closed. Locale \<open>pod_admission\<close> is what the workload
    controllers rely on; Lifecycle interprets it on the webhook of the started program.
  \<^item> CertDns (internal/webhookcert/dnsnames.go), LogFilter (cmd/log_filter.go), Startup
    (cmd/main.go up to the start of the manager, internal/buildinfo/buildinfo.go).
  \<^item> Lifecycle (cmd/main.go): the wiring of the parts and the process after its start, with the
    goroutine that registers the webhooks; \<open>lifeStep\<close> and \<open>lifeReaches\<close> are its runs, in which
    \<open>setupStep\<close> takes the registration apart: the server is added, and may listen, before
    either handler is there.
  \<^item> Watches: the controller behind its caches, watch events and work queue, with passes that
    read caches that go on changing (\<open>queueStep\<close>, \<open>queueReaches\<close>).
  \<^item> Cleanup: sweeps and the ConfigMaps that are not loaded yet.
  \<^item> Deletion: the way from the deletion of a ConfigMap to its cleanup (\<open>uncleaned\<close>).
  \<^item> EndToEnd: from a change of a ConfigMap through the pass and the replacement of pods to what
    the cluster looks like afterwards.
  \<^item> Trust: the whole program in one run, with writes of ConfigMaps through the validator,
    reconciliations and admissions (\<open>systemStep\<close>, \<open>systemReaches\<close>), and who can steer it.
  \<^item> This theory: the other properties that span components.

  State and errors. Records carry the state of each component; operations return the new
  state. Errors are values of a sum, panics the value \<open>Panic\<close>, pointers options. The registry
  and the counters the components share are passed explicitly. Locks make the operations of
  the registry atomic and the controller runs one reconciliation at a time, so a run is a
  sequence of passes; an admission is two steps, because it reads the registry twice. Every
  function of the model is total and without fuel, but for \<open>processRequest\<close>, the loop of the
  work queue: it is a partial function whose value None means that the request is never done,
  and theorems say when it is and when it is not. A pass of the queue model is a step of its own
  and may fail or panic; \<open>queue_drains\<close> says when the steps come to an end.

  What is a parameter. Code of other repositories: a selector's \<open>Match\<close>, a rule's \<open>Hash\<close>, the
  YAML documents and the annotation keys of Beyla; the image reference parser; the keys of
  the semantic conventions; the wrapped logger; the API server's answers, one set of answers
  per pass; the outcome of dialling the webhook Service; the clock; the order in which Go
  ranges over the two maps of the sweep (any permutation, \<open>range_ok\<close>), and in which \<open>sort.Slice\<close>
  leaves equal entries (\<open>sortTies_ok\<close>). Hypotheses on them are
  named: \<open>lists_ok\<close> (a namespaced list returns pods of that namespace), \<open>ignoresInjected\<close>
  (selectors do not read the injector's own annotation), \<open>semconv_ok\<close> (the attribute keys are
  distinct), \<open>rules_ok\<close> (a rule's variables have names, as Beyla writes them), \<open>sees\<close> (the
  controller's cache holds ConfigMaps that were written, of the watched namespace), \<open>recreates\<close> and
  \<open>serves\<close> (workload controllers recreate pods from their template; the API lists the pods there
  are). One \<open>reader\<close> answers the look-ups of owners for the webhook, the sweep and the gauge. In the
  program the webhook reads through \<open>mgr.GetAPIReader\<close> and the other two through the cached client,
  so where properties compare them (restart loops, the gauge, those of Rollout and
  EndToEnd) they speak of a cache that agrees with the API server on the owners of the pod.
  The queue of controller-runtime is taken as documented: a result with a delay is run
  again, the manager starts a webhook server added late, and the process ends when the manager
  fails. In the runs of Lifecycle, Trust and \<open>controllerStep\<close> a pass returns; in Watches it may also
  panic, which controller-runtime turns into an error, so that the request comes back. Watches
  takes the caches and the queue of client-go as documented: an informer changes its cache first
  and hands out one event per change later, in any order; the queue holds a request once and keeps
  one that arrives while it is in process; every answer of a pass comes from some state the
  caches had during it (\<open>answers\<close>). That a handler finds the list of ConfigMaps in its cache is
  assumed; if it did not, the event would be dropped.

  What the lemmas show. The store refines a partial map and both searches are first-match over
  one list, whatever the map order. The webhook carries out the decision, its effects on a
  pod are characterised variable by variable, and re-admission changes nothing; a pod that
  the API accepts stays one it accepts, and admissions that interleave with changes of the
  registry leave a pod that some state of the registry explains. The sweep restarts exactly
  the workloads whose pods the webhook would now treat differently, each once, never in a
  protected namespace, and never a pod that was just admitted; it sends all these patches,
  whichever fail, and reports the failed ones; replacing pods ends and the next sweep has
  nothing left to do. While the webhook does not listen a sweep is put off, and it runs as soon
  as it does; the start makes sure that it comes.
  The registry follows the ConfigMaps: whatever changes, fails, panics and overlaps, it is exact
  whenever the queue is idle, so that pods get what the ConfigMaps of the cache say; the queue does
  run idle; and a cleanup knows every ConfigMap even when nothing was loaded before it. Every
  deletion gets its cleanup. Put together: rules that are withdrawn disappear from the pods, and
  what a ConfigMap asks to restart ends up as the webhook would have it. Gauge and
  counter agree with the decision and, for a pod that was admitted, with each other. The validator
  guards what the controller consumes: in every run, whatever is injected or restarted was asked
  for by a trusted user, clearing out injected pods apart. Some theorems pin down where the code
  falls short of its comments (owner names replaced by UIDs, attributes appended twice, a nil
  mutator, a null restart entry, which in one ConfigMap keeps all others from being cleaned up,
  a webhook server that counts as ready before its handlers are registered, a removed annotation
  that goes unnoticed, a targeted sweep that restarts pods of ConfigMaps not
  loaded yet, a ConfigMap name that the manifests keep from the validator).

  Bounds. Words are 64 bit in the hash and wrap around; \<open>Atoi\<close> clamps as Go's does; counters are
  unbounded. Lower-casing is ASCII and quoting leaves bytes beyond ASCII as they are.

  Not modelled: log lines, the registry of Prometheus itself, the TLS handshake behind the dial
  of the webhook Service, scrape timeouts, tests, manifests and charts.
\<close>

section \<open>Properties across components\<close>

text \<open>
  C3. No restart loop: a fresh pod that has passed the webhook of the started program is never
  restarted by the sweep of the same program on the same rules, in either mode and for any
  targets, whatever the webhook decided about it.
\<close>

theorem no_restart_loop:
  fixes lib :: "'sel beylaLib" and reg :: "'sel registry"
  assumes "ignoresInjected (bl_match lib)" "\<not> IsInstrumented (pod_Meta p)"
    and "Default lib deps (wiredDefaulter pl reg rd) p m = Returns (p', m')"
  shows "podRollout lib (cr_DefaultSDKConfig (wiredReconciler pl started)) reg rd cleanupOnly targets p' = None"
  using admitted_pod_settled [OF assms(1) wiredDefaulter_fields(3) assms(2,3)]
  by (simp add: settled_def wiredReconciler_def)

theorem no_restart_loop_witness:
  "\<exists>p' m'. Default sampleLib sampleDeps (wiredDefaulter samplePlan sampleRegistry noReader) samplePod None = Returns (p', m')
    \<and> podRollout sampleLib (cr_DefaultSDKConfig (wiredReconciler samplePlan None)) sampleRegistry noReader False [] p' = None"
proof -
  let ?d = "wiredDefaulter samplePlan sampleRegistry noReader"
  have "pcd_Mutator ?d = Some \<lparr>pm_Cfg = sampleSDK ''1''\<rparr>" by (simp add: samplePlan_def)
  from Default_decision [where lib = sampleLib, OF this, of sampleDeps samplePod None] obtain p' m' where
    run: "Default sampleLib sampleDeps ?d samplePod None = Returns (p', m')" by blast
  have "\<not> IsInstrumented (pod_Meta samplePod)" by (simp add: IsInstrumented_def samplePod_def emptyMeta_def)
  from no_restart_loop [OF sample_ignores this run] run show ?thesis by blast
qed

text \<open>
  C28. Counter and gauge tell one story: when the webhook of the started program has admitted a fresh
  pod for which an SDK version is configured, it has counted exactly one outcome, and the gauge
  of the same program, on the same rules, shows the admitted pod under the same workload and
  with the status that belongs to that outcome. So an admitted pod is never shown as pending.
\<close>

theorem admission_shows_in_gauge:
  fixes lib :: "'sel beylaLib" and reg :: "'sel registry"
  assumes "ignoresInjected (bl_match lib)" "\<not> IsInstrumented (pod_Meta p)"
    and "decision lib reg rd (pl_SDKConfig pl) p \<noteq> NoSDK"
    and "Default lib deps (wiredDefaulter pl reg rd) p m = Returns (p', m')"
  shows "\<exists>outcome status kind name reason. (outcome, status) \<in> {(OutcomeSuccess, StatusInstrumented),
      (OutcomeNoMatchingSelector, StatusUnmatched), (OutcomeLDPreloadConflict, StatusSkipped)}
    \<and> m' = RecordRequest (om_Namespace (pod_Meta p)) kind name outcome m
    \<and> classify lib (wiredCollector pl reg rd) p' = \<lparr>cl_status = status, cl_skipReason = reason, cl_kind = kind, cl_name = name\<rparr>"
proof -
  let ?dec = "decision lib reg rd (pl_SDKConfig pl)" and ?c = "wiredCollector pl reg rd"
  obtain kind name where w: "Workload (Resolve rd p) = (kind, name)" by fastforce
  have fields: "psc_reg ?c = reg" "psc_reader ?c = rd" "psc_cfg ?c = pl_SDKConfig pl"
    by (simp_all add: wiredCollector_def NewPodStateCollector_def)
  have run: "p' = carryOut lib deps (spanSkip lib (wiredDefaulter pl reg rd) p) (?dec p) p"
    "m' = RecordRequest (om_Namespace (pod_Meta p)) kind name (outcomeOf (?dec p)) m"
    using assms(4) w by (simp_all add: Default_decision [where lib = lib, OF wiredDefaulter_fields(3)] recordOutcome_def)
  have fresh: "?dec p \<noteq> Current"
    using assms(2) wantedHash_nonempty [THEN not_sym]
    by (auto simp: decision_def IsInstrumented_def Let_def split: option.splits if_splits)
  have same: "Workload (Resolve rd (injectedPod lib deps rule eff skip p)) = Workload (Resolve rd p)" for rule eff skip
    by (simp add: Workload_def Resolve_chain_injected injectedPod_meta)
  have "?dec p' = (case ?dec p of Inject rule eff \<Rightarrow> Current | d \<Rightarrow> d) \<and> Workload (Resolve rd p') = (kind, name)"
    using run(1) w decision_injected [OF assms(1)] same by (cases "?dec p") simp_all
  then show ?thesis
    using classify_decision [of lib ?c p'] run(2) fresh assms(3)
    by (cases "?dec p"; cases "classify lib ?c p'") (auto simp: fields)
qed

theorem admission_shows_in_gauge_witness:
  "\<exists>p' m'. Default sampleLib sampleDeps (wiredDefaulter samplePlan sampleRegistry noReader) samplePod None = Returns (p', m')
    \<and> cl_status (classify sampleLib (wiredCollector samplePlan sampleRegistry noReader) p') \<noteq> StatusPendingRestart"
proof -
  let ?d = "wiredDefaulter samplePlan sampleRegistry noReader"
  have cfg: "pl_SDKConfig samplePlan = sampleSDK ''1''" by (simp add: samplePlan_def)
  then have "pcd_Mutator ?d = Some \<lparr>pm_Cfg = sampleSDK ''1''\<rparr>" by simp
  from Default_decision [where lib = sampleLib, OF this, of sampleDeps samplePod None] obtain p' m' where
    run: "Default sampleLib sampleDeps ?d samplePod None = Returns (p', m')" by blast
  have "\<not> IsInstrumented (pod_Meta samplePod)" by (simp add: IsInstrumented_def samplePod_def emptyMeta_def)
  moreover have "decision sampleLib sampleRegistry noReader (pl_SDKConfig samplePlan) samplePod \<noteq> NoSDK"
    by (simp add: cfg sample_decision)
  ultimately show ?thesis using admission_shows_in_gauge [OF sample_ignores _ _ run] run by (fastforce simp: status_defs)
qed

text \<open>
  C6. What pods get follows the ConfigMaps alone: whenever the controller is idle, in every run as
  above and whatever happened on the way, a pod that the webhook changes was injected with a rule
  that selects it and with the settings of a ConfigMap that is in the cache at that moment,
  annotated and of a live node; and a pod that the webhook finds no rule for is one that no such
  ConfigMap selects, unless one of them excludes it. Nothing stale is applied, nothing is missed.
\<close>

theorem idle_webhook_follows_ConfigMaps:
  fixes lib :: "'sel beylaLib"
  assumes "queueReaches lib cml happens s" "\<forall>e. happens e \<longrightarrow> \<not> stripsAnnotation cml e" "idle s"
    and "Default lib deps (wiredDefaulter pl (cs_Registry (wq_Controller s)) rd) p m = Returns (p', m')"
  shows "(p' \<noteq> p \<longrightarrow> (\<exists>key inst rule skip. inForce cml (wq_Caches s) key inst \<and> rule \<in> set (instRules inst)
      \<and> \<not> isSkip rule \<and> bl_match lib (rule_Selector rule) (buildMatchInput (Resolve rd p))
      \<and> p' = injectedPod lib deps rule (WithConfigMapOverrides (pl_SDKConfig pl) (InjectConfig inst)) skip p))
    \<and> (decision lib (cs_Registry (wq_Controller s)) rd (pl_SDKConfig pl) p = Unselected \<longrightarrow>
      (\<forall>key inst rule. inForce cml (wq_Caches s) key inst \<and> rule \<in> set (instRules inst)
          \<and> bl_match lib (rule_Selector rule) (buildMatchInput (Resolve rd p)) \<longrightarrow>
        (\<exists>key' inst' rule'. inForce cml (wq_Caches s) key' inst' \<and> rule' \<in> set (instRules inst') \<and> isSkip rule'
          \<and> bl_match lib (rule_Selector rule') (buildMatchInput (Resolve rd p)))))"
proof (intro conjI impI)
  let ?reg = "cs_Registry (wq_Controller s)"
  note reg = idle_registry [OF assms(1-3)]
  show "\<exists>key inst rule skip. inForce cml (wq_Caches s) key inst \<and> rule \<in> set (instRules inst)
      \<and> \<not> isSkip rule \<and> bl_match lib (rule_Selector rule) (buildMatchInput (Resolve rd p))
      \<and> p' = injectedPod lib deps rule (WithConfigMapOverrides (pl_SDKConfig pl) (InjectConfig inst)) skip p" if ne: "p' \<noteq> p"
  proof -
    have p': "p' = carryOut lib deps (spanSkip lib (wiredDefaulter pl ?reg rd) p) (decision lib ?reg rd (pl_SDKConfig pl) p) p"
      using assms(4) Default_decision [where lib = lib, OF wiredDefaulter_fields(3)] by simp
    then obtain rule eff where d: "decision lib ?reg rd (pl_SDKConfig pl) p = Inject rule eff"
      using ne by (cases "decision lib ?reg rd (pl_SDKConfig pl) p") auto
    then obtain c where c: "Match (bl_match lib) ?reg (Resolve rd p) = Some (rule, c)" "eff = WithConfigMapOverrides (pl_SDKConfig pl) c"
      using decision_InjectD by blast
    with Match_source [OF c(1)] Match_not_skip [OF c(1)] p' d show ?thesis unfolding reg by auto
  qed
  show "\<forall>key inst rule. inForce cml (wq_Caches s) key inst \<and> rule \<in> set (instRules inst)
          \<and> bl_match lib (rule_Selector rule) (buildMatchInput (Resolve rd p)) \<longrightarrow>
        (\<exists>key' inst' rule'. inForce cml (wq_Caches s) key' inst' \<and> rule' \<in> set (instRules inst') \<and> isSkip rule'
          \<and> bl_match lib (rule_Selector rule') (buildMatchInput (Resolve rd p)))"
    if "decision lib ?reg rd (pl_SDKConfig pl) p = Unselected"
  proof -
    have "Match (bl_match lib) ?reg (Resolve rd p) = None"
      using that by (auto simp: decision_def Let_def split: option.split_asm if_split_asm)
    from Match_None [OF this, unfolded reg] show ?thesis by blast
  qed
qed

theorem idle_webhook_follows_ConfigMaps_witness:
  "\<exists>s p' m'. queueReaches sampleLib sampleCml (\<lambda>e. \<not> stripsAnnotation sampleCml e) s \<and> idle s
    \<and> Default sampleLib sampleDeps (wiredDefaulter samplePlan (cs_Registry (wq_Controller s)) noReader) samplePod None = Returns (p', m')
    \<and> p' \<noteq> samplePod \<and> (\<exists>key inst rule. inForce sampleCml (wq_Caches s) key inst \<and> rule \<in> set (instRules inst)
      \<and> bl_match sampleLib (rule_Selector rule) (buildMatchInput (Resolve noReader samplePod)))"
proof -
  have run: "queueReaches sampleLib sampleCml (\<lambda>e. \<not> stripsAnnotation sampleCml e) loadedQueue"
    by (rule loaded_run) simp
  let ?d = "wiredDefaulter samplePlan (namedRegistry ''a'') noReader"
  have reg: "cs_Registry (wq_Controller loadedQueue) = namedRegistry ''a''"
    by (simp add: loadedQueue_def namedRegistry_def nsName_def)
  obtain rule eff where dec: "decision sampleLib (namedRegistry ''a'') noReader (pl_SDKConfig samplePlan) samplePod = Inject rule eff"
    using named_injects by blast
  obtain m' where run': "Default sampleLib sampleDeps ?d samplePod None
      = Returns (injectedPod sampleLib sampleDeps rule eff (spanSkip sampleLib ?d samplePod) samplePod, m')" (is "_ = Returns (?p', _)")
    using Default_decision [where lib = sampleLib, OF wiredDefaulter_fields(3)] dec by simp
  have "\<not> IsInstrumented (pod_Meta samplePod)" by (simp add: IsInstrumented_def samplePod_def emptyMeta_def)
  then have "?p' \<noteq> samplePod" using InjectedAnnotation_kept by metis
  have adm: "Default sampleLib sampleDeps (wiredDefaulter samplePlan (cs_Registry (wq_Controller loadedQueue)) noReader) samplePod None = Returns (?p', m')"
    unfolding reg by (rule run')
  have "\<forall>e. \<not> stripsAnnotation sampleCml e \<longrightarrow> \<not> stripsAnnotation sampleCml e" by simp
  from idle_webhook_follows_ConfigMaps [OF run this loaded_idle adm, THEN conjunct1] \<open>?p' \<noteq> samplePod\<close>
  have "\<exists>key inst rule. inForce sampleCml (wq_Caches loadedQueue) key inst \<and> rule \<in> set (instRules inst)
      \<and> bl_match sampleLib (rule_Selector rule) (buildMatchInput (Resolve noReader samplePod))" by blast
  with run loaded_idle adm \<open>?p' \<noteq> samplePod\<close> show ?thesis by blast
qed

text \<open>
  The gate covers what the controller consumes: if the validating webhook lets a write of
  somebody pass who is not authorized, then the ConfigMap contributes nothing to a snapshot
  and reconciling it forgets its key, sends no patch and does nothing else.
\<close>

theorem unauthorized_write_has_no_effect:
  assumes "Handle (cml_SelectorAnnotation cml) v req = Allowed msg" "cv_decoder v (ar_Object req) = Inr cm"
    "\<not> authorized v (ar_UserInfo req)" "cl_getConfigMap cl ns name = Found cm"
  shows "contributes cml cl cm = None
    \<and> Reconcile lib cml ro cl r ns name st = Returns ((emptyResult, None), forget (nsName ns name) st)
    \<and> cs_Patches (forget (nsName ns name) st) = cs_Patches st"
proof -
  have "\<not> hasSelectorAnnotation cml (cm_Meta cm)"
    using assms(1-3) by (auto simp: Handle_def hasSelectorAnnotation_def split: if_splits)
  then show ?thesis using assms(4) by (simp add: contributes_def Reconcile_def forget_def)
qed

theorem unauthorized_write_has_no_effect_witness:
  "contributes sampleCml (sampleCluster\<lparr>cl_getConfigMap := \<lambda>_ _. Found (selectorCM\<lparr>cm_Meta := emptyMeta\<rparr>)\<rparr>)
     (selectorCM\<lparr>cm_Meta := emptyMeta\<rparr>) = None"
proof -
  let ?cm = "selectorCM\<lparr>cm_Meta := emptyMeta\<rparr>"
  let ?cl = "sampleCluster\<lparr>cl_getConfigMap := \<lambda>_ _. Found ?cm\<rparr>"
  let ?v = "NewConfigMapValidator (\<lambda>u :: unit. Inr ?cm) [''beyla'']"
  let ?req = "\<lparr>ar_Object = (), ar_UserInfo = \<lparr>ui_Username = ''eve'', ui_Groups = []\<rparr>\<rparr>"
  have h: "Handle (cml_SelectorAnnotation sampleCml) ?v ?req = Allowed ''''"
    by (simp add: Handle_def NewConfigMapValidator_def emptyMeta_def)
  have a: "\<not> authorized ?v (ar_UserInfo ?req)" by (simp add: authorized_def NewConfigMapValidator_def)
  have d: "cv_decoder ?v (ar_Object ?req) = Inr ?cm" by (simp add: NewConfigMapValidator_def)
  show ?thesis
    using unauthorized_write_has_no_effect [OF h d a, of ?cl "''obs''" "''a''"] by simp
qed

end
